(* ===== verification/Prelude.thy ===== *)
theory Prelude
  imports Main "HOL-Library.Word" "HOL-Library.Monad_Syntax"
begin

text \<open>
  Shared vocabulary of the development: machine integers of the Rust sources as words, results
  with errors and panics as values, slices, little-endian encodings, saturating arithmetic, and
  the simplification collections the component theories use.
\<close>

unbundle bit_operations_syntax

named_theorems codec_simps "rewriting decoders applied to encoded bytes"
named_theorems no_panic_intros "introduction rules for the absence of panics"
named_theorems defs_result "unfolding of the result combinators"

section \<open>Machine types\<close>

type_synonym u8 = "8 word"
type_synonym u16 = "16 word"
type_synonym u32 = "32 word"
type_synonym u64 = "64 word"
type_synonym i8 = "8 word"
type_synonym i16 = "16 word"
type_synonym i32 = "32 word"
type_synonym bytes = "u8 list"

text \<open>Signed Rust integers share the word type of their width; \<open>sint\<close> reads their value.
  Lengths and indices (\<open>usize\<close>) are \<open>nat\<close>; \<open>usize_max\<close> is the largest on the 32-bit
  targets of the firmware.\<close>

definition usize_max :: nat where
  "usize_max = 2 ^ 32 - 1"

section \<open>Results, errors and panics\<close>

datatype 'e fault = Panic | Fail 'e

type_synonym ('e, 'a) res = "'e fault + 'a"

abbreviation Ok :: "'a \<Rightarrow> ('e, 'a) res" where "Ok \<equiv> Inr"
abbreviation Err :: "'e \<Rightarrow> ('e, 'a) res" where "Err e \<equiv> Inl (Fail e)"
abbreviation Panicked :: "('e, 'a) res" where "Panicked \<equiv> Inl Panic"

text \<open>\<open>and_then\<close> is the \<open>?\<close> operator: the first error or panic ends the function.\<close>

fun and_then :: "('e, 'a) res \<Rightarrow> ('a \<Rightarrow> ('e, 'b) res) \<Rightarrow> ('e, 'b) res" where
  "and_then (Inl e) f = Inl e"
| "and_then (Inr x) f = f x"

definition map_res :: "('a \<Rightarrow> 'b) \<Rightarrow> ('e, 'a) res \<Rightarrow> ('e, 'b) res" where
  "map_res f r = and_then r (\<lambda>x. Ok (f x))"

fun res_ok :: "('e, 'a) res \<Rightarrow> 'a option" where
  "res_ok (Inl _) = None"
| "res_ok (Inr x) = Some x"

fun ok_or :: "'a option \<Rightarrow> 'e \<Rightarrow> ('e, 'a) res" where
  "ok_or None e = Err e"
| "ok_or (Some x) e = Ok x"

definition no_panic :: "('e, 'a) res \<Rightarrow> bool" where
  "no_panic r \<longleftrightarrow> r \<noteq> Inl Panic"

lemma and_then_Ok_iff: "and_then r f = Inr y \<longleftrightarrow> (\<exists>x. r = Inr x \<and> f x = Inr y)"
  by (cases r) auto

lemma and_then_Inl_iff:
  "and_then r f = Inl e \<longleftrightarrow> r = Inl e \<or> (\<exists>x. r = Inr x \<and> f x = Inl e)"
  by (cases r) auto

lemma and_then_cong [fundef_cong]:
  "r = r' \<Longrightarrow> (\<And>x. r' = Inr x \<Longrightarrow> f x = g x) \<Longrightarrow> and_then r f = and_then r' g"
  by (cases r') auto

lemma and_then_split:
  "P (and_then r f) \<longleftrightarrow> (\<forall>e. r = Inl e \<longrightarrow> P (Inl e)) \<and> (\<forall>x. r = Inr x \<longrightarrow> P (f x))"
  by (cases r) auto

lemma map_res_simps [simp]:
  "map_res f (Inl e) = Inl e" "map_res f (Inr x) = Inr (f x)"
  by (simp_all add: map_res_def)

lemma map_res_Ok_iff: "map_res f r = Inr y \<longleftrightarrow> (\<exists>x. r = Inr x \<and> y = f x)"
  by (cases r) auto

lemma res_ok_Some_iff [simp]: "res_ok r = Some x \<longleftrightarrow> r = Inr x"
  by (cases r) auto

lemma ok_or_Ok_iff [simp]: "ok_or m e = Inr x \<longleftrightarrow> m = Some x"
  by (cases m) auto

lemma if_Err_iff:
  "((if b then Inl e else r) = Inr y) \<longleftrightarrow> \<not> b \<and> r = Inr y"
  "((if b then r else Inl e) = Inr y) \<longleftrightarrow> b \<and> r = Inr y"
  by simp_all

lemma and_then_OkE:
  assumes "and_then r f = Inr y"
  obtains x where "r = Inr x" and "f x = Inr y"
  using assms by (cases r) auto

lemma and_then_pair_OkE:
  assumes "and_then r (\<lambda>(a, b). f a b) = Inr y"
  obtains a b where "r = Inr (a, b)" and "f a b = Inr y"
  using assms by (cases r) auto

lemmas ok_iffs = and_then_Ok_iff map_res_Ok_iff

lemma no_panic_Ok [no_panic_intros, simp]: "no_panic (Inr x)"
  by (simp add: no_panic_def)

lemma no_panic_Err [no_panic_intros, simp]: "no_panic (Err e)"
  by (simp add: no_panic_def)

lemma no_panic_Panic [simp]: "\<not> no_panic (Inl Panic)"
  by (simp add: no_panic_def)

lemma no_panic_ok_or [no_panic_intros, simp]: "no_panic (ok_or m e)"
  by (cases m) simp_all

lemma no_panic_and_then [no_panic_intros]:
  "no_panic r \<Longrightarrow> (\<And>x. r = Inr x \<Longrightarrow> no_panic (f x)) \<Longrightarrow> no_panic (and_then r f)"
  by (cases r) (auto simp: no_panic_def)

lemma no_panic_if [no_panic_intros]:
  "(b \<Longrightarrow> no_panic x) \<Longrightarrow> (\<not> b \<Longrightarrow> no_panic y) \<Longrightarrow> no_panic (if b then x else y)"
  by simp

lemma no_panic_map_res [simp]: "no_panic (map_res f r) \<longleftrightarrow> no_panic r"
  by (cases r) (auto simp: no_panic_def)

section \<open>Slices\<close>

text \<open>Rust indexing panics out of range; \<open>get\<close> returns an option.\<close>

definition slice_get :: "'a list \<Rightarrow> nat \<Rightarrow> 'a option" where
  "slice_get xs i = (if i < length xs then Some (xs ! i) else None)"

definition slice_index :: "'a list \<Rightarrow> nat \<Rightarrow> ('e, 'a) res" where
  "slice_index xs i = (if i < length xs then Ok (xs ! i) else Panicked)"

definition slice_from :: "'a list \<Rightarrow> nat \<Rightarrow> ('e, 'a list) res" where
  "slice_from xs n = (if n \<le> length xs then Ok (drop n xs) else Panicked)"

definition slice_to :: "'a list \<Rightarrow> nat \<Rightarrow> ('e, 'a list) res" where
  "slice_to xs n = (if n \<le> length xs then Ok (take n xs) else Panicked)"

lemma slice_from_Ok [simp]: "n \<le> length xs \<Longrightarrow> slice_from xs n = Inr (drop n xs)"
  by (simp add: slice_from_def)

lemma slice_to_Ok [simp]: "n \<le> length xs \<Longrightarrow> slice_to xs n = Inr (take n xs)"
  by (simp add: slice_to_def)

lemma slice_index_Ok [simp]: "i < length xs \<Longrightarrow> slice_index xs i = Inr (xs ! i)"
  by (simp add: slice_index_def)

lemma slice_from_Ok_iff: "slice_from xs n = Inr ys \<longleftrightarrow> n \<le> length xs \<and> ys = drop n xs"
  by (auto simp: slice_from_def)

lemma slice_to_Ok_iff: "slice_to xs n = Inr ys \<longleftrightarrow> n \<le> length xs \<and> ys = take n xs"
  by (auto simp: slice_to_def)

lemma slice_index_Ok_iff: "slice_index xs i = Inr y \<longleftrightarrow> i < length xs \<and> y = xs ! i"
  by (auto simp: slice_index_def)

lemma slice_get_Some_iff: "slice_get xs i = Some y \<longleftrightarrow> i < length xs \<and> y = xs ! i"
  by (auto simp: slice_get_def)

lemma no_panic_slices [simp]:
  "no_panic (slice_from xs n) \<longleftrightarrow> n \<le> length xs"
  "no_panic (slice_to xs n) \<longleftrightarrow> n \<le> length xs"
  "no_panic (slice_index xs i) \<longleftrightarrow> i < length xs"
  by (simp_all add: slice_from_def slice_to_def slice_index_def)

lemmas slice_iffs = slice_from_Ok_iff slice_to_Ok_iff slice_index_Ok_iff slice_get_Some_iff

text \<open>\<open>chunks_exact\<close> of a nonzero width: the full chunks, a shorter remainder left out.\<close>

function chunks_exact :: "nat \<Rightarrow> 'a list \<Rightarrow> 'a list list" where
  "chunks_exact n xs =
     (if n = 0 \<or> length xs < n then [] else take n xs # chunks_exact n (drop n xs))"
  by pat_completeness auto
termination
  by (relation "measure (\<lambda>(n, xs). length xs)") auto

declare chunks_exact.simps [simp del]

lemma chunks_exact_short [simp]: "length xs < n \<Longrightarrow> chunks_exact n xs = []"
  by (subst chunks_exact.simps) simp

lemma chunks_exact_Cons:
  "0 < n \<Longrightarrow> length c = n \<Longrightarrow> chunks_exact n (c @ xs) = c # chunks_exact n xs"
  by (subst chunks_exact.simps) simp

lemma chunks_exact_elem: "c \<in> set (chunks_exact n xs) \<Longrightarrow> length c = n"
proof (induction n xs rule: chunks_exact.induct)
  case (1 n xs)
  then show ?case
    by (subst (asm) (2) chunks_exact.simps) (auto split: if_splits)
qed

lemma length_chunks_exact: "0 < n \<Longrightarrow> length (chunks_exact n xs) = length xs div n"
proof (induction n xs rule: chunks_exact.induct)
  case (1 n xs)
  show ?case
  proof (cases "length xs < n")
    case False
    with 1 have "length (chunks_exact n (drop n xs)) = (length xs - n) div n" by simp
    with False 1 show ?thesis
      by (subst chunks_exact.simps) (simp add: div_if[of "length xs" n])
  qed simp
qed

lemma concat_chunks_exact: "0 < n \<Longrightarrow> n dvd length xs \<Longrightarrow> concat (chunks_exact n xs) = xs"
proof (induction n xs rule: chunks_exact.induct)
  case (1 n xs)
  show ?case
  proof (cases "length xs < n")
    case True
    with 1 show ?thesis by (cases xs) (auto dest: dvd_imp_le)
  next
    case False
    with 1 have "concat (chunks_exact n (drop n xs)) = drop n xs"
      by (auto simp: dvd_minus_self)
    with False 1 show ?thesis by (subst chunks_exact.simps) simp
  qed
qed

lemma chunks_exact_concat:
  "0 < n \<Longrightarrow> (\<forall>c \<in> set cs. length c = n) \<Longrightarrow> chunks_exact n (concat cs) = cs"
  by (induction cs) (auto simp: chunks_exact_Cons)

lemma length_concat_const:
  "(\<forall>c \<in> set cs. length c = n) \<Longrightarrow> length (concat cs) = n * length cs"
  by (induction cs) auto

section \<open>Little-endian encodings\<close>

definition u16_to_le :: "u16 \<Rightarrow> bytes" where
  "u16_to_le w = [ucast w, ucast (drop_bit 8 w)]"

definition u32_to_le :: "u32 \<Rightarrow> bytes" where
  "u32_to_le w = [ucast w, ucast (drop_bit 8 w), ucast (drop_bit 16 w), ucast (drop_bit 24 w)]"

fun u16_of_le :: "bytes \<Rightarrow> u16" where
  "u16_of_le [a, b] = ucast a OR push_bit 8 (ucast b)"
| "u16_of_le _ = 0"

fun u32_of_le :: "bytes \<Rightarrow> u32" where
  "u32_of_le [a, b, c, d] =
     ucast a OR push_bit 8 (ucast b) OR push_bit 16 (ucast c) OR push_bit 24 (ucast d)"
| "u32_of_le _ = 0"

lemma length_u16_to_le [simp]: "length (u16_to_le w) = 2"
  by (simp add: u16_to_le_def)

lemma length_u32_to_le [simp]: "length (u32_to_le w) = 4"
  by (simp add: u32_to_le_def)

lemma u16_of_to_le [simp, codec_simps]: "u16_of_le (u16_to_le w) = w"
  by (rule bit_word_eqI) (auto simp: u16_to_le_def bit_simps)

lemma u32_of_to_le [simp, codec_simps]: "u32_of_le (u32_to_le w) = w"
proof (rule bit_word_eqI)
  fix n :: nat
  assume "n < LENGTH(32)"
  then consider "n < 8" | "8 \<le> n \<and> n < 16" | "16 \<le> n \<and> n < 24" | "24 \<le> n \<and> n < 32"
    by fastforce
  then show "bit (u32_of_le (u32_to_le w)) n = bit w n"
    by cases (auto simp: u32_to_le_def bit_simps)
qed

lemma bit_u8_high [simp]: "8 \<le> n \<Longrightarrow> \<not> bit (b :: u8) n"
  by (auto dest: bit_imp_le_length)

lemma u16_to_of_le: "length bs = 2 \<Longrightarrow> u16_to_le (u16_of_le bs) = bs"
proof -
  assume "length bs = 2"
  then obtain a b where bs: "bs = [a, b]"
    by (auto simp: numeral_2_eq_2 length_Suc_conv)
  show ?thesis unfolding bs u16_to_le_def
    by (auto intro!: bit_word_eqI simp: bit_simps)
qed

lemma u32_to_of_le: "length bs = 4 \<Longrightarrow> u32_to_le (u32_of_le bs) = bs"
proof -
  assume "length bs = 4"
  then obtain a b c d where bs: "bs = [a, b, c, d]"
    by (auto simp: numeral_eq_Suc length_Suc_conv)
  show ?thesis unfolding bs u32_to_le_def
    by (auto intro!: bit_word_eqI simp: bit_simps)
qed

end
