(* ===== verification/Rust_Str.thy ===== *)
theory Rust_Str
  imports Prelude
begin

text \<open>
  Rust strings. A \<open>char\<close> is a Unicode scalar value, here a \<open>nat\<close>; a \<open>str\<close> is the list of its
  characters, and \<open>str_bytes\<close> its UTF-8 bytes, on which \<open>len\<close> and the byte-wise operations of the
  sources work. \<open>from_utf8\<close> accepts exactly the well-formed byte sequences.
\<close>

type_synonym rchar = nat
type_synonym rstr = "rchar list"

definition is_scalar :: "rchar \<Rightarrow> bool" where
  "is_scalar c \<longleftrightarrow> c < 0xD800 \<or> 0xE000 \<le> c \<and> c < 0x110000"

definition valid_str :: "rstr \<Rightarrow> bool" where
  "valid_str s \<longleftrightarrow> list_all is_scalar s"

definition char_bytes :: "rchar \<Rightarrow> bytes" where
  "char_bytes c =
     (if c < 0x80 then [word_of_nat c]
      else if c < 0x800 then [word_of_nat (0xC0 + c div 64), word_of_nat (0x80 + c mod 64)]
      else if c < 0x10000 then
        [word_of_nat (0xE0 + c div 4096), word_of_nat (0x80 + c div 64 mod 64),
         word_of_nat (0x80 + c mod 64)]
      else
        [word_of_nat (0xF0 + c div 262144), word_of_nat (0x80 + c div 4096 mod 64),
         word_of_nat (0x80 + c div 64 mod 64), word_of_nat (0x80 + c mod 64)])"

definition len_utf8 :: "rchar \<Rightarrow> nat" where
  "len_utf8 c = (if c < 0x80 then 1 else if c < 0x800 then 2 else if c < 0x10000 then 3 else 4)"

definition str_bytes :: "rstr \<Rightarrow> bytes" where
  "str_bytes s = concat (map char_bytes s)"

definition str_len :: "rstr \<Rightarrow> nat" where
  "str_len s = length (str_bytes s)"

text \<open>An ASCII literal of the sources.\<close>

definition lit :: "string \<Rightarrow> rstr" where
  "lit s = map of_char s"

definition is_cont :: "nat \<Rightarrow> bool" where
  "is_cont b \<longleftrightarrow> 0x80 \<le> b \<and> b < 0xC0"

text \<open>The length of the sequence a first byte announces and the range of its second byte, as in
  the table of the Unicode standard that \<open>core::str::from_utf8\<close> implements.\<close>

fun from_utf8_nat :: "nat list \<Rightarrow> rstr option" where
  "from_utf8_nat [] = Some []"
| "from_utf8_nat (a # xs) =
     (if a < 0x80 then map_option ((#) a) (from_utf8_nat xs)
      else if 0xC2 \<le> a \<and> a < 0xE0 then
        (case xs of
           b # ys \<Rightarrow>
             if is_cont b
             then map_option ((#) ((a - 0xC0) * 64 + (b - 0x80))) (from_utf8_nat ys)
             else None
         | _ \<Rightarrow> None)
      else if 0xE0 \<le> a \<and> a < 0xF0 then
        (case xs of
           b # c # ys \<Rightarrow>
             if is_cont b \<and> is_cont c \<and> (a = 0xE0 \<longrightarrow> 0xA0 \<le> b) \<and> (a = 0xED \<longrightarrow> b < 0xA0)
             then map_option ((#) ((a - 0xE0) * 4096 + (b - 0x80) * 64 + (c - 0x80)))
                    (from_utf8_nat ys)
             else None
         | _ \<Rightarrow> None)
      else if 0xF0 \<le> a \<and> a < 0xF5 then
        (case xs of
           b # c # d # ys \<Rightarrow>
             if is_cont b \<and> is_cont c \<and> is_cont d \<and> (a = 0xF0 \<longrightarrow> 0x90 \<le> b)
                \<and> (a = 0xF4 \<longrightarrow> b < 0x90)
             then map_option
                    ((#) ((a - 0xF0) * 262144 + (b - 0x80) * 4096 + (c - 0x80) * 64 + (d - 0x80)))
                    (from_utf8_nat ys)
             else None
         | _ \<Rightarrow> None)
      else None)"

definition from_utf8 :: "bytes \<Rightarrow> rstr option" where
  "from_utf8 bs = from_utf8_nat (map unat bs)"

section \<open>Encoding and decoding are inverse\<close>

definition char_nats :: "rchar \<Rightarrow> nat list" where
  "char_nats c =
     (if c < 0x80 then [c]
      else if c < 0x800 then [0xC0 + c div 64, 0x80 + c mod 64]
      else if c < 0x10000 then [0xE0 + c div 4096, 0x80 + c div 64 mod 64, 0x80 + c mod 64]
      else [0xF0 + c div 262144, 0x80 + c div 4096 mod 64, 0x80 + c div 64 mod 64,
            0x80 + c mod 64])"

lemma char_nats_cases:
  "c < 0x80 \<Longrightarrow> char_nats c = [c]"
  "0x80 \<le> c \<Longrightarrow> c < 0x800 \<Longrightarrow> char_nats c = [0xC0 + c div 64, 0x80 + c mod 64]"
  "0x800 \<le> c \<Longrightarrow> c < 0x10000 \<Longrightarrow>
     char_nats c = [0xE0 + c div 4096, 0x80 + c div 64 mod 64, 0x80 + c mod 64]"
  "0x10000 \<le> c \<Longrightarrow>
     char_nats c = [0xF0 + c div 262144, 0x80 + c div 4096 mod 64, 0x80 + c div 64 mod 64,
       0x80 + c mod 64]"
  by (simp_all add: char_nats_def)

text \<open>A character by its six-bit groups.\<close>

lemma join_64: "r < 64 \<Longrightarrow> (x * 64 + r) div 64 = x" "r < 64 \<Longrightarrow> (x * 64 + r) mod 64 = r"
  for r x :: nat
  by simp_all

lemma div_4096: "c div 4096 = c div 64 div 64" and div_262144: "c div 262144 = c div 64 div 64 div 64"
  for c :: nat
  by (simp_all flip: div_mult2_eq)

lemma split_64:
  "c = c div 4096 * 4096 + c div 64 mod 64 * 64 + c mod 64"
  "c = c div 262144 * 262144 + c div 4096 mod 64 * 4096 + c div 64 mod 64 * 64 + c mod 64"
  for c :: nat
proof -
  have a: "c = c div 64 * 64 + c mod 64" by simp
  have b: "c div 64 = c div 4096 * 64 + c div 64 mod 64"
    using div_mult_mod_eq [of "c div 64" 64] by (simp add: div_4096)
  have d: "c div 4096 = c div 262144 * 64 + c div 4096 mod 64"
    using div_mult_mod_eq [of "c div 4096" 64] by (simp add: div_4096 div_262144)
  show "c = c div 4096 * 4096 + c div 64 mod 64 * 64 + c mod 64"
    using a b by linarith
  then show "c = c div 262144 * 262144 + c div 4096 mod 64 * 4096 + c div 64 mod 64 * 64 + c mod 64"
    using d by linarith
qed

lemma char_nats_groups:
  "q < 64 \<Longrightarrow> 2 \<le> p \<Longrightarrow> p < 32 \<Longrightarrow> char_nats (p * 64 + q) = [0xC0 + p, 0x80 + q]"
  "q < 64 \<Longrightarrow> r < 64 \<Longrightarrow> p < 16 \<Longrightarrow> p = 0 \<longrightarrow> 32 \<le> q \<Longrightarrow>
     char_nats (p * 4096 + q * 64 + r) = [0xE0 + p, 0x80 + q, 0x80 + r]"
  "q < 64 \<Longrightarrow> r < 64 \<Longrightarrow> u < 64 \<Longrightarrow> p = 0 \<longrightarrow> 16 \<le> q \<Longrightarrow>
     char_nats (p * 262144 + q * 4096 + r * 64 + u) = [0xF0 + p, 0x80 + q, 0x80 + r, 0x80 + u]"
proof -
  assume "q < 64" "2 \<le> p" "p < 32"
  then show "char_nats (p * 64 + q) = [0xC0 + p, 0x80 + q]"
    by (subst char_nats_cases(2)) auto
next
  assume a: "q < 64" "r < 64" "p < 16" "p = 0 \<longrightarrow> 32 \<le> q"
  let ?v = "p * 4096 + q * 64 + r"
  have v: "?v = (p * 64 + q) * 64 + r" by simp
  have d: "?v div 64 = p * 64 + q" "?v mod 64 = r"
    unfolding v using a by (simp_all only: join_64)
  have "?v div 4096 = p" "?v div 64 mod 64 = q"
    using a by (simp_all only: div_4096 d join_64)
  moreover have "0x800 \<le> ?v" "?v < 0x10000" using a by (cases p; simp)+
  ultimately show "char_nats ?v = [0xE0 + p, 0x80 + q, 0x80 + r]"
    by (simp only: char_nats_cases(3) d)
next
  assume a: "q < 64" "r < 64" "u < 64" "p = 0 \<longrightarrow> 16 \<le> q"
  let ?v = "p * 262144 + q * 4096 + r * 64 + u"
  have v: "?v = ((p * 64 + q) * 64 + r) * 64 + u" by simp
  have d: "?v div 64 = (p * 64 + q) * 64 + r" "?v mod 64 = u"
    unfolding v using a by (simp_all only: join_64)
  have "?v div 262144 = p" "?v div 4096 mod 64 = q" "?v div 64 mod 64 = r"
    using a by (simp_all only: div_4096 div_262144 d join_64)
  moreover have "0x10000 \<le> ?v" using a by (cases p; simp)
  ultimately show "char_nats ?v = [0xF0 + p, 0x80 + q, 0x80 + r, 0x80 + u]"
    by (simp only: char_nats_cases(4) d)
qed

lemma char_bytes_nats: "char_bytes c = map word_of_nat (char_nats c)"
  by (simp add: char_bytes_def char_nats_def)

lemma length_char_bytes [simp]: "length (char_bytes c) = len_utf8 c"
  by (simp add: char_bytes_def len_utf8_def)

lemma str_bytes_simps [simp]:
  "str_bytes [] = []" "str_bytes (c # s) = char_bytes c @ str_bytes s"
  "str_bytes (s @ t) = str_bytes s @ str_bytes t"
  by (simp_all add: str_bytes_def)

lemma str_len_simps [simp]:
  "str_len [] = 0" "str_len (c # s) = len_utf8 c + str_len s"
  "str_len (s @ t) = str_len s + str_len t"
  by (simp_all add: str_len_def)

lemma len_utf8_pos [simp]: "0 < len_utf8 c"
  by (simp add: len_utf8_def)

lemma str_len_zero [simp]: "str_len s = 0 \<longleftrightarrow> s = []"
  by (cases s) (auto simp: len_utf8_def)

lemma valid_str_simps [simp]:
  "valid_str []" "valid_str (c # s) \<longleftrightarrow> is_scalar c \<and> valid_str s"
  "valid_str (s @ t) \<longleftrightarrow> valid_str s \<and> valid_str t"
  by (simp_all add: valid_str_def)

lemma char_nats_lt: "is_scalar c \<Longrightarrow> x \<in> set (char_nats c) \<Longrightarrow> x < 256"
  by (auto simp: char_nats_def is_scalar_def split: if_splits)

lemma map_unat_char_bytes: "is_scalar c \<Longrightarrow> map unat (char_bytes c) = char_nats c"
  unfolding char_bytes_nats map_map
  by (rule map_idI) (auto dest: char_nats_lt simp: unat_of_nat take_bit_nat_eq_self)

lemma from_utf8_nat_char:
  assumes "is_scalar c"
  shows "from_utf8_nat (char_nats c @ xs) = map_option ((#) c) (from_utf8_nat xs)"
proof -
  have c: "c < 0x110000" "c < 0xD800 \<or> 0xE000 \<le> c"
    using assms by (auto simp: is_scalar_def)
  consider "c < 0x80" | "0x80 \<le> c" "c < 0x800" | "0x800 \<le> c" "c < 0x10000"
    | "0x10000 \<le> c" "c < 0x110000"
    using c(1) by linarith
  then show ?thesis
  proof cases
    case 1
    then show ?thesis by (simp add: char_nats_cases)
  next
    case 2
    define p q where "p = c div 64" and "q = c mod 64"
    have v: "c = p * 64 + q" "q < 64" by (simp_all add: p_def q_def)
    have "2 \<le> p" "p < 32" using 2 v by linarith+
    with v show ?thesis by (simp add: char_nats_groups is_cont_def)
  next
    case 3
    define p q r where "p = c div 4096" and "q = c div 64 mod 64" and "r = c mod 64"
    have v: "c = p * 4096 + q * 64 + r" unfolding p_def q_def r_def by (rule split_64)
    have qr: "q < 64" "r < 64" by (simp_all add: q_def r_def)
    have "p < 16" "p = 0 \<longrightarrow> 32 \<le> q" using 3 v qr by linarith+
    moreover have "p = 13 \<longrightarrow> q < 32" using c(2) v qr by linarith
    ultimately show ?thesis using v qr by (simp add: char_nats_groups is_cont_def)
  next
    case 4
    define p q r u where "p = c div 262144" and "q = c div 4096 mod 64"
      and "r = c div 64 mod 64" and "u = c mod 64"
    have v: "c = p * 262144 + q * 4096 + r * 64 + u" unfolding p_def q_def r_def u_def by (rule split_64)
    have qr: "q < 64" "r < 64" "u < 64" by (simp_all add: q_def r_def u_def)
    have "p < 5" "p = 0 \<longrightarrow> 16 \<le> q" "p = 4 \<longrightarrow> q < 16" using 4 v qr by linarith+
    with v qr show ?thesis by (simp add: char_nats_groups is_cont_def)
  qed
qed

lemma from_utf8_nat_sound:
  assumes "from_utf8_nat xs = Some s"
  shows "valid_str s \<and> concat (map char_nats s) = xs"
  using assms
proof (induction xs arbitrary: s rule: from_utf8_nat.induct)
  case 1
  then show ?case by simp
next
  case (2 a xs)
  consider "a < 0x80" | "0xC2 \<le> a" "a < 0xE0" | "0xE0 \<le> a" "a < 0xF0" | "0xF0 \<le> a" "a < 0xF5"
    | "\<not> a < 0x80" "\<not> (0xC2 \<le> a \<and> a < 0xE0)" "\<not> (0xE0 \<le> a \<and> a < 0xF0)" "\<not> (0xF0 \<le> a \<and> a < 0xF5)"
    by linarith
  then show ?case
  proof cases
    case 1
    with "2.prems" obtain t where t: "from_utf8_nat xs = Some t" "s = a # t" by auto
    with "2.IH"(1) 1 show ?thesis by (simp add: is_scalar_def char_nats_cases)
  next
    case two: 2
    with "2.prems" obtain b ys t where xs: "xs = b # ys" "is_cont b" "from_utf8_nat ys = Some t"
      and s: "s = ((a - 0xC0) * 64 + (b - 0x80)) # t"
      by (auto split: list.splits if_splits)
    obtain p where p: "a = 0xC0 + p" "2 \<le> p" "p < 32"
      using two by (auto simp: le_iff_add)
    obtain q where q: "b = 0x80 + q" "q < 64"
      using xs(2) by (auto simp: is_cont_def le_iff_add)
    have ih: "valid_str t \<and> concat (map char_nats t) = ys"
      using "2.IH"(2) two xs by simp
    show ?thesis using ih xs s p q by (simp add: is_scalar_def char_nats_groups)
  next
    case three: 3
    with "2.prems" obtain b c ys t where xs: "xs = b # c # ys" "is_cont b" "is_cont c"
        "a = 0xE0 \<longrightarrow> 0xA0 \<le> b" "a = 0xED \<longrightarrow> b < 0xA0" "from_utf8_nat ys = Some t"
      and s: "s = ((a - 0xE0) * 4096 + (b - 0x80) * 64 + (c - 0x80)) # t"
      by (auto split: list.splits if_splits)
    obtain p where p: "a = 0xE0 + p" "p < 16"
      using three by (auto simp: le_iff_add)
    obtain q where q: "b = 0x80 + q" "q < 64"
      using xs(2) by (auto simp: is_cont_def le_iff_add)
    obtain r where r: "c = 0x80 + r" "r < 64"
      using xs(3) by (auto simp: is_cont_def le_iff_add)
    have ih: "valid_str t \<and> concat (map char_nats t) = ys"
      using "2.IH"(3) three xs by simp
    have lo: "p = 0 \<longrightarrow> 32 \<le> q" and sur: "p = 13 \<longrightarrow> q < 32"
      using xs(4,5) p q by auto
    have "is_scalar (p * 4096 + q * 64 + r)"
      using p(2) q(2) r(2) sur unfolding is_scalar_def by (cases "p < 13"; cases "p = 13"; simp)
    then show ?thesis using ih xs s p q r lo by (simp add: char_nats_groups)
  next
    case four: 4
    with "2.prems" obtain b c d ys t where xs: "xs = b # c # d # ys" "is_cont b" "is_cont c"
        "is_cont d" "a = 0xF0 \<longrightarrow> 0x90 \<le> b" "a = 0xF4 \<longrightarrow> b < 0x90" "from_utf8_nat ys = Some t"
      and s: "s = ((a - 0xF0) * 262144 + (b - 0x80) * 4096 + (c - 0x80) * 64 + (d - 0x80)) # t"
      by (auto split: list.splits if_splits)
    obtain p where p: "a = 0xF0 + p" "p < 5"
      using four by (auto simp: le_iff_add)
    obtain q where q: "b = 0x80 + q" "q < 64"
      using xs(2) by (auto simp: is_cont_def le_iff_add)
    obtain r where r: "c = 0x80 + r" "r < 64"
      using xs(3) by (auto simp: is_cont_def le_iff_add)
    obtain u where u: "d = 0x80 + u" "u < 64"
      using xs(4) by (auto simp: is_cont_def le_iff_add)
    have ih: "valid_str t \<and> concat (map char_nats t) = ys"
      using "2.IH"(4) four xs by simp
    have lo: "p = 0 \<longrightarrow> 16 \<le> q" and up: "p = 4 \<longrightarrow> q < 16"
      using xs(5,6) p q by auto
    have "is_scalar (p * 262144 + q * 4096 + r * 64 + u)"
      using p q r u lo up unfolding is_scalar_def by linarith
    then show ?thesis using ih xs s p q r u lo by (simp add: char_nats_groups)
  next
    case 5
    with "2.prems" show ?thesis by simp
  qed
qed

text \<open>The two directions on bytes.\<close>

lemma from_utf8_str_bytes [simp]: "valid_str s \<Longrightarrow> from_utf8 (str_bytes s) = Some s"
proof (induction s)
  case Nil
  then show ?case by (simp add: from_utf8_def)
next
  case (Cons c s)
  then show ?case
    by (simp add: from_utf8_def map_unat_char_bytes from_utf8_nat_char)
qed

lemma from_utf8_sound:
  assumes "from_utf8 bs = Some s"
  shows "valid_str s" and "str_bytes s = bs"
proof -
  from assms have s: "valid_str s" "concat (map char_nats s) = map unat bs"
    using from_utf8_nat_sound by (auto simp: from_utf8_def)
  then show "valid_str s" by simp
  have "str_bytes s = map word_of_nat (concat (map char_nats s))"
    by (simp add: str_bytes_def char_bytes_nats [abs_def] map_concat comp_def)
  with s show "str_bytes s = bs" by (simp add: comp_def)
qed

lemma from_utf8_Some_iff: "from_utf8 bs = Some s \<longleftrightarrow> valid_str s \<and> str_bytes s = bs"
  using from_utf8_sound from_utf8_str_bytes by blast

lemma str_bytes_inject: "valid_str s \<Longrightarrow> valid_str t \<Longrightarrow> str_bytes s = str_bytes t \<longleftrightarrow> s = t"
  using from_utf8_str_bytes by fastforce

end
