(* ===== verification/Rust_Num.thy ===== *)
theory Rust_Num
  imports Prelude
begin

text \<open>
  The saturating, clamping and rounding integer operations of Rust's standard library that the
  repeater uses, on words, with their meaning on \<open>nat\<close> and \<open>int\<close> as simplification rules.
\<close>

named_theorems num_simps "meaning of the machine arithmetic on nat and int"

section \<open>Unsigned saturating arithmetic\<close>

definition sat_add :: "'a::len word \<Rightarrow> 'a word \<Rightarrow> 'a word" where
  "sat_add x y = word_of_nat (min (unat x + unat y) (2 ^ LENGTH('a) - 1))"

definition sat_sub :: "'a::len word \<Rightarrow> 'a word \<Rightarrow> 'a word" where
  "sat_sub x y = word_of_nat (unat x - unat y)"

definition sat_mul :: "'a::len word \<Rightarrow> 'a word \<Rightarrow> 'a word" where
  "sat_mul x y = word_of_nat (min (unat x * unat y) (2 ^ LENGTH('a) - 1))"

lemma unat_word_of_nat_id: "n < 2 ^ LENGTH('a) \<Longrightarrow> unat (word_of_nat n :: 'a::len word) = n"
  by (simp add: unat_of_nat take_bit_nat_eq_self)

lemma unat_sat_add [num_simps]:
  "unat (sat_add x y) = min (unat x + unat y) (2 ^ LENGTH('a) - 1)" for x y :: "'a::len word"
  unfolding sat_add_def by (rule unat_word_of_nat_id) (simp add: min_less_iff_disj)

lemma unat_sat_sub [num_simps]: "unat (sat_sub x y) = unat x - unat y" for x y :: "'a::len word"
  unfolding sat_sub_def
  by (rule unat_word_of_nat_id) (rule le_less_trans [OF diff_le_self unsigned_less])

lemma unat_sat_mul [num_simps]:
  "unat (sat_mul x y) = min (unat x * unat y) (2 ^ LENGTH('a) - 1)" for x y :: "'a::len word"
  unfolding sat_mul_def by (rule unat_word_of_nat_id) (simp add: min_less_iff_disj)

lemma sat_sub_self [simp]: "sat_sub x x = 0"
  by (simp add: sat_sub_def)

lemma sat_add_zero [simp]: "sat_add x 0 = x" for x :: "'a::len word"
proof (rule word_unat_eq_iff [THEN iffD2])
  have "unat x < 2 ^ LENGTH('a)" by (rule unsigned_less)
  then have "unat x \<le> 2 ^ LENGTH('a) - 1" by linarith
  then show "unat (sat_add x 0) = unat x" by (simp add: unat_sat_add)
qed

lemma sat_add_ge: "x \<le> sat_add x y" for x y :: "'a::len word"
proof -
  have "unat x < 2 ^ LENGTH('a)" by (rule unsigned_less)
  then have "unat x \<le> 2 ^ LENGTH('a) - 1" by linarith
  then show ?thesis by (simp add: word_le_nat_alt unat_sat_add)
qed

section \<open>Rounding up\<close>

text \<open>\<open>div_ceil_u64\<close> of \<open>repeater/src/app/mod.rs\<close> and \<open>config.rs\<close>: the quotient, plus one
  when it is not exact. On \<open>nat\<close>; the callers keep the operands below \<open>2 ^ 64\<close>.\<close>

definition div_ceil_u64 :: "nat \<Rightarrow> nat \<Rightarrow> nat" where
  "div_ceil_u64 numerator denominator =
     numerator div denominator + (if denominator dvd numerator then 0 else 1)"

lemma div_ceil_ge: "0 < d \<Longrightarrow> n \<le> div_ceil_u64 n d * d"
proof -
  assume d: "0 < d"
  have "n = n div d * d + n mod d" by simp
  moreover have "n mod d < d" using d by simp
  ultimately have "n \<le> n div d * d + d" by linarith
  then show ?thesis by (auto simp: div_ceil_u64_def add_mult_distrib)
qed

lemma div_ceil_minimal: "0 < d \<Longrightarrow> n \<le> m * d \<Longrightarrow> div_ceil_u64 n d \<le> m"
proof (cases "d dvd n")
  case True
  assume "0 < d" "n \<le> m * d"
  then have "n div d \<le> m" using div_le_mono [of n "m * d" d] by simp
  with True show ?thesis by (simp add: div_ceil_u64_def)
next
  case False
  assume d: "0 < d" and le: "n \<le> m * d"
  with False have "n < m * d" by (auto simp: le_less)
  then have "n div d < m" using d by (simp add: div_less_iff_less_mult)
  with False show ?thesis by (simp add: div_ceil_u64_def)
qed

section \<open>Signed conversions\<close>

text \<open>\<open>i64\<close> values are \<open>int\<close> with saturation written out.\<close>

definition i64_min :: int where "i64_min = - (2 ^ 63)"
definition i64_max :: int where "i64_max = 2 ^ 63 - 1"

definition sat_i64 :: "int \<Rightarrow> int" where
  "sat_i64 z = max i64_min (min i64_max z)"

lemma sat_i64_id [simp]: "i64_min \<le> z \<Longrightarrow> z \<le> i64_max \<Longrightarrow> sat_i64 z = z"
  by (simp add: sat_i64_def)

lemma sat_i64_range [simp]: "i64_min \<le> sat_i64 z" "sat_i64 z \<le> i64_max"
  by (simp_all add: sat_i64_def i64_min_def i64_max_def)

text \<open>\<open>x.clamp(i8::MIN as i16, i8::MAX as i16) as i8\<close>.\<close>

definition clamp_i16_i8 :: "i16 \<Rightarrow> i8" where
  "clamp_i16_i8 x = word_of_int (max (- 128) (min 127 (sint x)))"

lemma sint_clamp_i16_i8 [num_simps]: "sint (clamp_i16_i8 x) = max (- 128) (min 127 (sint x))"
proof -
  have "- (2 ^ 7) \<le> max (- 128) (min 127 (sint x))" "max (- 128) (min 127 (sint x)) < 2 ^ 7"
    by (simp_all add: max_def min_def)
  then show ?thesis
    by (simp only: clamp_i16_i8_def sint_sbintrunc')
      (simp add: signed_take_bit_int_eq_self)
qed

end
