(* ===== verification/Wire.thy ===== *)
theory Wire
  imports Rust_Num
begin

text \<open>
  The protocol crate's limits, its payload kinds, its errors and the bounds-checked readers every
  decoder is built from (\<open>constants.rs\<close>, \<open>payload_kind.rs\<close>, \<open>error.rs\<close>, \<open>wire.rs\<close>). A reader takes
  the input and the offset and returns the value with the advanced offset.
\<close>

section \<open>Limits\<close>

definition PUB_KEY_SIZE :: nat where "PUB_KEY_SIZE = 32"
definition PRV_KEY_SIZE :: nat where "PRV_KEY_SIZE = 64"
definition SEED_SIZE :: nat where "SEED_SIZE = 32"
definition SIGNATURE_SIZE :: nat where "SIGNATURE_SIZE = 64"
definition CIPHER_KEY_SIZE :: nat where "CIPHER_KEY_SIZE = 16"
definition CIPHER_BLOCK_SIZE :: nat where "CIPHER_BLOCK_SIZE = 16"
definition CIPHER_MAC_SIZE :: nat where "CIPHER_MAC_SIZE = 2"
definition MAX_ADVERT_DATA_SIZE :: nat where "MAX_ADVERT_DATA_SIZE = 32"
definition MAX_PACKET_PAYLOAD :: nat where "MAX_PACKET_PAYLOAD = 184"
definition MAX_PATH_SIZE :: nat where "MAX_PATH_SIZE = 64"
definition MAX_TRANS_UNIT :: nat where "MAX_TRANS_UNIT = 255"
definition MAX_TEXT_LEN :: nat where "MAX_TEXT_LEN = 160"

lemmas protocol_limits =
  PUB_KEY_SIZE_def PRV_KEY_SIZE_def SEED_SIZE_def SIGNATURE_SIZE_def CIPHER_KEY_SIZE_def
  CIPHER_BLOCK_SIZE_def CIPHER_MAC_SIZE_def MAX_ADVERT_DATA_SIZE_def MAX_PACKET_PAYLOAD_def
  MAX_PATH_SIZE_def MAX_TRANS_UNIT_def MAX_TEXT_LEN_def

section \<open>Payload kinds\<close>

datatype payload_kind =
    KRequest | KResponse | KTextMessage | KAck | KAdvert | KGroupText | KGroupData
  | KAnonymousRequest | KPath | KTrace | KMultipart | KControl | KReserved u8 | KRawCustom

definition payload_kind_from_nibble :: "u8 \<Rightarrow> payload_kind" where
  "payload_kind_from_nibble nibble =
     (let n = nibble AND 0x0F in
      if n = 0x00 then KRequest
      else if n = 0x01 then KResponse
      else if n = 0x02 then KTextMessage
      else if n = 0x03 then KAck
      else if n = 0x04 then KAdvert
      else if n = 0x05 then KGroupText
      else if n = 0x06 then KGroupData
      else if n = 0x07 then KAnonymousRequest
      else if n = 0x08 then KPath
      else if n = 0x09 then KTrace
      else if n = 0x0A then KMultipart
      else if n = 0x0B then KControl
      else if n = 0x0F then KRawCustom
      else KReserved n)"

fun payload_kind_to_nibble :: "payload_kind \<Rightarrow> u8" where
  "payload_kind_to_nibble KRequest = 0x00"
| "payload_kind_to_nibble KResponse = 0x01"
| "payload_kind_to_nibble KTextMessage = 0x02"
| "payload_kind_to_nibble KAck = 0x03"
| "payload_kind_to_nibble KAdvert = 0x04"
| "payload_kind_to_nibble KGroupText = 0x05"
| "payload_kind_to_nibble KGroupData = 0x06"
| "payload_kind_to_nibble KAnonymousRequest = 0x07"
| "payload_kind_to_nibble KPath = 0x08"
| "payload_kind_to_nibble KTrace = 0x09"
| "payload_kind_to_nibble KMultipart = 0x0A"
| "payload_kind_to_nibble KControl = 0x0B"
| "payload_kind_to_nibble (KReserved n) = n AND 0x0F"
| "payload_kind_to_nibble KRawCustom = 0x0F"

fun is_direct_encrypted :: "payload_kind \<Rightarrow> bool" where
  "is_direct_encrypted KRequest = True"
| "is_direct_encrypted KResponse = True"
| "is_direct_encrypted KTextMessage = True"
| "is_direct_encrypted KPath = True"
| "is_direct_encrypted _ = False"

text \<open>The kinds a nibble can name: a reserved kind carries one of the unassigned values.\<close>

fun payload_kind_wf :: "payload_kind \<Rightarrow> bool" where
  "payload_kind_wf (KReserved n) = (n \<in> {0x0C, 0x0D, 0x0E})"
| "payload_kind_wf _ = True"

lemma and_0F_idem [simp]: "(n AND 0x0F) AND 0x0F = n AND (0x0F :: u8)"
  by (simp add: and.assoc)

lemma payload_kind_to_from [simp]:
  "payload_kind_to_nibble (payload_kind_from_nibble n) = n AND 0x0F"
  by (simp add: payload_kind_from_nibble_def Let_def)

lemma payload_kind_to_nibble_low [simp]:
  "payload_kind_to_nibble k AND 0x0F = payload_kind_to_nibble k"
  by (cases k) simp_all

lemma payload_kind_from_to [simp]:
  "payload_kind_wf k \<Longrightarrow> payload_kind_from_nibble (payload_kind_to_nibble k) = k"
  by (cases k) (auto simp: payload_kind_from_nibble_def)

lemma nibble_cases:
  fixes n :: u8
  shows "n AND 0x0F \<in> {0, 1, 2, 3, 4, 5, 6, 7, 8, 9, 10, 11, 12, 13, 14, 15}"
proof -
  have "n AND 0x0F = take_bit 4 n"
    by (simp add: take_bit_eq_mask mask_eq_exp_minus_1)
  then have "unat (n AND 0x0F) = take_bit 4 (unat n)"
    by (simp add: unsigned_take_bit_eq)
  also have "\<dots> < 2 ^ 4" by (rule take_bit_nat_less_exp)
  finally have "unat (n AND 0x0F) < 16" by simp
  then have "unat (n AND 0x0F) \<in> set [0..<16]" by simp
  also have "set [0..<16] = {0, 1, 2, 3, 4, 5, 6, 7, 8, 9, 10, 11, 12, 13, 14, 15}"
    by code_simp
  finally have "unat (n AND 0x0F) \<in> {0, 1, 2, 3, 4, 5, 6, 7, 8, 9, 10, 11, 12, 13, 14, 15}" .
  then have "word_of_nat (unat (n AND 0x0F)) \<in>
      ({0, 1, 2, 3, 4, 5, 6, 7, 8, 9, 10, 11, 12, 13, 14, 15} :: u8 set)"
    by (elim insertE emptyE) simp_all
  then show ?thesis by simp
qed

lemma payload_kind_from_wf [simp]: "payload_kind_wf (payload_kind_from_nibble n)"
  using nibble_cases [of n] by (auto simp: payload_kind_from_nibble_def Let_def)

section \<open>Errors\<close>

datatype error =
    EmptyPacket
  | InvalidHeaderSentinel
  | UnsupportedPayloadVersion u8
  | PacketTooLong nat
  | PayloadTooLong nat
  | PathTooLong nat
  | InvalidHashSizeCode u8
  | InvalidHashSize nat
  | InvalidPathLength
  | InvalidTracePathLength u8
  | InvalidTraceFlags u8
  | Truncated string
  | InvalidLength string
  | InvalidUtf8
  | MissingTransportCodes
  | UnexpectedTransportCodes
  | InvalidZeroHopControlRoute
  | PayloadKindMismatch payload_kind payload_kind
  | PathKindMismatch

type_synonym 'a result = "(error, 'a) res"

section \<open>Readers\<close>

definition ensure_payload_len :: "bytes \<Rightarrow> unit result" where
  "ensure_payload_len input =
     (if MAX_PACKET_PAYLOAD < length input then Err (PayloadTooLong (length input)) else Ok ())"

definition read_bytes :: "bytes \<Rightarrow> nat \<Rightarrow> nat \<Rightarrow> string \<Rightarrow> (bytes \<times> nat) result" where
  "read_bytes input offset len field =
     (if usize_max < offset + len then Err (InvalidLength field)
      else let end' = offset + len in
        if end' \<le> length input then Ok (take len (drop offset input), end')
        else Err (Truncated field))"

text \<open>\<open>read_array::<N>\<close>: the conversion to \<open>[u8; N]\<close> checks the length of the slice.\<close>

definition read_array :: "nat \<Rightarrow> bytes \<Rightarrow> nat \<Rightarrow> string \<Rightarrow> (bytes \<times> nat) result" where
  "read_array n input offset field =
     and_then (read_bytes input offset n field) (\<lambda>(bytes, offset').
       if length bytes = n then Ok (bytes, offset') else Err (InvalidLength field))"

definition read_u8 :: "bytes \<Rightarrow> nat \<Rightarrow> string \<Rightarrow> (u8 \<times> nat) result" where
  "read_u8 input offset field =
     and_then (read_bytes input offset 1 field) (\<lambda>(bytes, offset').
       and_then (slice_index bytes 0) (\<lambda>b. Ok (b, offset')))"

definition read_u16_le :: "bytes \<Rightarrow> nat \<Rightarrow> string \<Rightarrow> (u16 \<times> nat) result" where
  "read_u16_le input offset field =
     and_then (read_array 2 input offset field) (\<lambda>(bs, offset'). Ok (u16_of_le bs, offset'))"

definition read_u32_le :: "bytes \<Rightarrow> nat \<Rightarrow> string \<Rightarrow> (u32 \<times> nat) result" where
  "read_u32_le input offset field =
     and_then (read_array 4 input offset field) (\<lambda>(bs, offset'). Ok (u32_of_le bs, offset'))"

definition read_i32_le :: "bytes \<Rightarrow> nat \<Rightarrow> string \<Rightarrow> (i32 \<times> nat) result" where
  "read_i32_le input offset field =
     and_then (read_array 4 input offset field) (\<lambda>(bs, offset'). Ok (u32_of_le bs, offset'))"

lemmas reader_defs =
  read_bytes_def read_array_def read_u8_def read_u16_le_def read_u32_le_def read_i32_le_def

text \<open>A successful read: the bytes at the offset, and an offset still inside the input.\<close>

lemma read_array_Ok_iff:
  "read_array n input offset field = Inr (v, off') \<longleftrightarrow>
     offset + n \<le> usize_max \<and> offset + n \<le> length input
     \<and> v = take n (drop offset input) \<and> off' = offset + n"
  by (auto simp: reader_defs Let_def and_then_Ok_iff split: if_splits)

lemma take_1_drop: "offset < length xs \<Longrightarrow> take (Suc 0) (drop offset xs) = [xs ! offset]"
  by (simp add: take_Suc hd_drop_conv_nth)

lemma read_u8_Ok_iff:
  "read_u8 input offset field = Inr (v, off') \<longleftrightarrow>
     offset + 1 \<le> usize_max \<and> offset < length input \<and> v = input ! offset \<and> off' = offset + 1"
  by (auto simp: reader_defs Let_def and_then_Ok_iff slice_iffs take_1_drop split: if_splits)

lemma read_u16_le_Ok_iff:
  "read_u16_le input offset field = Inr (v, off') \<longleftrightarrow>
     offset + 2 \<le> usize_max \<and> offset + 2 \<le> length input
     \<and> v = u16_of_le (take 2 (drop offset input)) \<and> off' = offset + 2"
  by (auto simp: read_u16_le_def and_then_Ok_iff read_array_Ok_iff)

lemma read_u32_le_Ok_iff:
  "read_u32_le input offset field = Inr (v, off') \<longleftrightarrow>
     offset + 4 \<le> usize_max \<and> offset + 4 \<le> length input
     \<and> v = u32_of_le (take 4 (drop offset input)) \<and> off' = offset + 4"
  by (auto simp: read_u32_le_def and_then_Ok_iff read_array_Ok_iff)

lemma read_i32_le_Ok_iff:
  "read_i32_le input offset field = Inr (v, off') \<longleftrightarrow>
     offset + 4 \<le> usize_max \<and> offset + 4 \<le> length input
     \<and> v = u32_of_le (take 4 (drop offset input)) \<and> off' = offset + 4"
  by (auto simp: read_i32_le_def and_then_Ok_iff read_array_Ok_iff)

lemma ensure_payload_len_Ok_iff [simp]:
  "ensure_payload_len input = Inr u \<longleftrightarrow> length input \<le> 184"
  by (auto simp: ensure_payload_len_def MAX_PACKET_PAYLOAD_def)

lemmas read_iffs =
  read_array_Ok_iff read_u8_Ok_iff read_u16_le_Ok_iff read_u32_le_Ok_iff read_i32_le_Ok_iff

text \<open>No reader panics.\<close>

lemma no_panic_readers [no_panic_intros, simp]:
  "no_panic (ensure_payload_len input)"
  "no_panic (read_array n input offset field)"
  "no_panic (read_u8 input offset field)"
  "no_panic (read_u16_le input offset field)"
  "no_panic (read_u32_le input offset field)"
  "no_panic (read_i32_le input offset field)"
  by (auto simp: ensure_payload_len_def reader_defs Let_def no_panic_def and_then_Inl_iff
      slice_index_def split: if_splits)

text \<open>The bytes of an encoding, read back at their place: what precedes the field is skipped by
  its length.\<close>

lemma usize_small: "n \<le> 4096 \<Longrightarrow> n \<le> usize_max"
  by (simp add: usize_max_def)

lemma u32_of_le_split: "off + 4 \<le> length xs \<Longrightarrow>
    u32_to_le (u32_of_le (take 4 (drop off xs))) = take 4 (drop off xs)"
  by (rule u32_to_of_le) simp

lemma u16_of_le_split: "off + 2 \<le> length xs \<Longrightarrow>
    u16_to_le (u16_of_le (take 2 (drop off xs))) = take 2 (drop off xs)"
  by (rule u16_to_of_le) simp

text \<open>Re-assembling an input from the fields read off it, field by field.\<close>

lemma codec_join:
  "off + n \<le> length xs \<Longrightarrow> take n (drop off xs) @ ys = drop off xs \<longleftrightarrow> ys = drop (off + n) xs"
  "n \<le> length xs \<Longrightarrow> take n xs @ ys = xs \<longleftrightarrow> ys = drop n xs"
  "off < length xs \<Longrightarrow> xs ! off # ys = drop off xs \<longleftrightarrow> ys = drop (Suc off) xs"
  "0 < length xs \<Longrightarrow> xs ! 0 # ys = xs \<longleftrightarrow> ys = drop (Suc 0) xs"
  "off + n \<le> length xs \<Longrightarrow> take n (drop off xs) = drop off xs \<longleftrightarrow> off + n = length xs"
  for xs ys :: "'a list"
proof -
  show "off + n \<le> length xs \<Longrightarrow> take n (drop off xs) @ ys = drop off xs \<longleftrightarrow> ys = drop (off + n) xs"
    by (metis add.commute append_take_drop_id drop_drop same_append_eq)
  show "n \<le> length xs \<Longrightarrow> take n xs @ ys = xs \<longleftrightarrow> ys = drop n xs"
    by (metis append_take_drop_id same_append_eq)
  show "off < length xs \<Longrightarrow> xs ! off # ys = drop off xs \<longleftrightarrow> ys = drop (Suc off) xs"
    by (auto simp: Cons_nth_drop_Suc [symmetric])
  show "0 < length xs \<Longrightarrow> xs ! 0 # ys = xs \<longleftrightarrow> ys = drop (Suc 0) xs"
    by (cases xs) auto
  show "off + n \<le> length xs \<Longrightarrow> take n (drop off xs) = drop off xs \<longleftrightarrow> off + n = length xs"
    by auto
qed

lemma Suc_Suc_zero: "Suc (Suc 0) = 2"
  by simp

text \<open>Evaluating a reader whose range lies inside the input.\<close>

lemma read_evals:
  "offset + n \<le> usize_max \<Longrightarrow> offset + n \<le> length input \<Longrightarrow>
     read_array n input offset field = Inr (take n (drop offset input), offset + n)"
  "offset + 1 \<le> usize_max \<Longrightarrow> offset < length input \<Longrightarrow>
     read_u8 input offset field = Inr (input ! offset, offset + 1)"
  "offset + 2 \<le> usize_max \<Longrightarrow> offset + 2 \<le> length input \<Longrightarrow>
     read_u16_le input offset field = Inr (u16_of_le (take 2 (drop offset input)), offset + 2)"
  "offset + 4 \<le> usize_max \<Longrightarrow> offset + 4 \<le> length input \<Longrightarrow>
     read_u32_le input offset field = Inr (u32_of_le (take 4 (drop offset input)), offset + 4)"
  "offset + 4 \<le> usize_max \<Longrightarrow> offset + 4 \<le> length input \<Longrightarrow>
     read_i32_le input offset field = Inr (u32_of_le (take 4 (drop offset input)), offset + 4)"
  by (simp_all add: read_iffs)

lemma ensure_payload_len_Ok [simp]: "length input \<le> 184 \<Longrightarrow> ensure_payload_len input = Inr ()"
  by (simp add: ensure_payload_len_def MAX_PACKET_PAYLOAD_def)

lemmas codec_dec = and_then_Ok_iff read_iffs slice_iffs Let_def Suc_Suc_zero
lemmas codec_eval = read_evals usize_max_def nth_append nth_Cons' Suc_Suc_zero

section \<open>The contract of a codec\<close>

text \<open>
  What every encoder/decoder pair of the protocol owes its callers: decoding never panics and yields
  well-formed values, and decoding what was encoded gives the value back. Inputs are at most a packet payload long. A canonical codec adds that re-encoding what was decoded gives
  the bytes back, so that no two byte strings decode to the same value.
\<close>

locale wire_decoder =
  fixes enc :: "'a \<Rightarrow> bytes result" and dec :: "bytes \<Rightarrow> 'a result" and wf :: "'a \<Rightarrow> bool"
  assumes dec_enc: "wf x \<Longrightarrow> enc x = Inr bs \<Longrightarrow> length bs \<le> 184 \<Longrightarrow> dec bs = Inr x"
    and dec_wf: "dec bs = Inr x \<Longrightarrow> wf x"
    and dec_safe: "no_panic (dec bs)"
begin

lemma enc_inject:
  "wf x \<Longrightarrow> wf y \<Longrightarrow> enc x = Inr bs \<Longrightarrow> enc y = Inr bs \<Longrightarrow> length bs \<le> 184 \<Longrightarrow> x = y"
  by (metis dec_enc sum.inject(2))

end

locale wire_codec = wire_decoder +
  assumes enc_dec: "dec bs = Inr x \<Longrightarrow> enc x = Inr bs"
begin

lemma dec_inject: "dec a = Inr x \<Longrightarrow> dec b = Inr x \<Longrightarrow> a = b"
  by (drule enc_dec)+ simp

lemma accepted_iff:
  "length bs \<le> 184 \<Longrightarrow> dec bs = Inr x \<longleftrightarrow> wf x \<and> enc x = Inr bs"
  using dec_enc enc_dec dec_wf by blast

end

end
