(* ===== verification/Codes.thy ===== *)
theory Codes
  imports Wire
begin

text \<open>
  The small enumerations of the protocol with their wire codes (\<open>route_type.rs\<close>, \<open>header.rs\<close>,
  \<open>advert_node_type.rs\<close>, \<open>text_type.rs\<close>, \<open>hash_size.rs\<close>, \<open>trace_hash_size.rs\<close>). The locale
  \<open>bit_code\<close> states what a field codec owes its users; each enumeration is an interpretation.
\<close>

section \<open>Bit-field codes\<close>

locale bit_code =
  fixes to_bits :: "'a \<Rightarrow> u8" and from_bits :: "u8 \<Rightarrow> 'a"
    and wf :: "'a \<Rightarrow> bool" and mask :: u8
  assumes from_to: "wf x \<Longrightarrow> from_bits (to_bits x) = x"
    and to_from: "to_bits (from_bits b) = b AND mask"
    and from_wf: "wf (from_bits b)"
    and to_masked: "to_bits x AND mask = to_bits x"
begin

lemma to_bits_inject: "wf x \<Longrightarrow> wf y \<Longrightarrow> to_bits x = to_bits y \<longleftrightarrow> x = y"
  using from_to by metis

lemma from_bits_masked: "from_bits (b AND mask) = from_bits b"
  using from_to [OF from_wf, of b] by (simp add: to_from)

lemma from_bits_eq_iff: "from_bits a = from_bits b \<longleftrightarrow> a AND mask = b AND mask"
  using from_bits_masked to_from by metis

lemma wf_iff_decoded: "wf x \<longleftrightarrow> (\<exists>b. x = from_bits b)"
  using from_to from_wf by metis

end

interpretation kind_code: bit_code payload_kind_to_nibble payload_kind_from_nibble
    payload_kind_wf "0x0F"
  by unfold_locales simp_all

section \<open>Route types\<close>

datatype route_type = TransportFlood | Flood | Direct | TransportDirect

definition route_type_from_bits :: "u8 \<Rightarrow> route_type" where
  "route_type_from_bits bits =
     (let b = bits AND 0x03 in
      if b = 0x00 then TransportFlood
      else if b = 0x01 then Flood
      else if b = 0x02 then Direct
      else TransportDirect)"

fun route_type_to_bits :: "route_type \<Rightarrow> u8" where
  "route_type_to_bits TransportFlood = 0x00"
| "route_type_to_bits Flood = 0x01"
| "route_type_to_bits Direct = 0x02"
| "route_type_to_bits TransportDirect = 0x03"

fun has_transport_codes :: "route_type \<Rightarrow> bool" where
  "has_transport_codes TransportFlood = True"
| "has_transport_codes TransportDirect = True"
| "has_transport_codes _ = False"

fun is_flood :: "route_type \<Rightarrow> bool" where
  "is_flood Flood = True"
| "is_flood TransportFlood = True"
| "is_flood _ = False"

fun is_direct :: "route_type \<Rightarrow> bool" where
  "is_direct Direct = True"
| "is_direct TransportDirect = True"
| "is_direct _ = False"

lemma is_direct_iff: "is_direct r \<longleftrightarrow> \<not> is_flood r"
  by (cases r) simp_all

lemma two_bit_cases:
  fixes n :: u8
  shows "n AND 0x03 \<in> {0, 1, 2, 3}"
proof -
  have "n AND 0x03 = take_bit 2 n"
    by (simp add: take_bit_eq_mask mask_eq_exp_minus_1)
  then have "unat (n AND 0x03) = take_bit 2 (unat n)"
    by (simp add: unsigned_take_bit_eq)
  also have "\<dots> < 2 ^ 2" by (rule take_bit_nat_less_exp)
  finally have "unat (n AND 0x03) \<in> {0, 1, 2, 3}" by auto
  then have "word_of_nat (unat (n AND 0x03)) \<in> ({0, 1, 2, 3} :: u8 set)"
    by (elim insertE emptyE) simp_all
  then show ?thesis by simp
qed

interpretation route_code: bit_code route_type_to_bits route_type_from_bits "\<lambda>_. True" "0x03"
proof unfold_locales
  fix x :: route_type
  show "route_type_from_bits (route_type_to_bits x) = x"
    by (cases x) (simp_all add: route_type_from_bits_def)
  show "route_type_to_bits x AND 0x03 = route_type_to_bits x"
    by (cases x) simp_all
next
  fix b :: u8
  show "route_type_to_bits (route_type_from_bits b) = b AND 0x03"
    using two_bit_cases [of b] by (auto simp: route_type_from_bits_def Let_def)
qed simp

section \<open>Packet header\<close>

record header =
  payload_version :: u8
  header_kind :: payload_kind
  header_route :: route_type

definition header_decode :: "u8 \<Rightarrow> header result" where
  "header_decode byte =
     (if byte = 0xFF then Err InvalidHeaderSentinel
      else let version = drop_bit 6 byte + 1 in
        if version \<noteq> 1 then Err (UnsupportedPayloadVersion version)
        else Ok \<lparr>payload_version = version,
                 header_kind = payload_kind_from_nibble (drop_bit 2 byte AND 0x0F),
                 header_route = route_type_from_bits byte\<rparr>)"

definition header_encode :: "header \<Rightarrow> u8 result" where
  "header_encode h =
     (if payload_version h \<noteq> 1 then Err (UnsupportedPayloadVersion (payload_version h))
      else Ok (push_bit 6 (payload_version h - 1)
               OR push_bit 2 (payload_kind_to_nibble (header_kind h))
               OR route_type_to_bits (header_route h)))"

lemma byte_fields:
  fixes b :: u8
  assumes "drop_bit 6 b = 0"
  shows "push_bit 2 (drop_bit 2 b AND 0x0F) OR (b AND 0x03) = b"
proof (rule bit_word_eqI)
  fix n :: nat
  assume n: "n < LENGTH(8)"
  have high: "\<not> bit b 6" "\<not> bit b 7"
    using assms by (auto simp: bit_eq_iff bit_simps dest: spec [of _ 0] spec [of _ 1])
  have m4: "(0x0F :: u8) = mask 4" and m2: "(0x03 :: u8) = mask 2"
    by (simp_all add: mask_eq_exp_minus_1)
  have s2: "2 \<le> n \<Longrightarrow> Suc (Suc (n - 2)) = n" by arith
  from n consider "n < 2" | "2 \<le> n \<and> n < 6" | "n = 6" | "n = 7" by fastforce
  then show "bit (push_bit 2 (drop_bit 2 b AND 0x0F) OR (b AND 0x03)) n = bit b n"
    unfolding m4 m2 using high by cases (auto simp: bit_simps s2)
qed

lemma header_encode_decode:
  assumes "header_decode b = Inr h"
  shows "header_encode h = Inr b"
proof -
  have z: "drop_bit 6 b = 0" and h: "payload_version h = 1"
      "header_kind h = payload_kind_from_nibble (drop_bit 2 b AND 0x0F)"
      "header_route h = route_type_from_bits b"
    using assms by (auto simp: header_decode_def Let_def split: if_splits)
  show ?thesis
    using byte_fields [OF z] by (simp add: header_encode_def h route_code.to_from)
qed

lemma header_decode_wf:
  "header_decode b = Inr h \<Longrightarrow> payload_version h = 1 \<and> payload_kind_wf (header_kind h)"
  by (auto simp: header_decode_def Let_def split: if_splits)

lemma header_decode_encode:
  assumes "payload_kind_wf (header_kind h)" and "header_encode h = Inr b"
    and "b \<noteq> 0xFF"
  shows "header_decode b = Inr h"
proof -
  obtain v k r where h: "h = \<lparr>payload_version = v, header_kind = k, header_route = r\<rparr>"
    by (cases h)
  have v: "v = 1" and b: "b = push_bit 2 (payload_kind_to_nibble k) OR route_type_to_bits r"
    using assms(2) by (auto simp: h header_encode_def split: if_splits)
  have k: "payload_kind_wf k" using assms(1) by (simp add: h)
  show ?thesis using k unfolding b h v
    by (cases k; cases r)
      (auto simp: header_decode_def payload_kind_from_nibble_def route_type_from_bits_def)
qed

text \<open>The sentinel byte would need a payload version other than 1, so encoding never yields it.\<close>

lemma header_encode_not_sentinel: "header_encode h = Inr b \<Longrightarrow> drop_bit 6 b = 0"
proof -
  assume "header_encode h = Inr b"
  then have b: "b = push_bit 2 (payload_kind_to_nibble (header_kind h) AND 0x0F)
      OR route_type_to_bits (header_route h)"
    by (auto simp: header_encode_def split: if_splits)
  show "drop_bit 6 b = 0"
    using nibble_cases [of "payload_kind_to_nibble (header_kind h)"]
    unfolding b by (cases "header_route h") auto
qed

lemma no_panic_header_decode [no_panic_intros, simp]: "no_panic (header_decode b)"
  by (simp add: header_decode_def Let_def)

lemma no_panic_header_encode [no_panic_intros, simp]: "no_panic (header_encode h)"
  by (simp add: header_encode_def)

section \<open>Advertised node types\<close>

datatype advert_node_type =
    NodeNone | NodeChat | NodeRepeater | NodeRoom | NodeSensor | NodeReserved u8

definition advert_node_type_from_nibble :: "u8 \<Rightarrow> advert_node_type" where
  "advert_node_type_from_nibble nibble =
     (let n = nibble AND 0x0F in
      if n = 0 then NodeNone
      else if n = 1 then NodeChat
      else if n = 2 then NodeRepeater
      else if n = 3 then NodeRoom
      else if n = 4 then NodeSensor
      else NodeReserved n)"

fun advert_node_type_to_nibble :: "advert_node_type \<Rightarrow> u8" where
  "advert_node_type_to_nibble NodeNone = 0"
| "advert_node_type_to_nibble NodeChat = 1"
| "advert_node_type_to_nibble NodeRepeater = 2"
| "advert_node_type_to_nibble NodeRoom = 3"
| "advert_node_type_to_nibble NodeSensor = 4"
| "advert_node_type_to_nibble (NodeReserved n) = n AND 0x0F"

fun advert_node_type_wf :: "advert_node_type \<Rightarrow> bool" where
  "advert_node_type_wf (NodeReserved n) = (n AND 0x0F = n \<and> n \<notin> {0, 1, 2, 3, 4})"
| "advert_node_type_wf _ = True"

interpretation node_code: bit_code advert_node_type_to_nibble advert_node_type_from_nibble
    advert_node_type_wf "0x0F"
proof unfold_locales
  fix x assume "advert_node_type_wf x"
  then show "advert_node_type_from_nibble (advert_node_type_to_nibble x) = x"
    by (cases x) (auto simp: advert_node_type_from_nibble_def Let_def)
next
  fix x show "advert_node_type_to_nibble x AND 0x0F = advert_node_type_to_nibble x"
    by (cases x) simp_all
qed (auto simp: advert_node_type_from_nibble_def Let_def)

section \<open>Text types\<close>

datatype text_type = Plain | CliData | SignedPlain | TextReserved u8

definition text_type_from_bits :: "u8 \<Rightarrow> text_type" where
  "text_type_from_bits bits =
     (let b = bits AND 0x3F in
      if b = 0 then Plain
      else if b = 1 then CliData
      else if b = 2 then SignedPlain
      else TextReserved b)"

fun text_type_to_bits :: "text_type \<Rightarrow> u8" where
  "text_type_to_bits Plain = 0"
| "text_type_to_bits CliData = 1"
| "text_type_to_bits SignedPlain = 2"
| "text_type_to_bits (TextReserved n) = n AND 0x3F"

fun text_type_wf :: "text_type \<Rightarrow> bool" where
  "text_type_wf (TextReserved n) = (n AND 0x3F = n \<and> n \<notin> {0, 1, 2})"
| "text_type_wf _ = True"

interpretation text_code: bit_code text_type_to_bits text_type_from_bits text_type_wf "0x3F"
proof unfold_locales
  fix x assume "text_type_wf x"
  then show "text_type_from_bits (text_type_to_bits x) = x"
    by (cases x) (auto simp: text_type_from_bits_def Let_def)
next
  fix x show "text_type_to_bits x AND 0x3F = text_type_to_bits x"
    by (cases x) (simp_all add: and.assoc)
qed (auto simp: text_type_from_bits_def Let_def and.assoc)

section \<open>Hash sizes\<close>

datatype hash_size = HashOne | HashTwo | HashThree

definition hash_size_new :: "nat \<Rightarrow> hash_size result" where
  "hash_size_new size' =
     (if size' = 1 then Ok HashOne
      else if size' = 2 then Ok HashTwo
      else if size' = 3 then Ok HashThree
      else Err (InvalidHashSize size'))"

definition hash_size_from_code :: "u8 \<Rightarrow> hash_size result" where
  "hash_size_from_code code =
     (if code = 0 then Ok HashOne
      else if code = 1 then Ok HashTwo
      else if code = 2 then Ok HashThree
      else Err (InvalidHashSizeCode code))"

fun hash_size_size :: "hash_size \<Rightarrow> nat" where
  "hash_size_size HashOne = 1"
| "hash_size_size HashTwo = 2"
| "hash_size_size HashThree = 3"

fun hash_size_code :: "hash_size \<Rightarrow> u8" where
  "hash_size_code HashOne = 0"
| "hash_size_code HashTwo = 1"
| "hash_size_code HashThree = 2"

lemma hash_size_pos [simp]: "0 < hash_size_size hs" "hash_size_size hs \<noteq> 0"
  by (cases hs; simp)+

lemma hash_size_le_3: "hash_size_size hs \<le> 3"
  by (cases hs) simp_all

lemma hash_size_new_size [simp]: "hash_size_new (hash_size_size hs) = Inr hs"
  by (cases hs) (simp_all add: hash_size_new_def)

lemma hash_size_new_Ok_iff: "hash_size_new n = Inr hs \<longleftrightarrow> n = hash_size_size hs"
  by (cases hs) (auto simp: hash_size_new_def)

lemma hash_size_from_code_Ok_iff: "hash_size_from_code c = Inr hs \<longleftrightarrow> c = hash_size_code hs"
  by (cases hs) (auto simp: hash_size_from_code_def)

lemma no_panic_hash_size_from_code [no_panic_intros, simp]: "no_panic (hash_size_from_code c)"
  by (simp add: hash_size_from_code_def)

datatype trace_hash_size = TraceOne | TraceTwo | TraceFour

definition trace_hash_size_from_bits :: "u8 \<Rightarrow> trace_hash_size result" where
  "trace_hash_size_from_bits bits =
     (let b = bits AND 0x03 in
      if b = 0 then Ok TraceOne
      else if b = 1 then Ok TraceTwo
      else if b = 2 then Ok TraceFour
      else Err (InvalidTraceFlags bits))"

fun trace_hash_size_size :: "trace_hash_size \<Rightarrow> nat" where
  "trace_hash_size_size TraceOne = 1"
| "trace_hash_size_size TraceTwo = 2"
| "trace_hash_size_size TraceFour = 4"

fun trace_hash_size_bits :: "trace_hash_size \<Rightarrow> u8" where
  "trace_hash_size_bits TraceOne = 0"
| "trace_hash_size_bits TraceTwo = 1"
| "trace_hash_size_bits TraceFour = 2"

lemma trace_hash_size_pos [simp]: "0 < trace_hash_size_size hs" "trace_hash_size_size hs \<noteq> 0"
  by (cases hs; simp)+

lemma trace_hash_size_from_bits_Ok_iff:
  "trace_hash_size_from_bits b = Inr hs \<longleftrightarrow> b AND 0x03 = trace_hash_size_bits hs"
  by (cases hs) (auto simp: trace_hash_size_from_bits_def Let_def)

lemma no_panic_trace_hash_size [no_panic_intros, simp]: "no_panic (trace_hash_size_from_bits b)"
  by (simp add: trace_hash_size_from_bits_def Let_def)

end
