(* ===== verification/Paths.thy ===== *)
theory Paths
  imports Codes
begin

text \<open>
  Routing paths (\<open>path.rs\<close>): a sequence of node-hash prefixes of one width, at most 63 hops and 64
  bytes; and trace paths (\<open>trace_path.rs\<close>): the signal samples collected by a trace packet. Methods
  that take \<open>&mut self\<close> return the new value; on an error the caller keeps the old one.
\<close>

section \<open>Paths\<close>

record path =
  path_hash_size :: hash_size
  path_bytes :: bytes

definition path_empty :: path where
  "path_empty = \<lparr>path_hash_size = HashOne, path_bytes = []\<rparr>"

definition hop_count :: "path \<Rightarrow> nat" where
  "hop_count p = length (path_bytes p) div hash_size_size (path_hash_size p)"

definition path_hashes :: "path \<Rightarrow> bytes list" where
  "path_hashes p = chunks_exact (hash_size_size (path_hash_size p)) (path_bytes p)"

definition path_validate :: "path \<Rightarrow> unit result" where
  "path_validate p =
     (if MAX_PATH_SIZE < length (path_bytes p) then Err (PathTooLong (length (path_bytes p)))
      else if \<not> hash_size_size (path_hash_size p) dvd length (path_bytes p) then Err InvalidPathLength
      else if 63 < hop_count p then Err InvalidPathLength
      else Ok ())"

definition path_new :: "hash_size \<Rightarrow> bytes \<Rightarrow> path result" where
  "path_new hs bs =
     (let p = \<lparr>path_hash_size = hs, path_bytes = bs\<rparr>
      in and_then (path_validate p) (\<lambda>_. Ok p))"

fun append_hashes :: "hash_size \<Rightarrow> bytes list \<Rightarrow> bytes \<Rightarrow> bytes result" where
  "append_hashes hs [] acc = Ok acc"
| "append_hashes hs (h # rest) acc =
     (if length h \<noteq> hash_size_size hs then Err (InvalidLength ''path hash'')
      else append_hashes hs rest (acc @ h))"

definition path_from_hashes :: "hash_size \<Rightarrow> bytes list \<Rightarrow> path result" where
  "path_from_hashes hs hashes =
     (if 63 < length hashes then Err InvalidPathLength
      else let len = hash_size_size hs * length hashes in
        if usize_max < len then Err InvalidPathLength
        else if MAX_PATH_SIZE < len then Err (PathTooLong len)
        else and_then (append_hashes hs hashes []) (path_new hs))"

definition path_reversed :: "path \<Rightarrow> path" where
  "path_reversed p =
     \<lparr>path_hash_size = path_hash_size p,
      path_bytes = concat (rev (chunks_exact (hash_size_size (path_hash_size p)) (path_bytes p)))\<rparr>"

definition hash_matches :: "bytes \<Rightarrow> bytes \<Rightarrow> bool" where
  "hash_matches path_hash node_hash \<longleftrightarrow>
     length path_hash \<le> length node_hash \<and> take (length path_hash) node_hash = path_hash"

definition first_hash :: "path \<Rightarrow> bytes option" where
  "first_hash p = (case path_hashes p of [] \<Rightarrow> None | h # _ \<Rightarrow> Some h)"

definition first_hash_matches :: "path \<Rightarrow> bytes \<Rightarrow> bool" where
  "first_hash_matches p node_hash =
     (case first_hash p of None \<Rightarrow> False | Some first \<Rightarrow> hash_matches first node_hash)"

definition contains_hash :: "path \<Rightarrow> bytes \<Rightarrow> bool" where
  "contains_hash p node_hash = list_ex (\<lambda>hash. hash_matches hash node_hash) (path_hashes p)"

definition append_hash :: "path \<Rightarrow> bytes \<Rightarrow> path result" where
  "append_hash p node_hash =
     (let size' = hash_size_size (path_hash_size p) in
      if length node_hash < size' then Err (InvalidLength ''node hash'')
      else if MAX_PATH_SIZE < length (path_bytes p) + size'
        then Err (PathTooLong (length (path_bytes p) + size'))
      else if 63 \<le> hop_count p then Err InvalidPathLength
      else Ok (p\<lparr>path_bytes := path_bytes p @ take size' node_hash\<rparr>))"

definition remove_first_hash :: "path \<Rightarrow> bytes option \<times> path" where
  "remove_first_hash p =
     (let size' = hash_size_size (path_hash_size p) in
      if length (path_bytes p) < size' then (None, p)
      else (Some (take size' (path_bytes p)), p\<lparr>path_bytes := drop size' (path_bytes p)\<rparr>))"

definition path_encoded_length_byte :: "path \<Rightarrow> u8 result" where
  "path_encoded_length_byte p =
     and_then (path_validate p) (\<lambda>_.
       Ok (push_bit 6 (hash_size_code (path_hash_size p)) OR word_of_nat (hop_count p)))"

definition path_decode_wire :: "u8 \<Rightarrow> bytes \<Rightarrow> (path \<times> nat) result" where
  "path_decode_wire path_length input =
     and_then (hash_size_from_code (drop_bit 6 path_length)) (\<lambda>hs.
       let hops = unat (path_length AND 0x3F); len = hops * hash_size_size hs in
       if usize_max < len then Err InvalidPathLength
       else if MAX_PATH_SIZE < len then Err (PathTooLong len)
       else if length input < len then Err (Truncated ''path'')
       else and_then (slice_to input len) (\<lambda>bs.
         and_then (path_new hs bs) (\<lambda>p. Ok (p, len))))"

definition path_encode_wire :: "path \<Rightarrow> bytes \<Rightarrow> bytes result" where
  "path_encode_wire p out =
     and_then (path_encoded_length_byte p) (\<lambda>b. Ok (out @ [b] @ path_bytes p))"

section \<open>Trace paths\<close>

record trace_path =
  consumed_hops :: u8
  snr_samples :: "i8 list"

definition trace_path_new :: "i8 list \<Rightarrow> trace_path result" where
  "trace_path_new samples =
     (if 63 < length samples then Err (InvalidTracePathLength (word_of_nat (length samples)))
      else Ok \<lparr>consumed_hops = word_of_nat (length samples), snr_samples = samples\<rparr>)"

definition trace_path_decode :: "u8 \<Rightarrow> bytes \<Rightarrow> (trace_path \<times> nat) result" where
  "trace_path_decode path_length input =
     (if path_length AND 0xC0 \<noteq> 0 then Err (InvalidTracePathLength path_length)
      else let consumed = path_length AND 0x3F; len = unat consumed in
        if length input < len then Err (Truncated ''trace snr path'')
        else and_then (slice_to input len) (\<lambda>bs.
          Ok (\<lparr>consumed_hops = consumed, snr_samples = bs\<rparr>, len)))"

definition trace_path_encoded_length_byte :: "trace_path \<Rightarrow> u8 result" where
  "trace_path_encoded_length_byte t =
     (if unat (consumed_hops t) \<noteq> length (snr_samples t) \<or> 63 < consumed_hops t
      then Err (InvalidTracePathLength (consumed_hops t))
      else Ok (consumed_hops t))"

definition trace_path_encode_bytes :: "trace_path \<Rightarrow> bytes \<Rightarrow> bytes" where
  "trace_path_encode_bytes t out = out @ snr_samples t"

definition append_snr :: "trace_path \<Rightarrow> i8 \<Rightarrow> trace_path result" where
  "append_snr t snr_quarters =
     (if 63 \<le> consumed_hops t then Err (InvalidTracePathLength (consumed_hops t))
      else Ok (t\<lparr>snr_samples := snr_samples t @ [snr_quarters],
                 consumed_hops := consumed_hops t + 1\<rparr>))"

section \<open>Well-formed paths\<close>

definition path_wf :: "path \<Rightarrow> bool" where
  "path_wf p \<longleftrightarrow> length (path_bytes p) \<le> 64
     \<and> hash_size_size (path_hash_size p) dvd length (path_bytes p) \<and> hop_count p \<le> 63"

lemma path_validate_Ok_iff [simp]: "path_validate p = Inr u \<longleftrightarrow> path_wf p"
  by (auto simp: path_validate_def path_wf_def MAX_PATH_SIZE_def)

lemma no_panic_path_validate [no_panic_intros, simp]: "no_panic (path_validate p)"
  by (simp add: path_validate_def)

lemma path_new_Ok_iff [simp]:
  "path_new hs bs = Inr p \<longleftrightarrow> p = \<lparr>path_hash_size = hs, path_bytes = bs\<rparr> \<and> path_wf p"
  by (auto simp: path_new_def and_then_Ok_iff Let_def)

lemma path_new_self [simp]: "path_wf p \<Longrightarrow> path_new (path_hash_size p) (path_bytes p) = Inr p"
  by simp

lemma path_wf_empty [simp]: "path_wf path_empty"
  by (simp add: path_wf_def path_empty_def hop_count_def)

lemma hop_count_empty [simp]: "hop_count path_empty = 0"
  by (simp add: path_empty_def hop_count_def)

lemma length_path_hashes: "length (path_hashes p) = hop_count p"
  by (simp add: path_hashes_def hop_count_def length_chunks_exact)

lemma path_hash_length: "h \<in> set (path_hashes p) \<Longrightarrow> length h = hash_size_size (path_hash_size p)"
  by (simp add: path_hashes_def chunks_exact_elem)

lemma concat_path_hashes: "path_wf p \<Longrightarrow> concat (path_hashes p) = path_bytes p"
  by (simp add: path_hashes_def path_wf_def concat_chunks_exact)

lemma path_bytes_length:
  "path_wf p \<Longrightarrow> length (path_bytes p) = hop_count p * hash_size_size (path_hash_size p)"
  by (simp add: path_wf_def hop_count_def)

text \<open>A path is its width and its list of hashes.\<close>

lemma path_hashes_of_concat:
  "\<forall>h \<in> set hs. length h = hash_size_size w \<Longrightarrow>
     path_hashes \<lparr>path_hash_size = w, path_bytes = concat hs\<rparr> = hs"
  by (simp add: path_hashes_def chunks_exact_concat)

lemma append_hashes_Ok_iff:
  "append_hashes hs hashes acc = Inr out \<longleftrightarrow>
     (\<forall>h \<in> set hashes. length h = hash_size_size hs) \<and> out = acc @ concat hashes"
  by (induction hashes arbitrary: acc) auto

lemma path_from_hashes_sound:
  assumes "path_from_hashes hs hashes = Inr p"
  shows "path_wf p \<and> path_hashes p = hashes \<and> path_hash_size p = hs"
  using assms
  by (auto simp: path_from_hashes_def Let_def and_then_Ok_iff append_hashes_Ok_iff
      path_hashes_of_concat split: if_splits)

lemma path_from_hashes_complete:
  assumes "\<forall>h \<in> set hashes. length h = hash_size_size hs" and "length hashes \<le> 63"
    and "hash_size_size hs * length hashes \<le> 64"
  shows "\<exists>p. path_from_hashes hs hashes = Inr p \<and> path_hashes p = hashes"
proof -
  let ?p = "\<lparr>path_hash_size = hs, path_bytes = concat hashes\<rparr>"
  have len: "length (concat hashes) = hash_size_size hs * length hashes"
    using assms(1) by (rule length_concat_const)
  then have "path_wf ?p" using assms by (simp add: path_wf_def hop_count_def)
  then have "path_from_hashes hs hashes = Inr ?p"
    using assms
    by (auto simp: path_from_hashes_def Let_def MAX_PATH_SIZE_def usize_max_def and_then_Ok_iff
        append_hashes_Ok_iff)
  with assms(1) show ?thesis by (auto simp: path_hashes_of_concat)
qed

section \<open>Wire round trips\<close>

lemma six_bits:
  fixes n :: nat and c :: u8
  assumes "n < 64" and "c \<in> {0, 1, 2}"
  shows "drop_bit 6 (push_bit 6 c OR word_of_nat n) = c"
    and "(push_bit 6 c OR word_of_nat n) AND 0x3F = word_of_nat n"
proof -
  have m: "(0x3F :: u8) = mask 6" by (simp add: mask_eq_exp_minus_1)
  have n: "\<not> bit (word_of_nat n :: u8) k" if "6 \<le> k" for k
  proof -
    have "take_bit 6 n = n" using assms(1) by (simp add: take_bit_nat_eq_self)
    then have "\<not> bit n k" using that by (metis bit_take_bit_iff not_le)
    then show ?thesis by (simp add: bit_simps)
  qed
  have c: "\<not> bit c k" if "2 \<le> k" for k
  proof -
    from assms(2) have "c = take_bit 2 c" by auto
    with that show ?thesis by (metis bit_take_bit_iff not_le)
  qed
  show "drop_bit 6 (push_bit 6 c OR word_of_nat n) = c"
  proof (rule bit_word_eqI)
    fix k :: nat
    assume "k < LENGTH(8)"
    show "bit (drop_bit 6 (push_bit 6 c OR (word_of_nat n :: u8))) k = bit c k"
      using n [of "6 + k"] c [of k] by (cases "k < 2") (auto simp: bit_simps)
  qed
  show "(push_bit 6 c OR word_of_nat n) AND 0x3F = word_of_nat n"
    unfolding m
  proof (rule bit_word_eqI)
    fix k :: nat
    assume "k < LENGTH(8)"
    then show "bit ((push_bit 6 c OR word_of_nat n) AND mask 6) k = bit (word_of_nat n :: u8) k"
      using n [of k] by (cases "k < 6") (auto simp: bit_simps)
  qed
qed

lemma unat_small_nat: "n < 64 \<Longrightarrow> unat (word_of_nat n :: u8) = n"
  by (rule unat_word_of_nat_id) simp

lemma six_bits_join:
  fixes b :: u8
  shows "push_bit 6 (drop_bit 6 b) OR (b AND 0x3F) = b"
proof (rule bit_word_eqI)
  fix n :: nat
  assume "n < LENGTH(8)"
  have m: "(0x3F :: u8) = mask 6" by (simp add: mask_eq_exp_minus_1)
  have "6 \<le> n \<Longrightarrow> 6 + (n - 6) = n" by simp
  then show "bit (push_bit 6 (drop_bit 6 b) OR (b AND 0x3F)) n = bit b n"
    unfolding m using \<open>n < LENGTH(8)\<close> by (cases "n < 6") (auto simp: bit_simps)
qed

lemma path_decode_encode:
  assumes "path_encoded_length_byte p = Inr b"
  shows "path_decode_wire b (path_bytes p @ rest) = Inr (p, length (path_bytes p))"
proof -
  have wf: "path_wf p" and b: "b = push_bit 6 (hash_size_code (path_hash_size p)) OR word_of_nat (hop_count p)"
    using assms by (auto simp: path_encoded_length_byte_def and_then_Ok_iff)
  have n: "hop_count p < 64" using wf by (simp add: path_wf_def)
  have c: "hash_size_code (path_hash_size p) \<in> {0, 1, 2}" by (cases "path_hash_size p") simp_all
  have hs: "hash_size_from_code (drop_bit 6 b) = Inr (path_hash_size p)"
    unfolding b six_bits(1) [OF n c] by (simp add: hash_size_from_code_Ok_iff)
  have hops: "unat (b AND 0x3F) = hop_count p"
    unfolding b six_bits(2) [OF n c] using n by (rule unat_small_nat)
  have len: "hop_count p * hash_size_size (path_hash_size p) = length (path_bytes p)"
    using path_bytes_length [OF wf] by simp
  have le: "length (path_bytes p) \<le> 64" using wf by (simp add: path_wf_def)
  show ?thesis
    using le wf by (simp add: path_decode_wire_def hs hops len Let_def MAX_PATH_SIZE_def usize_max_def)
qed

lemma path_decode_wire_OkD:
  assumes "path_decode_wire b input = Inr (p, used)"
  shows "path_wf p" and "used \<le> length input" and "path_bytes p = take used input"
    and "path_encoded_length_byte p = Inr b"
proof -
  from assms obtain hs where hs: "hash_size_from_code (drop_bit 6 b) = Inr hs"
    and used: "used = unat (b AND 0x3F) * hash_size_size hs" "used \<le> length input"
    and p: "p = \<lparr>path_hash_size = hs, path_bytes = take used input\<rparr>" "path_wf p"
    by (auto simp: path_decode_wire_def and_then_Ok_iff Let_def slice_iffs split: if_splits)
  show "path_wf p" by fact
  show "used \<le> length input" by fact
  show "path_bytes p = take used input" by (simp add: p)
  have "hop_count p = unat (b AND 0x3F)"
    using used by (simp add: p(1) hop_count_def)
  then show "path_encoded_length_byte p = Inr b"
    using hs p(2) six_bits_join [of b]
    by (simp add: path_encoded_length_byte_def hash_size_from_code_Ok_iff p(1) and_then_Ok_iff)
qed

lemma no_panic_path_decode [no_panic_intros, simp]: "no_panic (path_decode_wire b input)"
  by (auto simp: path_decode_wire_def path_new_def Let_def intro!: no_panic_intros)

lemma no_panic_path_length [no_panic_intros, simp]: "no_panic (path_encoded_length_byte p)"
  by (auto simp: path_encoded_length_byte_def intro!: no_panic_intros)

lemma path_encoded_length_byte_Ok_iff:
  "(\<exists>b. path_encoded_length_byte p = Inr b) \<longleftrightarrow> path_wf p"
  by (auto simp: path_encoded_length_byte_def and_then_Ok_iff)

definition trace_path_wf :: "trace_path \<Rightarrow> bool" where
  "trace_path_wf t \<longleftrightarrow> unat (consumed_hops t) = length (snr_samples t) \<and> length (snr_samples t) \<le> 63"

lemma trace_path_encoded_Ok_iff:
  "trace_path_encoded_length_byte t = Inr b \<longleftrightarrow> trace_path_wf t \<and> b = consumed_hops t"
  by (auto simp: trace_path_encoded_length_byte_def trace_path_wf_def word_less_nat_alt not_less)

lemma low_six_bits: "b AND 0xC0 = 0 \<Longrightarrow> b AND 0x3F = b" for b :: u8
proof -
  assume z: "b AND 0xC0 = 0"
  have "(0xC0 OR 0x3F :: u8) = - 1" by simp
  then have "b = b AND (0xC0 OR 0x3F)" by (simp only: and.right_neutral)
  also have "\<dots> = (b AND 0xC0) OR (b AND 0x3F)" by (rule bit.conj_disj_distrib)
  finally show ?thesis using z by simp
qed

lemma unat_low_six_bits: "unat (b AND 0x3F) \<le> 63" for b :: u8
proof -
  have "b AND 0x3F = take_bit 6 b" by (simp add: take_bit_eq_mask mask_eq_exp_minus_1)
  then have "unat (b AND 0x3F) = take_bit 6 (unat b)" by (simp add: unsigned_take_bit_eq)
  also have "\<dots> < 2 ^ 6" by (rule take_bit_nat_less_exp)
  finally show ?thesis by simp
qed

lemma high_bits_zero: "unat b \<le> 63 \<Longrightarrow> b AND 0xC0 = 0" for b :: u8
proof -
  assume "unat b \<le> 63"
  then have "take_bit 6 (unat b) = unat b" by (simp add: take_bit_nat_eq_self)
  then have "take_bit 6 b = b" by (simp add: word_unat_eq_iff unsigned_take_bit_eq)
  then have "b = b AND 0x3F" by (simp add: take_bit_eq_mask mask_eq_exp_minus_1)
  then have "b AND 0xC0 = b AND (0x3F AND 0xC0)" by (metis and.assoc)
  then show ?thesis by simp
qed

lemma trace_path_decode_encode:
  assumes "trace_path_wf t"
  shows "trace_path_decode (consumed_hops t) (snr_samples t @ rest) = Inr (t, length (snr_samples t))"
proof -
  have z: "consumed_hops t AND 0xC0 = 0"
    using assms by (intro high_bits_zero) (simp add: trace_path_wf_def)
  show ?thesis
    using assms low_six_bits [OF z] z by (simp add: trace_path_decode_def Let_def trace_path_wf_def)
qed

lemma trace_path_decode_OkD:
  assumes "trace_path_decode b input = Inr (t, used)"
  shows "trace_path_wf t" and "used \<le> length input" and "snr_samples t = take used input"
    and "consumed_hops t = b"
proof -
  from assms have z: "b AND 0xC0 = 0" and len: "unat (b AND 0x3F) \<le> length input"
    and t: "t = \<lparr>consumed_hops = b AND 0x3F, snr_samples = take used input\<rparr>"
    and used: "used = unat (b AND 0x3F)"
    by (auto simp: trace_path_decode_def Let_def and_then_Ok_iff slice_iffs not_less split: if_splits)
  show "consumed_hops t = b" by (simp add: t low_six_bits [OF z])
  show "used \<le> length input" using len used by simp
  show "snr_samples t = take used input" by (simp add: t)
  show "trace_path_wf t"
    using len unat_low_six_bits [of b] by (simp add: trace_path_wf_def t used min_def)
qed

lemma no_panic_trace_path_decode [no_panic_intros, simp]: "no_panic (trace_path_decode b input)"
  by (auto simp: trace_path_decode_def Let_def intro!: no_panic_intros)

lemma no_panic_trace_path_length [no_panic_intros, simp]:
  "no_panic (trace_path_encoded_length_byte t)"
  by (simp add: trace_path_encoded_length_byte_def)

lemma trace_path_new_wf: "trace_path_new samples = Inr t \<Longrightarrow> trace_path_wf t"
  by (auto simp: trace_path_new_def trace_path_wf_def unat_small_nat split: if_splits)

lemma append_snr_wf:
  assumes "trace_path_wf t" and "append_snr t snr = Inr t'"
  shows "trace_path_wf t' \<and> snr_samples t' = snr_samples t @ [snr]"
proof -
  have lt: "unat (consumed_hops t) < 63" and t': "t' = t\<lparr>snr_samples := snr_samples t @ [snr],
      consumed_hops := consumed_hops t + 1\<rparr>"
    using assms(2) by (auto simp: append_snr_def word_le_nat_alt not_le split: if_splits)
  then have "unat (consumed_hops t + 1) = unat (consumed_hops t) + 1"
    by (simp add: unat_word_ariths)
  with assms(1) lt show ?thesis by (simp add: t' trace_path_wf_def)
qed

section \<open>Operations on paths\<close>

lemma hash_matches_refl [simp]: "hash_matches h h"
  by (simp add: hash_matches_def)

lemma hash_matches_take: "n \<le> length h \<Longrightarrow> hash_matches (take n h) h"
  by (simp add: hash_matches_def min_def)

lemma chunks_exact_append:
  "0 < n \<Longrightarrow> n dvd length xs \<Longrightarrow> chunks_exact n (xs @ ys) = chunks_exact n xs @ chunks_exact n ys"
proof (induction n xs rule: chunks_exact.induct)
  case (1 n xs)
  show ?case
  proof (cases "length xs < n")
    case True
    with 1 show ?thesis by (cases xs) (auto dest: dvd_imp_le)
  next
    case False
    with 1 have "chunks_exact n (drop n xs @ ys) = chunks_exact n (drop n xs) @ chunks_exact n ys"
      by (auto simp: dvd_minus_self)
    with False 1 show ?thesis
      by (simp add: chunks_exact.simps [of n "xs @ ys"] chunks_exact.simps [of n xs])
  qed
qed

lemma append_hash_OkD:
  assumes "path_wf p" and "append_hash p h = Inr p'"
  shows "path_wf p'" and "path_hash_size p' = path_hash_size p"
    and "path_hashes p' = path_hashes p @ [take (hash_size_size (path_hash_size p)) h]"
    and "hop_count p' = Suc (hop_count p)" and "contains_hash p' h"
proof -
  let ?n = "hash_size_size (path_hash_size p)"
  have h: "?n \<le> length h" and le: "length (path_bytes p) + ?n \<le> 64" and hops: "hop_count p < 63"
    and p': "p' = p\<lparr>path_bytes := path_bytes p @ take ?n h\<rparr>"
    using assms(2) by (auto simp: append_hash_def Let_def MAX_PATH_SIZE_def not_less split: if_splits)
  have dvd: "?n dvd length (path_bytes p)" using assms(1) by (simp add: path_wf_def)
  have one: "chunks_exact ?n (take ?n h) = [take ?n h]"
    using h chunks_exact_Cons [of ?n "take ?n h" "[]"] by simp
  show hs: "path_hashes p' = path_hashes p @ [take ?n h]"
    using dvd one by (simp add: p' path_hashes_def chunks_exact_append)
  then show cnt: "hop_count p' = Suc (hop_count p)"
    by (metis length_append_singleton length_path_hashes)
  show "path_hash_size p' = path_hash_size p" by (simp add: p')
  show "path_wf p'"
    using h le hops dvd cnt by (simp add: path_wf_def p')
  show "contains_hash p' h"
    using h by (simp add: contains_hash_def hs hash_matches_take)
qed

lemma append_hash_Ok:
  "path_wf p \<Longrightarrow> hash_size_size (path_hash_size p) \<le> length h \<Longrightarrow> hop_count p < 63 \<Longrightarrow>
   length (path_bytes p) + hash_size_size (path_hash_size p) \<le> 64 \<Longrightarrow> \<exists>p'. append_hash p h = Inr p'"
  by (simp add: append_hash_def Let_def MAX_PATH_SIZE_def)

lemma no_panic_append_hash [no_panic_intros, simp]: "no_panic (append_hash p h)"
  by (simp add: append_hash_def Let_def)

lemma remove_first_hash_Some:
  assumes "path_wf p" and "0 < hop_count p"
  shows "\<exists>h p'. remove_first_hash p = (Some h, p') \<and> path_wf p'
    \<and> path_hashes p = h # path_hashes p' \<and> path_hash_size p' = path_hash_size p"
proof -
  let ?n = "hash_size_size (path_hash_size p)"
  have le: "?n \<le> length (path_bytes p)"
    using assms(2) by (simp add: hop_count_def div_greater_zero_iff)
  let ?p' = "p\<lparr>path_bytes := drop ?n (path_bytes p)\<rparr>"
  have hs: "path_hashes p = take ?n (path_bytes p) # path_hashes ?p'"
    using le by (simp add: path_hashes_def chunks_exact.simps [of ?n "path_bytes p"])
  moreover have "path_wf ?p'"
  proof -
    have "hop_count p = Suc (hop_count ?p')"
      using hs by (metis length_Cons length_path_hashes)
    with assms(1) le show ?thesis
      by (simp add: path_wf_def dvd_minus_self le_diff_conv trans_le_add1)
  qed
  ultimately show ?thesis
    using le by (simp add: remove_first_hash_def Let_def not_less [symmetric])
qed

lemma first_hash_matches_iff:
  "first_hash_matches p h \<longleftrightarrow> (\<exists>x xs. path_hashes p = x # xs \<and> hash_matches x h)"
  by (simp add: first_hash_matches_def first_hash_def split: list.splits)

lemma path_hashes_reversed: "path_hashes (path_reversed p) = rev (path_hashes p)"
  by (simp add: path_reversed_def path_hashes_def chunks_exact_concat chunks_exact_elem)

lemma path_reversed_wf: "path_wf p \<Longrightarrow> path_wf (path_reversed p)"
proof -
  assume wf: "path_wf p"
  have len: "length (path_bytes (path_reversed p)) = length (path_bytes p)"
  proof -
    have "length (path_bytes (path_reversed p)) = length (concat (path_hashes p))"
      by (simp add: path_reversed_def path_hashes_def length_concat rev_map [symmetric] sum_list_rev)
    with wf show ?thesis by (simp add: concat_path_hashes)
  qed
  have "path_hash_size (path_reversed p) = path_hash_size p" by (simp add: path_reversed_def)
  with wf len show ?thesis by (simp add: path_wf_def hop_count_def)
qed

lemma path_eq_iff:
  "path_wf p \<Longrightarrow> path_wf q \<Longrightarrow>
     p = q \<longleftrightarrow> path_hash_size p = path_hash_size q \<and> path_hashes p = path_hashes q"
  by (metis concat_path_hashes old.unit.exhaust path.surjective)

lemma path_reversed_reversed: "path_wf p \<Longrightarrow> path_reversed (path_reversed p) = p"
  by (subst path_eq_iff)
    (simp_all add: path_reversed_wf path_hashes_reversed, simp add: path_reversed_def)

section \<open>Properties\<close>

text \<open>C12: A path recorded by a flood, reversed, leads back: after a repeater appends itself, it is the
  first hop of the reversed path, and consuming that hop leaves the reverse of the path it extended.\<close>

theorem recorded_path_leads_back:
  assumes wf: "path_wf p" and app: "append_hash p h = Ok p'"
  shows "first_hash_matches (path_reversed p') h
    \<and> remove_first_hash (path_reversed p')
        = (Some (take (hash_size_size (path_hash_size p)) h), path_reversed p)"
proof -
  note a = append_hash_OkD [OF wf app]
  let ?h = "take (hash_size_size (path_hash_size p)) h"
  have hs: "path_hashes (path_reversed p') = ?h # path_hashes (path_reversed p)"
    using a(3) by (simp add: path_hashes_reversed)
  have size: "path_hash_size (path_reversed q) = path_hash_size q" for q
    by (simp add: path_reversed_def)
  have "hop_count (path_reversed p') = length (path_hashes (path_reversed p'))"
    by (simp add: length_path_hashes)
  then have "0 < hop_count (path_reversed p')" using hs by simp
  then obtain x q where r: "remove_first_hash (path_reversed p') = (Some x, q)" "path_wf q"
    "path_hashes (path_reversed p') = x # path_hashes q" "path_hash_size q = path_hash_size (path_reversed p')"
    using remove_first_hash_Some path_reversed_wf [OF a(1)] by blast
  have "q = path_reversed p"
    using r hs a(2) size path_eq_iff [OF r(2) path_reversed_wf [OF wf]] by simp
  moreover have "hash_matches ?h h"
  proof (cases "hash_size_size (path_hash_size p) \<le> length h")
    case True
    then show ?thesis by (rule hash_matches_take)
  next
    case False
    then show ?thesis by simp
  qed
  ultimately show ?thesis using r hs by (simp add: first_hash_matches_iff)
qed

theorem recorded_path_leads_back_witness:
  "remove_first_hash (path_reversed \<lparr>path_hash_size = HashTwo, path_bytes = [1, 2, 3, 4]\<rparr>)
     = (Some [3, 4], path_reversed \<lparr>path_hash_size = HashTwo, path_bytes = [1, 2]\<rparr>)"
proof -
  let ?p = "\<lparr>path_hash_size = HashTwo, path_bytes = [1, 2]\<rparr>"
    and ?q = "\<lparr>path_hash_size = HashTwo, path_bytes = [1, 2, 3, 4 :: u8]\<rparr>"
  have "path_wf ?p" "append_hash ?p [3, 4, 5, 6] = Ok ?q" by code_simp+
  from recorded_path_leads_back [OF this] show ?thesis by (simp add: numeral_eq_Suc)
qed

end
