(* ===== verification/Hex.thy ===== *)
theory Hex
  imports Rust_Text
begin

text \<open>
  Hexadecimal text: \<open>char::to_digit(16)\<close>, \<open>u8::from_str_radix(_, 16)\<close> on two characters (which takes
  a leading plus sign), and the lower-case output of \<open>{:02x}\<close> and \<open>append_hex\<close>.
\<close>

definition to_digit16 :: "rchar \<Rightarrow> nat option" where
  "to_digit16 c =
     (if 48 \<le> c \<and> c \<le> 57 then Some (c - 48)
      else if 97 \<le> c \<and> c \<le> 102 then Some (c - 87)
      else if 65 \<le> c \<and> c \<le> 70 then Some (c - 55)
      else None)"

definition hex_digit :: "nat \<Rightarrow> rchar" where
  "hex_digit n = (if n < 10 then 48 + n else 87 + n)"

definition hex_byte :: "u8 \<Rightarrow> rstr" where
  "hex_byte b = [hex_digit (unat b div 16), hex_digit (unat b mod 16)]"

definition hex_bytes :: "bytes \<Rightarrow> rstr" where
  "hex_bytes bs = concat (map hex_byte bs)"

text \<open>A pair of digits as a byte, both digits required.\<close>

definition pair_value :: "rchar \<Rightarrow> rchar \<Rightarrow> u8 option" where
  "pair_value a b =
     do { high \<leftarrow> to_digit16 a; low \<leftarrow> to_digit16 b; Some (word_of_nat (high * 16 + low)) }"

definition radix16_pair :: "rchar \<Rightarrow> rchar \<Rightarrow> u8 option" where
  "radix16_pair a b =
     (if a = 43 then map_option word_of_nat (to_digit16 b) else pair_value a b)"

fun decode_pairs :: "(rchar \<Rightarrow> rchar \<Rightarrow> u8 option) \<Rightarrow> rstr \<Rightarrow> bytes option" where
  "decode_pairs f (a # b # rest) =
     do { byte \<leftarrow> f a b; bs \<leftarrow> decode_pairs f rest; Some (byte # bs) }"
| "decode_pairs f _ = Some []"

lemma to_digit16_hex_digit [simp]: "n < 16 \<Longrightarrow> to_digit16 (hex_digit n) = Some n"
  by (auto simp: to_digit16_def hex_digit_def)

lemma hex_digit_ascii: "n < 16 \<Longrightarrow> hex_digit n < 128 \<and> hex_digit n \<noteq> 43 \<and> 48 \<le> hex_digit n"
  by (auto simp: hex_digit_def)

lemma unat_u8_16: "unat (b :: u8) div 16 < 16" "unat b mod 16 < 16"
proof -
  have "unat b < 256" by (rule order_less_le_trans [OF unsigned_less]) simp
  then show "unat b div 16 < 16" by simp
qed simp

lemma join_nibbles [simp]: "word_of_nat (unat b div 16 * 16 + unat b mod 16) = (b :: u8)"
  by (simp only: div_mult_mod_eq) simp

lemma pair_value_hex_byte [simp]:
  "pair_value (hex_digit (unat b div 16)) (hex_digit (unat b mod 16)) = Some b"
  using unat_u8_16 [of b] join_nibbles [of b]
  by (simp add: pair_value_def del: join_nibbles of_nat_add of_nat_mult)

lemma radix16_pair_hex_byte [simp]:
  "radix16_pair (hex_digit (unat b div 16)) (hex_digit (unat b mod 16)) = Some b"
  using unat_u8_16 [of b] hex_digit_ascii [of "unat b div 16"] by (simp add: radix16_pair_def)

lemma hex_bytes_simps [simp]:
  "hex_bytes [] = []"
  "hex_bytes (b # bs) = hex_digit (unat b div 16) # hex_digit (unat b mod 16) # hex_bytes bs"
  by (simp_all add: hex_bytes_def hex_byte_def)

lemma length_hex_bytes [simp]: "length (hex_bytes bs) = 2 * length bs"
  by (induction bs) simp_all

lemma hex_bytes_chars: "c \<in> set (hex_bytes bs) \<Longrightarrow> 48 \<le> c \<and> c < 128 \<and> c \<noteq> 61"
proof (induction bs)
  case (Cons b bs)
  have "48 \<le> hex_digit n \<and> hex_digit n < 128 \<and> hex_digit n \<noteq> 61" if "n < 16" for n
    using that by (auto simp: hex_digit_def)
  with Cons unat_u8_16 [of b] show ?case by auto
qed simp

lemma str_len_ascii: "(\<forall>c \<in> set s. c < 128) \<Longrightarrow> str_len s = length s"
  by (induction s) (auto simp: len_utf8_def)

lemma str_len_hex_bytes [simp]: "str_len (hex_bytes bs) = 2 * length bs"
proof -
  have "\<forall>c \<in> set (hex_bytes bs). c < 128" using hex_bytes_chars by blast
  then show ?thesis by (simp add: str_len_ascii)
qed

lemma decode_pairs_hex_bytes:
  "decode_pairs pair_value (hex_bytes bs) = Some bs"
  "decode_pairs radix16_pair (hex_bytes bs) = Some bs"
  by (induction bs) simp_all

lemma decode_pairs_length:
  "decode_pairs f s = Some bs \<Longrightarrow> length bs = length s div 2"
  by (induction f s arbitrary: bs rule: decode_pairs.induct) (auto simp: Option.bind_eq_Some_conv)

end
