(* ===== verification/Crypto_Api.thy ===== *)
theory Crypto_Api
  imports Prelude
begin

text \<open>
  The cryptographic crates the firmware calls (\<open>sha2\<close>, \<open>hmac\<close>, \<open>aes\<close>, \<open>ed25519-dalek\<close>,
  \<open>curve25519-dalek\<close>) are not part of the repository. A record of functions stands for them; every
  definition that calls them takes the record as its argument. \<open>crypto_laws\<close> states the documented
  behaviour the code relies on: digest sizes, and that AES decryption inverts encryption on blocks.
\<close>

record crypto =
  sha256 :: "bytes \<Rightarrow> bytes"
  sha512 :: "bytes \<Rightarrow> bytes"
  hmac_sha256 :: "bytes \<Rightarrow> bytes \<Rightarrow> bytes"
  aes128_encrypt :: "bytes \<Rightarrow> bytes \<Rightarrow> bytes"
  aes128_decrypt :: "bytes \<Rightarrow> bytes \<Rightarrow> bytes"
  verifying_key_ok :: "bytes \<Rightarrow> bool"
  ed25519_verify :: "bytes \<Rightarrow> bytes \<Rightarrow> bytes \<Rightarrow> bool"
  ed25519_public :: "bytes \<Rightarrow> bytes"
  ed25519_sign :: "bytes \<Rightarrow> bytes \<Rightarrow> bytes"
  ed25519_raw_sign :: "bytes \<Rightarrow> bytes \<Rightarrow> bytes"
  x25519_shared :: "bytes \<Rightarrow> bytes \<Rightarrow> bytes option"

definition crypto_laws :: "crypto \<Rightarrow> bool" where
  "crypto_laws C \<longleftrightarrow>
     (\<forall>m. length (sha256 C m) = 32) \<and> (\<forall>m. length (sha512 C m) = 64)
     \<and> (\<forall>k m. length (hmac_sha256 C k m) = 32)
     \<and> (\<forall>k b. length b = 16 \<longrightarrow> length (aes128_encrypt C k b) = 16
                 \<and> aes128_decrypt C k (aes128_encrypt C k b) = b)
     \<and> (\<forall>k. length (ed25519_public C k) = 32)
     \<and> (\<forall>k m. length (ed25519_sign C k m) = 64 \<and> length (ed25519_raw_sign C k m) = 64)"

text \<open>A concrete instance that satisfies the laws: constant digests, the identity cipher. Witnesses
  use it to evaluate.\<close>

definition toy_crypto :: crypto where
  "toy_crypto =
     \<lparr>sha256 = (\<lambda>m. take 32 (m @ replicate 32 0)),
      sha512 = (\<lambda>m. take 64 (m @ replicate 64 0)),
      hmac_sha256 = (\<lambda>k m. take 32 (m @ k @ replicate 32 0)),
      aes128_encrypt = (\<lambda>k b. b), aes128_decrypt = (\<lambda>k b. b),
      verifying_key_ok = (\<lambda>k. True),
      ed25519_verify = (\<lambda>k m s. take 32 s = k),
      ed25519_public = (\<lambda>k. take 32 (k @ replicate 32 0)),
      ed25519_sign = (\<lambda>k m. take 64 (k @ replicate 64 0)),
      ed25519_raw_sign = (\<lambda>k m. take 64 (k @ replicate 64 0)),
      x25519_shared = (\<lambda>k p. Some (replicate 32 1))\<rparr>"

text \<open>What Ed25519 promises: a signature made with a key, as a seed or in its expanded form, verifies
  under the public key derived from it.\<close>

definition signature_laws :: "crypto \<Rightarrow> bool" where
  "signature_laws C \<longleftrightarrow>
     (\<forall>e. length e = 64 \<longrightarrow> verifying_key_ok C (ed25519_public C e))
     \<and> (\<forall>seed m. length seed = 32 \<longrightarrow>
          ed25519_verify C (ed25519_public C (sha512 C seed)) m (ed25519_sign C seed m))
     \<and> (\<forall>e m. length e = 64 \<longrightarrow> ed25519_verify C (ed25519_public C e) m (ed25519_raw_sign C e m))"

lemma toy_crypto_laws: "crypto_laws toy_crypto"
  by (auto simp: crypto_laws_def toy_crypto_def min_def)

lemma crypto_lengths:
  "crypto_laws C \<Longrightarrow> length (sha256 C m) = 32"
  "crypto_laws C \<Longrightarrow> length (sha512 C m) = 64"
  "crypto_laws C \<Longrightarrow> length (hmac_sha256 C k m) = 32"
  "crypto_laws C \<Longrightarrow> length (ed25519_public C k) = 32"
  "crypto_laws C \<Longrightarrow> length (ed25519_sign C k m) = 64"
  "crypto_laws C \<Longrightarrow> length (ed25519_raw_sign C k m) = 64"
  by (simp_all add: crypto_laws_def)

lemma toy_signature_laws: "signature_laws toy_crypto"
  by (auto simp: signature_laws_def toy_crypto_def min_def)

end
