(* ===== verification/Payloads.thy ===== *)
theory Payloads
  imports Codes Rust_Str Crypto_Api
begin

text \<open>
  The packet payloads of the protocol crate and their codecs, one group per source file, each an
  interpretation of \<open>wire_codec\<close>. Fixed-size arrays are lists whose length is part of \<open>_wf\<close>. The
  encoders append to the buffer they are given, as \<open>encode(&self, out)\<close> does.
\<close>

section \<open>Acknowledgements\<close>

record ack_payload =
  ack_hash :: bytes

definition ack_decode :: "bytes \<Rightarrow> ack_payload result" where
  "ack_decode input =
     (if length input \<noteq> 4 then Err (InvalidLength ''ack payload'')
      else and_then (read_array 4 input 0 ''ack payload'') (\<lambda>(h, _). Ok \<lparr>ack_hash = h\<rparr>))"

definition ack_encode :: "ack_payload \<Rightarrow> bytes \<Rightarrow> bytes" where
  "ack_encode p out = out @ ack_hash p"

definition ack_wf :: "ack_payload \<Rightarrow> bool" where
  "ack_wf p \<longleftrightarrow> length (ack_hash p) = 4"

interpretation ack_codec: wire_codec "\<lambda>p. Inr (ack_encode p [])" ack_decode ack_wf
proof unfold_locales
  fix x bs assume "ack_wf x" "Inr (ack_encode x []) = (Inr bs :: bytes result)"
  then show "ack_decode bs = Inr x"
    by (cases x) (simp add: ack_decode_def ack_encode_def ack_wf_def read_evals usize_max_def)
next
  fix bs x assume "ack_decode bs = Inr x"
  then show "Inr (ack_encode x []) = (Inr bs :: bytes result)" "ack_wf x"
    by (auto simp: ack_decode_def ack_encode_def ack_wf_def codec_dec split: if_splits)
qed (auto simp: ack_decode_def intro!: no_panic_intros)

section \<open>Direct encrypted payloads\<close>

record direct_encrypted_payload =
  de_destination_hash :: u8
  de_source_hash :: u8
  de_mac :: bytes
  de_ciphertext :: bytes

definition direct_decode :: "bytes \<Rightarrow> direct_encrypted_payload result" where
  "direct_decode input =
     and_then (ensure_payload_len input) (\<lambda>_.
     and_then (read_u8 input 0 ''direct destination_hash'') (\<lambda>(dst, offset).
     and_then (read_u8 input offset ''direct source_hash'') (\<lambda>(src, offset).
     and_then (read_array CIPHER_MAC_SIZE input offset ''direct mac'') (\<lambda>(mac, offset).
     and_then (slice_from input offset) (\<lambda>ciphertext.
       Ok \<lparr>de_destination_hash = dst, de_source_hash = src, de_mac = mac,
           de_ciphertext = ciphertext\<rparr>)))))"

definition direct_encode :: "direct_encrypted_payload \<Rightarrow> bytes \<Rightarrow> bytes" where
  "direct_encode p out =
     out @ [de_destination_hash p] @ [de_source_hash p] @ de_mac p @ de_ciphertext p"

definition has_complete_ciphertext_blocks :: "direct_encrypted_payload \<Rightarrow> bool" where
  "has_complete_ciphertext_blocks p \<longleftrightarrow>
     de_ciphertext p \<noteq> [] \<and> CIPHER_BLOCK_SIZE dvd length (de_ciphertext p)"

definition direct_wf :: "direct_encrypted_payload \<Rightarrow> bool" where
  "direct_wf p \<longleftrightarrow> length (de_mac p) = 2"

interpretation direct_codec: wire_codec "\<lambda>p. Inr (direct_encode p [])" direct_decode direct_wf
proof unfold_locales
  fix x bs assume "direct_wf x" "Inr (direct_encode x []) = (Inr bs :: bytes result)" "length bs \<le> 184"
  then show "direct_decode bs = Inr x"
    by (cases x) (auto simp: direct_decode_def direct_encode_def direct_wf_def CIPHER_MAC_SIZE_def codec_eval)
next
  fix bs x assume "direct_decode bs = Inr x"
  then show "Inr (direct_encode x []) = (Inr bs :: bytes result)" "direct_wf x"
    by (auto simp: direct_decode_def direct_encode_def direct_wf_def CIPHER_MAC_SIZE_def codec_dec
        codec_join split: if_splits)
qed (auto simp: direct_decode_def read_iffs intro!: no_panic_intros split: prod.splits)

section \<open>Group encrypted payloads\<close>

record group_encrypted_payload =
  ge_channel_hash :: u8
  ge_mac :: bytes
  ge_ciphertext :: bytes

definition group_decode :: "bytes \<Rightarrow> group_encrypted_payload result" where
  "group_decode input =
     and_then (ensure_payload_len input) (\<lambda>_.
     and_then (read_u8 input 0 ''group channel_hash'') (\<lambda>(ch, offset).
     and_then (read_array CIPHER_MAC_SIZE input offset ''group mac'') (\<lambda>(mac, offset).
     and_then (slice_from input offset) (\<lambda>ciphertext.
       Ok \<lparr>ge_channel_hash = ch, ge_mac = mac, ge_ciphertext = ciphertext\<rparr>))))"

definition group_encode :: "group_encrypted_payload \<Rightarrow> bytes \<Rightarrow> bytes" where
  "group_encode p out = out @ [ge_channel_hash p] @ ge_mac p @ ge_ciphertext p"

definition group_wf :: "group_encrypted_payload \<Rightarrow> bool" where
  "group_wf p \<longleftrightarrow> length (ge_mac p) = 2"

interpretation group_codec: wire_codec "\<lambda>p. Inr (group_encode p [])" group_decode group_wf
proof unfold_locales
  fix x bs assume "group_wf x" "Inr (group_encode x []) = (Inr bs :: bytes result)" "length bs \<le> 184"
  then show "group_decode bs = Inr x"
    by (cases x) (auto simp: group_decode_def group_encode_def group_wf_def CIPHER_MAC_SIZE_def codec_eval)
next
  fix bs x assume "group_decode bs = Inr x"
  then show "Inr (group_encode x []) = (Inr bs :: bytes result)" "group_wf x"
    by (auto simp: group_decode_def group_encode_def group_wf_def CIPHER_MAC_SIZE_def codec_dec
        codec_join split: if_splits)
qed (auto simp: group_decode_def read_iffs intro!: no_panic_intros split: prod.splits)

section \<open>Anonymous requests\<close>

record anonymous_request_payload =
  ar_destination_hash :: u8
  ar_sender_pubkey :: bytes
  ar_mac :: bytes
  ar_ciphertext :: bytes

definition anonymous_decode :: "bytes \<Rightarrow> anonymous_request_payload result" where
  "anonymous_decode input =
     and_then (ensure_payload_len input) (\<lambda>_.
     and_then (read_u8 input 0 ''anonymous destination_hash'') (\<lambda>(dst, offset).
     and_then (read_array PUB_KEY_SIZE input offset ''anonymous sender_pubkey'') (\<lambda>(key, offset).
     and_then (read_array CIPHER_MAC_SIZE input offset ''anonymous mac'') (\<lambda>(mac, offset).
     and_then (slice_from input offset) (\<lambda>ciphertext.
       Ok \<lparr>ar_destination_hash = dst, ar_sender_pubkey = key, ar_mac = mac,
           ar_ciphertext = ciphertext\<rparr>)))))"

definition anonymous_encode :: "anonymous_request_payload \<Rightarrow> bytes \<Rightarrow> bytes" where
  "anonymous_encode p out =
     out @ [ar_destination_hash p] @ ar_sender_pubkey p @ ar_mac p @ ar_ciphertext p"

definition anonymous_wf :: "anonymous_request_payload \<Rightarrow> bool" where
  "anonymous_wf p \<longleftrightarrow> length (ar_sender_pubkey p) = 32 \<and> length (ar_mac p) = 2"

interpretation anonymous_codec:
  wire_codec "\<lambda>p. Inr (anonymous_encode p [])" anonymous_decode anonymous_wf
proof unfold_locales
  fix x bs
  assume "anonymous_wf x" "Inr (anonymous_encode x []) = (Inr bs :: bytes result)" "length bs \<le> 184"
  then show "anonymous_decode bs = Inr x"
    by (cases x) (auto simp: anonymous_decode_def anonymous_encode_def anonymous_wf_def
        CIPHER_MAC_SIZE_def PUB_KEY_SIZE_def codec_eval)
next
  fix bs x assume "anonymous_decode bs = Inr x"
  then show "Inr (anonymous_encode x []) = (Inr bs :: bytes result)" "anonymous_wf x"
    by (auto simp: anonymous_decode_def anonymous_encode_def anonymous_wf_def CIPHER_MAC_SIZE_def
        PUB_KEY_SIZE_def codec_dec codec_join split: if_splits)
qed (auto simp: anonymous_decode_def read_iffs intro!: no_panic_intros split: prod.splits)

section \<open>Multipart payloads\<close>

record multipart_payload =
  mp_remaining :: u8
  mp_sub_type :: payload_kind
  mp_sub_payload :: bytes

definition multipart_decode :: "bytes \<Rightarrow> multipart_payload result" where
  "multipart_decode input =
     and_then (ensure_payload_len input) (\<lambda>_.
     and_then (ok_or (slice_get input 0) (Truncated ''multipart payload'')) (\<lambda>packed.
     and_then (slice_from input 1) (\<lambda>rest.
       Ok \<lparr>mp_remaining = drop_bit 4 packed, mp_sub_type = payload_kind_from_nibble packed,
           mp_sub_payload = rest\<rparr>)))"

definition multipart_encode :: "multipart_payload \<Rightarrow> bytes \<Rightarrow> bytes" where
  "multipart_encode p out =
     out @ [push_bit 4 (mp_remaining p AND 0x0F) OR payload_kind_to_nibble (mp_sub_type p)]
         @ mp_sub_payload p"

definition multipart_wf :: "multipart_payload \<Rightarrow> bool" where
  "multipart_wf p \<longleftrightarrow> mp_remaining p AND 0x0F = mp_remaining p \<and> payload_kind_wf (mp_sub_type p)"

lemma nibble_join:
  fixes b hi lo :: u8
  shows "push_bit 4 (drop_bit 4 b AND 0x0F) OR (b AND 0x0F) = b"
    and "hi AND 0x0F = hi \<Longrightarrow> drop_bit 4 (push_bit 4 hi OR (lo AND 0x0F)) = hi"
    and "(push_bit 4 hi OR (lo AND 0x0F)) AND 0x0F = lo AND 0x0F"
    and "drop_bit 4 b AND 0x0F = drop_bit 4 b"
proof -
  have m: "(0x0F :: u8) = mask 4" by (simp add: mask_eq_exp_minus_1)
  show "push_bit 4 (drop_bit 4 b AND 0x0F) OR (b AND 0x0F) = b"
  proof (rule bit_word_eqI)
    fix n :: nat
    assume "n < LENGTH(8)"
    moreover have "4 \<le> n \<Longrightarrow> 4 + (n - 4) = n" by simp
    ultimately show "bit (push_bit 4 (drop_bit 4 b AND 0x0F) OR (b AND 0x0F)) n = bit b n"
      unfolding m by (cases "n < 4") (auto simp: bit_simps)
  qed
  show "hi AND 0x0F = hi \<Longrightarrow> drop_bit 4 (push_bit 4 hi OR (lo AND 0x0F)) = hi"
  proof (rule bit_word_eqI)
    fix n :: nat
    assume h: "hi AND 0x0F = hi" and "n < LENGTH(8)"
    have "\<not> bit hi n" if "4 \<le> n"
      using that h unfolding m by (metis bit_and_iff bit_mask_iff not_le)
    with \<open>n < LENGTH(8)\<close>
    show "bit (drop_bit 4 (push_bit 4 hi OR (lo AND 0x0F))) n = bit hi n"
      unfolding m by (cases "n < 4") (auto simp: bit_simps)
  qed
  show "(push_bit 4 hi OR (lo AND 0x0F)) AND 0x0F = lo AND 0x0F"
    unfolding m by (rule bit_word_eqI) (auto simp: bit_simps)
  show "drop_bit 4 b AND 0x0F = drop_bit 4 b"
  proof (unfold m, rule bit_word_eqI)
    fix n :: nat
    show "bit (drop_bit 4 b AND mask 4) n = bit (drop_bit 4 b) n"
      by (cases "n < 4") (auto simp: bit_simps)
  qed
qed

lemmas nibble_join_nf = nibble_join(1) [simplified]

interpretation multipart_codec:
  wire_codec "\<lambda>p. Inr (multipart_encode p [])" multipart_decode multipart_wf
proof unfold_locales
  fix x bs
  assume wf: "multipart_wf x" and "Inr (multipart_encode x []) = (Inr bs :: bytes result)"
    and len: "length bs \<le> 184"
  then have bs: "bs = (push_bit 4 (mp_remaining x)
      OR (payload_kind_to_nibble (mp_sub_type x) AND 0x0F)) # mp_sub_payload x"
    by (simp add: multipart_encode_def multipart_wf_def)
  have "payload_kind_from_nibble (push_bit 4 (mp_remaining x)
      OR (payload_kind_to_nibble (mp_sub_type x) AND 0x0F)) = mp_sub_type x"
    using wf kind_code.from_bits_masked [of "push_bit 4 (mp_remaining x)
      OR (payload_kind_to_nibble (mp_sub_type x) AND 0x0F)"]
    by (simp only: nibble_join(3)) (simp add: multipart_wf_def)
  then show "multipart_decode bs = Inr x"
    using wf len nibble_join(2) [of "mp_remaining x" "payload_kind_to_nibble (mp_sub_type x)"]
    by (cases x) (simp add: multipart_decode_def bs slice_get_def multipart_wf_def del: payload_kind_to_nibble_low)
next
  fix bs x assume "multipart_decode bs = Inr x"
  then show "Inr (multipart_encode x []) = (Inr bs :: bytes result)" "multipart_wf x"
    by (auto simp: multipart_decode_def multipart_encode_def multipart_wf_def codec_dec
        codec_join nibble_join nibble_join_nf split: if_splits)
qed (auto simp: multipart_decode_def slice_iffs Suc_le_eq intro!: no_panic_intros)

section \<open>Trace payloads\<close>

record trace_payload =
  tp_tag :: u32
  tp_auth_code :: u32
  tp_hash_size :: trace_hash_size
  tp_path_hashes :: bytes

definition trace_decode :: "bytes \<Rightarrow> trace_payload result" where
  "trace_decode input =
     and_then (ensure_payload_len input) (\<lambda>_.
     and_then (read_u32_le input 0 ''trace tag'') (\<lambda>(tag, offset).
     and_then (read_u32_le input offset ''trace auth_code'') (\<lambda>(auth_code, offset).
     and_then (read_u8 input offset ''trace flags'') (\<lambda>(flags, offset).
       if flags AND 0xFC \<noteq> 0 then Err (InvalidTraceFlags flags)
       else and_then (trace_hash_size_from_bits flags) (\<lambda>hs.
       and_then (slice_from input offset) (\<lambda>path_hashes.
         if \<not> trace_hash_size_size hs dvd length path_hashes
         then Err (InvalidLength ''trace path_hashes'')
         else Ok \<lparr>tp_tag = tag, tp_auth_code = auth_code, tp_hash_size = hs,
                   tp_path_hashes = path_hashes\<rparr>))))))"

definition trace_encode :: "trace_payload \<Rightarrow> bytes \<Rightarrow> bytes result" where
  "trace_encode p out =
     (if \<not> trace_hash_size_size (tp_hash_size p) dvd length (tp_path_hashes p)
      then Err (InvalidLength ''trace path_hashes'')
      else Ok (out @ u32_to_le (tp_tag p) @ u32_to_le (tp_auth_code p)
                   @ [trace_hash_size_bits (tp_hash_size p)] @ tp_path_hashes p))"

lemma trace_hash_size_bits_low [simp]:
  "trace_hash_size_bits hs AND 0xFC = 0" "trace_hash_size_bits hs AND 0x03 = trace_hash_size_bits hs"
  by (cases hs; simp)+

lemma trace_hash_size_from_bits_bits [simp]:
  "trace_hash_size_from_bits (trace_hash_size_bits hs) = Inr hs"
  by (simp add: trace_hash_size_from_bits_Ok_iff)

lemma trace_flags_eq:
  fixes b :: u8
  assumes "b AND 0xFC = 0"
  shows "b AND 0x03 = b"
proof -
  have "(0xFC OR 0x03 :: u8) = - 1" by simp
  then have "b = b AND (0xFC OR 0x03)" by (simp only: and.right_neutral)
  also have "\<dots> = (b AND 0xFC) OR (b AND 0x03)" by (rule bit.conj_disj_distrib)
  finally show ?thesis using assms by simp
qed

lemma trace_flags_Ok_iff:
  "b AND 0xFC = 0 \<Longrightarrow> trace_hash_size_from_bits b = Inr hs \<longleftrightarrow> trace_hash_size_bits hs = b"
  by (auto simp: trace_hash_size_from_bits_Ok_iff trace_flags_eq)

interpretation trace_codec: wire_codec "\<lambda>p. trace_encode p []" trace_decode "\<lambda>_. True"
proof unfold_locales
  fix x bs assume "trace_encode x [] = Inr bs" and len: "length bs \<le> 184"
  then have bs: "bs = u32_to_le (tp_tag x) @ u32_to_le (tp_auth_code x)
      @ [trace_hash_size_bits (tp_hash_size x)] @ tp_path_hashes x"
    and dvd: "trace_hash_size_size (tp_hash_size x) dvd length (tp_path_hashes x)"
    by (auto simp: trace_encode_def split: if_splits)
  from len dvd show "trace_decode bs = Inr x"
    by (cases x) (simp add: trace_decode_def bs codec_eval)
next
  fix bs x assume "trace_decode bs = Inr x"
  then show "trace_encode x [] = Inr bs"
    by (auto simp: trace_decode_def trace_encode_def codec_dec codec_join u32_of_le_split
        trace_flags_Ok_iff u32_to_of_le split: if_splits)
qed (auto simp: trace_decode_def read_iffs intro!: no_panic_intros split: prod.splits)

section \<open>Control payloads\<close>

record control_payload =
  cp_flags :: u8
  cp_data :: bytes

definition control_new :: "u8 \<Rightarrow> u8 \<Rightarrow> bytes \<Rightarrow> control_payload" where
  "control_new sub_type sub_data data =
     \<lparr>cp_flags = push_bit 4 (sub_type AND 0x0F) OR (sub_data AND 0x0F), cp_data = data\<rparr>"

definition discover_request :: "u8 \<Rightarrow> u32 \<Rightarrow> u32 option \<Rightarrow> bool \<Rightarrow> control_payload" where
  "discover_request type_filter tag since prefix_only =
     control_new 0x08 (if prefix_only then 1 else 0)
       ([type_filter] @ u32_to_le tag @ (case since of None \<Rightarrow> [] | Some t \<Rightarrow> u32_to_le t))"

definition discover_response :: "advert_node_type \<Rightarrow> i8 \<Rightarrow> u32 \<Rightarrow> bytes \<Rightarrow> control_payload" where
  "discover_response node_type snr_quarters tag pubkey =
     control_new 0x09 (advert_node_type_to_nibble node_type) ([snr_quarters] @ u32_to_le tag @ pubkey)"

definition control_decode :: "bytes \<Rightarrow> control_payload result" where
  "control_decode input =
     and_then (ensure_payload_len input) (\<lambda>_.
     and_then (ok_or (slice_get input 0) (Truncated ''control payload'')) (\<lambda>flags.
     and_then (slice_from input 1) (\<lambda>rest.
       Ok \<lparr>cp_flags = flags, cp_data = rest\<rparr>)))"

definition control_encode :: "control_payload \<Rightarrow> bytes \<Rightarrow> bytes" where
  "control_encode p out = out @ [cp_flags p] @ cp_data p"

definition sub_type :: "control_payload \<Rightarrow> u8" where
  "sub_type p = drop_bit 4 (cp_flags p)"

definition sub_data :: "control_payload \<Rightarrow> u8" where
  "sub_data p = cp_flags p AND 0x0F"

definition zero_hop_only :: "control_payload \<Rightarrow> bool" where
  "zero_hop_only p \<longleftrightarrow> cp_flags p AND 0x80 \<noteq> 0"

datatype control_message =
    DiscoverRequest (dq_prefix_only: bool) (dq_type_filter: u8) (dq_tag: u32) (dq_since: "u32 option")
  | DiscoverResponse (dr_node_type: advert_node_type) (dr_snr_quarters: i8) (dr_tag: u32) (dr_pubkey: bytes)
  | UnknownControl control_payload

definition control_message_of :: "control_payload \<Rightarrow> control_message result" where
  "control_message_of p =
     (if sub_type p = 0x08 then
        (if length (cp_data p) \<noteq> 5 \<and> length (cp_data p) \<noteq> 9
         then Err (InvalidLength ''discover request'')
         else and_then (read_u8 (cp_data p) 0 ''discover type_filter'') (\<lambda>(type_filter, offset).
              and_then (read_u32_le (cp_data p) offset ''discover tag'') (\<lambda>(tag, offset).
              and_then (if length (cp_data p) = 9
                        then and_then (read_u32_le (cp_data p) offset ''discover since'')
                               (\<lambda>(since, _). Ok (Some since))
                        else Ok None) (\<lambda>since.
                Ok (DiscoverRequest (sub_data p AND 0x01 \<noteq> 0) type_filter tag since)))))
      else if sub_type p = 0x09 then
        (if length (cp_data p) \<noteq> 13 \<and> length (cp_data p) \<noteq> 37
         then Err (InvalidLength ''discover response'')
         else and_then (read_u8 (cp_data p) 0 ''discover snr'') (\<lambda>(snr_quarters, offset).
              and_then (read_u32_le (cp_data p) offset ''discover tag'') (\<lambda>(tag, offset).
              and_then (slice_from (cp_data p) offset) (\<lambda>pubkey.
                Ok (DiscoverResponse (advert_node_type_from_nibble (sub_data p)) snr_quarters tag
                      pubkey)))))
      else Ok (UnknownControl p))"

interpretation control_codec:
  wire_codec "\<lambda>p. Inr (control_encode p [])" control_decode "\<lambda>_. True"
proof unfold_locales
  fix x bs
  assume "Inr (control_encode x []) = (Inr bs :: bytes result)" and len: "length bs \<le> 184"
  then show "control_decode bs = Inr x"
    by (cases x) (auto simp: control_decode_def control_encode_def slice_get_def)
next
  fix bs x assume "control_decode bs = Inr x"
  then show "Inr (control_encode x []) = (Inr bs :: bytes result)"
    by (auto simp: control_decode_def control_encode_def codec_dec codec_join split: if_splits)
qed (auto simp: control_decode_def slice_iffs Suc_le_eq intro!: no_panic_intros)

lemma control_fields [simp]:
  "sub_type (control_new t d data) = drop_bit 4 (push_bit 4 (t AND 0x0F))"
  "sub_data (control_new t d data) = d AND 0x0F"
  "cp_data (control_new t d data) = data"
proof -
  have m: "(0x0F :: u8) = mask 4" by (simp add: mask_eq_exp_minus_1)
  show "sub_type (control_new t d data) = drop_bit 4 (push_bit 4 (t AND 0x0F))"
    unfolding sub_type_def control_new_def m
    by (auto intro!: bit_word_eqI simp: bit_simps)
  show "sub_data (control_new t d data) = d AND 0x0F"
    by (simp only: sub_data_def control_new_def control_payload.select_convs nibble_join(3))
qed (simp add: control_new_def)

text \<open>Both discovery messages come back from their payload; no payload makes the parser panic.\<close>

lemma control_message_discover_request:
  "control_message_of (discover_request type_filter tag since prefix_only) =
     Inr (DiscoverRequest prefix_only type_filter tag since)"
  by (cases since; cases prefix_only)
    (simp_all add: discover_request_def control_message_of_def codec_eval)

lemma control_message_discover_response:
  assumes "advert_node_type_wf node_type" and "length pubkey = 8 \<or> length pubkey = 32"
  shows "control_message_of (discover_response node_type snr tag pubkey) =
     Inr (DiscoverResponse node_type snr tag pubkey)"
proof -
  have "advert_node_type_from_nibble (advert_node_type_to_nibble node_type AND 0x0F) = node_type"
    using node_code.from_bits_masked node_code.from_to assms(1) by simp
  with assms(2) show ?thesis
    by (auto simp: discover_response_def control_message_of_def codec_eval)
qed

lemma no_panic_control_message [no_panic_intros, simp]: "no_panic (control_message_of p)"
  by (auto simp: control_message_of_def read_iffs intro!: no_panic_intros split: prod.splits)

section \<open>Advert application data\<close>

record advert_app_data =
  ad_node_type :: advert_node_type
  ad_location :: "(i32 \<times> i32) option"
  ad_feature1 :: "u16 option"
  ad_feature2 :: "u16 option"
  ad_name :: "rstr option"

text \<open>An optional field behind a flag, read at the offset when the flag is set.\<close>

definition opt_field ::
  "bool \<Rightarrow> (nat \<Rightarrow> ('a \<times> nat) result) \<Rightarrow> nat \<Rightarrow> ('a option \<times> nat) result"
where
  "opt_field present reader offset =
     (if present then and_then (reader offset) (\<lambda>(x, offset'). Ok (Some x, offset'))
      else Ok (None, offset))"

definition read_location :: "bytes \<Rightarrow> nat \<Rightarrow> ((i32 \<times> i32) \<times> nat) result" where
  "read_location input offset =
     and_then (read_i32_le input offset ''advert latitude'') (\<lambda>(latitude, offset).
     and_then (read_i32_le input offset ''advert longitude'') (\<lambda>(longitude, offset).
       Ok ((latitude, longitude), offset)))"

definition app_data_decode :: "bytes \<Rightarrow> advert_app_data result" where
  "app_data_decode input =
     (if MAX_ADVERT_DATA_SIZE < length input then Err (InvalidLength ''advert app_data'')
      else
        and_then (read_u8 input 0 ''advert app_data flags'') (\<lambda>(flags, offset).
        and_then (opt_field (flags AND 0x10 \<noteq> 0) (read_location input) offset)
          (\<lambda>(location, offset).
        and_then (opt_field (flags AND 0x20 \<noteq> 0)
            (\<lambda>o1. read_u16_le input o1 ''advert feature1'') offset) (\<lambda>(feature1, offset).
        and_then (opt_field (flags AND 0x40 \<noteq> 0)
            (\<lambda>o2. read_u16_le input o2 ''advert feature2'') offset) (\<lambda>(feature2, offset).
        and_then (if flags AND 0x80 \<noteq> 0
                  then and_then (slice_from input offset) (\<lambda>rest.
                         case from_utf8 rest of Some name \<Rightarrow> Ok (Some name) | None \<Rightarrow> Err InvalidUtf8)
                  else if offset \<noteq> length input then Err (InvalidLength ''advert app_data'')
                  else Ok None) (\<lambda>name.
          Ok \<lparr>ad_node_type = advert_node_type_from_nibble flags, ad_location = location,
              ad_feature1 = feature1, ad_feature2 = feature2, ad_name = name\<rparr>))))))"

definition app_data_flags :: "advert_app_data \<Rightarrow> u8" where
  "app_data_flags d =
     (let flags = advert_node_type_to_nibble (ad_node_type d);
          flags = (if ad_location d \<noteq> None then flags OR 0x10 else flags);
          flags = (if ad_feature1 d \<noteq> None then flags OR 0x20 else flags);
          flags = (if ad_feature2 d \<noteq> None then flags OR 0x40 else flags);
          flags = (if ad_name d \<noteq> None then flags OR 0x80 else flags)
      in flags)"

text \<open>The bytes an optional field pushes.\<close>

definition opt_bytes :: "('a \<Rightarrow> bytes) \<Rightarrow> 'a option \<Rightarrow> bytes" where
  "opt_bytes e v = (case v of None \<Rightarrow> [] | Some x \<Rightarrow> e x)"

definition location_bytes :: "i32 \<times> i32 \<Rightarrow> bytes" where
  "location_bytes l = u32_to_le (fst l) @ u32_to_le (snd l)"

definition app_data_encode :: "advert_app_data \<Rightarrow> bytes result" where
  "app_data_encode d =
     (let out = [app_data_flags d]
            @ opt_bytes location_bytes (ad_location d)
            @ opt_bytes u16_to_le (ad_feature1 d)
            @ opt_bytes u16_to_le (ad_feature2 d)
            @ opt_bytes str_bytes (ad_name d)
      in if MAX_ADVERT_DATA_SIZE < length out then Err (InvalidLength ''advert app_data'')
         else Ok out)"

definition app_data_wf :: "advert_app_data \<Rightarrow> bool" where
  "app_data_wf d \<longleftrightarrow> advert_node_type_wf (ad_node_type d)
     \<and> (case ad_name d of None \<Rightarrow> True | Some name \<Rightarrow> valid_str name)"

lemma flag_bits:
  "(b AND 0x10 \<noteq> 0) = bit b 4" "(b AND 0x20 \<noteq> 0) = bit b 5"
  "(b AND 0x40 \<noteq> 0) = bit b 6" "(b AND 0x80 \<noteq> 0) = bit b 7" for b :: u8
proof -
  have *: "b AND push_bit k 1 \<noteq> 0 \<longleftrightarrow> bit b k" if "k < 8" for k
  proof
    assume "b AND push_bit k 1 \<noteq> 0"
    then obtain n where "bit (b AND push_bit k 1) n" by (auto simp: bit_eq_iff)
    then show "bit b k" by (auto simp: bit_simps)
  next
    assume "bit b k"
    then have "bit (b AND push_bit k 1) k" using that by (simp add: bit_simps)
    then show "b AND push_bit k 1 \<noteq> 0" by auto
  qed
  show "(b AND 0x10 \<noteq> 0) = bit b 4" using * [of 4] by simp
  show "(b AND 0x20 \<noteq> 0) = bit b 5" using * [of 5] by simp
  show "(b AND 0x40 \<noteq> 0) = bit b 6" using * [of 6] by simp
  show "(b AND 0x80 \<noteq> 0) = bit b 7" using * [of 7] by simp
qed

lemma app_data_flags_bits:
  shows "bit (app_data_flags d) 4 = (ad_location d \<noteq> None)"
    and "bit (app_data_flags d) 5 = (ad_feature1 d \<noteq> None)"
    and "bit (app_data_flags d) 6 = (ad_feature2 d \<noteq> None)"
    and "bit (app_data_flags d) 7 = (ad_name d \<noteq> None)"
    and "app_data_flags d AND 0x0F = advert_node_type_to_nibble (ad_node_type d)"
proof -
  let ?n = "advert_node_type_to_nibble (ad_node_type d)"
  have m: "(0x0F :: u8) = mask 4" by (simp add: mask_eq_exp_minus_1)
  have nib: "?n AND mask 4 = ?n" using node_code.to_masked by (simp add: m)
  have hi: "\<not> bit ?n k" if "4 \<le> k" for k
    using that nib by (metis bit_and_iff bit_mask_iff not_le)
  show "bit (app_data_flags d) 4 = (ad_location d \<noteq> None)"
    "bit (app_data_flags d) 5 = (ad_feature1 d \<noteq> None)"
    "bit (app_data_flags d) 6 = (ad_feature2 d \<noteq> None)"
    "bit (app_data_flags d) 7 = (ad_name d \<noteq> None)"
    using hi by (simp_all add: app_data_flags_def Let_def bit_or_iff)
  show "app_data_flags d AND 0x0F = ?n"
    using nib by (simp add: app_data_flags_def Let_def bit.conj_disj_distrib2 m [symmetric] node_code.to_masked)
qed

lemma app_data_flags_eqI:
  assumes "ad_node_type d = advert_node_type_from_nibble b"
    and "(ad_location d \<noteq> None) = bit b 4" and "(ad_feature1 d \<noteq> None) = bit b 5"
    and "(ad_feature2 d \<noteq> None) = bit b 6" and "(ad_name d \<noteq> None) = bit b 7"
  shows "app_data_flags d = b"
proof (rule bit_word_eqI)
  fix n :: nat
  assume "n < LENGTH(8)"
  then consider "n < 4" | "n = 4" | "n = 5" | "n = 6" | "n = 7" by fastforce
  then show "bit (app_data_flags d) n = bit b n"
  proof cases
    case 1
    have m: "(0x0F :: u8) = mask 4" by (simp add: mask_eq_exp_minus_1)
    have "app_data_flags d AND 0x0F = b AND 0x0F"
      by (simp add: app_data_flags_bits(5) assms(1) node_code.to_from)
    then have "bit (app_data_flags d AND mask 4) n = bit (b AND mask 4) n" by (simp add: m)
    with 1 show ?thesis by (simp add: bit_and_iff bit_mask_iff)
  qed (use assms(2-5) app_data_flags_bits(1-4) [of d] in auto)
qed

lemma app_data_node_type [simp]:
  "advert_node_type_wf (ad_node_type d) \<Longrightarrow>
     advert_node_type_from_nibble (app_data_flags d) = ad_node_type d"
  by (metis app_data_flags_bits(5) node_code.from_bits_masked node_code.from_to)

lemma read_location_Ok_iff:
  "read_location input off = Inr (l, off') \<longleftrightarrow> off + 8 \<le> usize_max \<and> off + 8 \<le> length input
     \<and> l = (u32_of_le (take 4 (drop off input)), u32_of_le (take 4 (drop (off + 4) input)))
     \<and> off' = off + 8"
  by (cases l) (auto simp: read_location_def and_then_Ok_iff read_iffs)

lemma opt_field_eval:
  assumes "\<And>x. v = Some x \<Longrightarrow> reader off = Inr (x, off + length (e x))" and "b = (v \<noteq> None)"
  shows "opt_field b reader off = Inr (v, off + length (opt_bytes e v))"
  using assms by (cases v) (simp_all add: opt_field_def opt_bytes_def)

lemma opt_field_Ok:
  assumes "opt_field b reader off = Inr (v, off')" and "off \<le> length input"
    and "\<And>x o'. reader off = Inr (x, o') \<Longrightarrow> o' \<le> length input \<and> o' = off + length (e x)
           \<and> take (length (e x)) (drop off input) = e x"
  shows "b = (v \<noteq> None) \<and> off' \<le> length input \<and> drop off input = opt_bytes e v @ drop off' input"
proof (cases b)
  case True
  then obtain x where r: "reader off = Inr (x, off')" and v: "v = Some x"
    using assms(1) by (auto simp: opt_field_def and_then_Ok_iff)
  have "drop off input = take (length (e x)) (drop off input) @ drop (length (e x)) (drop off input)"
    by (rule append_take_drop_id [symmetric])
  then have "drop off input = e x @ drop off' input"
    using assms(3) [OF r] by (metis add.commute drop_drop)
  with assms(3) [OF r] show ?thesis using True v
    by (simp add: opt_bytes_def)
next
  case False
  with assms(1,2) show ?thesis by (auto simp: opt_field_def opt_bytes_def)
qed

lemma app_data_encode_bytes:
  "app_data_encode d = Inr bs \<longleftrightarrow> length bs \<le> 32 \<and>
     bs = app_data_flags d # opt_bytes location_bytes (ad_location d)
        @ opt_bytes u16_to_le (ad_feature1 d) @ opt_bytes u16_to_le (ad_feature2 d)
        @ opt_bytes str_bytes (ad_name d)"
  by (auto simp: app_data_encode_def MAX_ADVERT_DATA_SIZE_def)

lemma app_data_decode_encode:
  assumes wf: "app_data_wf d" and enc: "app_data_encode d = Inr bs"
  shows "app_data_decode bs = Inr d"
proof -
  let ?l = "opt_bytes location_bytes (ad_location d)" and ?f1 = "opt_bytes u16_to_le (ad_feature1 d)"
    and ?f2 = "opt_bytes u16_to_le (ad_feature2 d)" and ?n = "opt_bytes str_bytes (ad_name d)"
  have len: "length bs \<le> 32" and bs: "bs = app_data_flags d # ?l @ ?f1 @ ?f2 @ ?n"
    using enc by (auto simp: app_data_encode_bytes)
  have fits: "k \<le> length bs \<Longrightarrow> k \<le> usize_max" for k using len by (simp add: usize_max_def)
  have flags: "read_u8 bs 0 ''advert app_data flags'' = Inr (app_data_flags d, 1)"
    using bs by (simp add: read_iffs usize_max_def)
  have loc: "opt_field (app_data_flags d AND 0x10 \<noteq> 0) (read_location bs) 1
      = Inr (ad_location d, 1 + length ?l)"
    by (rule opt_field_eval)
      (auto simp: read_location_Ok_iff flag_bits app_data_flags_bits bs opt_bytes_def
        location_bytes_def usize_max_def)
  have f1: "opt_field (app_data_flags d AND 0x20 \<noteq> 0) (\<lambda>o1. read_u16_le bs o1 ''advert feature1'')
      (1 + length ?l) = Inr (ad_feature1 d, 1 + length ?l + length ?f1)"
    by (rule opt_field_eval)
      (use fits in \<open>auto simp: read_iffs flag_bits app_data_flags_bits bs opt_bytes_def [of u16_to_le]\<close>)
  have f2: "opt_field (app_data_flags d AND 0x40 \<noteq> 0) (\<lambda>o2. read_u16_le bs o2 ''advert feature2'')
      (1 + length ?l + length ?f1) = Inr (ad_feature2 d, 1 + length ?l + length ?f1 + length ?f2)"
    by (rule opt_field_eval)
      (use fits in \<open>auto simp: read_iffs flag_bits app_data_flags_bits bs
         opt_bytes_def [of u16_to_le "Some _"]\<close>)
  have nm: "ad_name d = Some s \<Longrightarrow> from_utf8 (str_bytes s) = Some s" for s
    using wf by (simp add: app_data_wf_def)
  have rest: "drop (1 + length ?l + length ?f1 + length ?f2) bs = ?n" by (simp add: bs)
  have le: "1 + length ?l + length ?f1 + length ?f2 \<le> length bs" by (simp add: bs)
  have t: "advert_node_type_from_nibble (app_data_flags d) = ad_node_type d"
    using wf by (simp add: app_data_wf_def)
  have nlen: "1 + length ?l + length ?f1 + length ?f2 = length bs" if "ad_name d = None"
    using that by (simp add: bs opt_bytes_def)
  have nb: "(app_data_flags d AND 0x80 \<noteq> 0) = (ad_name d \<noteq> None)"
    by (simp only: flag_bits app_data_flags_bits)
  show ?thesis
  proof (cases "ad_name d")
    case None
    then show ?thesis
      using len nb nlen
      by (simp add: app_data_decode_def MAX_ADVERT_DATA_SIZE_def flags loc f1 f2 t [simplified] del: One_nat_def)
  next
    case (Some s)
    then show ?thesis
      using len nb rest le nm [OF Some]
      by (simp add: app_data_decode_def MAX_ADVERT_DATA_SIZE_def flags loc f1 f2 t opt_bytes_def [of str_bytes] del: One_nat_def)
  qed
qed

lemma app_data_encode_decode:
  assumes "app_data_decode bs = Inr d"
  shows "app_data_encode d = Inr bs" and "app_data_wf d"
proof -
  obtain l o1 f1 o2 f2 o3 nm where len: "length bs \<le> 32" and ne: "0 < length bs"
    and l: "opt_field (bs ! 0 AND 0x10 \<noteq> 0) (read_location bs) 1 = Inr (l, o1)"
    and f1: "opt_field (bs ! 0 AND 0x20 \<noteq> 0) (\<lambda>o1. read_u16_le bs o1 ''advert feature1'') o1
        = Inr (f1, o2)"
    and f2: "opt_field (bs ! 0 AND 0x40 \<noteq> 0) (\<lambda>o2. read_u16_le bs o2 ''advert feature2'') o2
        = Inr (f2, o3)"
    and nm: "(if bs ! 0 AND 0x80 \<noteq> 0
        then and_then (slice_from bs o3) (\<lambda>rest.
               case from_utf8 rest of Some name \<Rightarrow> Ok (Some name) | None \<Rightarrow> Err InvalidUtf8)
        else if o3 \<noteq> length bs then Err (InvalidLength ''advert app_data'') else Ok None) = Inr nm"
    and d: "d = \<lparr>ad_node_type = advert_node_type_from_nibble (bs ! 0), ad_location = l,
        ad_feature1 = f1, ad_feature2 = f2, ad_name = nm\<rparr>"
    using assms
    by (auto simp: app_data_decode_def MAX_ADVERT_DATA_SIZE_def and_then_Ok_iff read_u8_Ok_iff
        simp del: One_nat_def split: if_split_asm)
  have l': "(bs ! 0 AND 0x10 \<noteq> 0) = (l \<noteq> None) \<and> o1 \<le> length bs
      \<and> drop 1 bs = opt_bytes location_bytes l @ drop o1 bs"
    by (rule opt_field_Ok [OF l])
      (use ne in \<open>auto simp: Suc_le_eq read_location_Ok_iff location_bytes_def u32_of_le_split take_add [of 4 4, simplified]\<close>)
  have f1': "(bs ! 0 AND 0x20 \<noteq> 0) = (f1 \<noteq> None) \<and> o2 \<le> length bs
      \<and> drop o1 bs = opt_bytes u16_to_le f1 @ drop o2 bs"
    by (rule opt_field_Ok [OF f1]) (use l' in \<open>auto simp: read_iffs u16_of_le_split\<close>)
  have f2': "(bs ! 0 AND 0x40 \<noteq> 0) = (f2 \<noteq> None) \<and> o3 \<le> length bs
      \<and> drop o2 bs = opt_bytes u16_to_le f2 @ drop o3 bs"
    by (rule opt_field_Ok [OF f2]) (use f1' in \<open>auto simp: read_iffs u16_of_le_split\<close>)
  have nm': "(bs ! 0 AND 0x80 \<noteq> 0) = (nm \<noteq> None) \<and> drop o3 bs = opt_bytes str_bytes nm
      \<and> (\<forall>s. nm = Some s \<longrightarrow> valid_str s)"
    using nm by (auto simp: opt_bytes_def and_then_Ok_iff slice_iffs from_utf8_Some_iff
        split: if_split_asm option.split_asm)
  have fl: "app_data_flags d = bs ! 0"
    by (rule app_data_flags_eqI) (use l' f1' f2' nm' in \<open>simp_all add: d flag_bits\<close>)
  have "bs = bs ! 0 # drop 1 bs" using ne by (simp add: Cons_nth_drop_Suc)
  then show "app_data_encode d = Inr bs"
    using l' f1' f2' nm' len by (simp add: app_data_encode_bytes fl) (simp add: d)
  show "app_data_wf d"
    using nm' by (auto simp: app_data_wf_def d node_code.from_wf split: option.split)
qed

lemma no_panic_opt_field [no_panic_intros]:
  "no_panic (reader off) \<Longrightarrow> no_panic (opt_field b reader off)"
  by (auto simp: opt_field_def intro!: no_panic_intros)

lemma no_panic_read_location [no_panic_intros, simp]: "no_panic (read_location input off)"
  by (auto simp: read_location_def intro!: no_panic_intros)

lemma opt_field_bound:
  "opt_field b reader off = Inr (v, off') \<Longrightarrow> off \<le> n \<Longrightarrow>
     (\<And>x o'. reader off = Inr (x, o') \<Longrightarrow> o' \<le> n) \<Longrightarrow> off' \<le> n"
  by (auto simp: opt_field_def and_then_Ok_iff split: if_split_asm)

lemma no_panic_app_data_decode [no_panic_intros, simp]: "no_panic (app_data_decode bs)"
proof -
  have "o3 \<le> length bs"
    if "0 < length bs" "opt_field a (read_location bs) (Suc 0) = Inr (l, o1)"
      "opt_field b (\<lambda>o1. read_u16_le bs o1 ''advert feature1'') o1 = Inr (f1, o2)"
      "opt_field c (\<lambda>o2. read_u16_le bs o2 ''advert feature2'') o2 = Inr (f2, o3)"
    for a b c l o1 f1 o2 f2 o3
  proof -
    have "o1 \<le> length bs"
      using that(1) by (rule opt_field_bound [OF that(2) Suc_leI]) (auto simp: read_location_Ok_iff)
    then have "o2 \<le> length bs" by (rule opt_field_bound [OF that(3)]) (auto simp: read_iffs)
    then show ?thesis by (rule opt_field_bound [OF that(4)]) (auto simp: read_iffs)
  qed
  note bound = this
  have name: "no_panic (case from_utf8 rest of None \<Rightarrow> Err InvalidUtf8 | Some name \<Rightarrow> Ok (Some name))"
    for rest by (cases "from_utf8 rest") simp_all
  show ?thesis
    unfolding app_data_decode_def
    apply (rule no_panic_if, simp)
    apply (rule no_panic_and_then, simp)
    apply (clarsimp simp: read_u8_Ok_iff)
    apply (rule no_panic_and_then, rule no_panic_opt_field, simp)
    apply clarsimp
    apply (rule no_panic_and_then, rule no_panic_opt_field, simp)
    apply clarsimp
    apply (rule no_panic_and_then, rule no_panic_opt_field, simp)
    apply (clarsimp split del: if_split)
    apply (rule no_panic_and_then)
     apply (rule no_panic_if)
      apply (rule no_panic_and_then)
       apply (simp add: bound)
      apply (rule name)
     apply simp
    apply simp
    done
qed

interpretation app_data_codec: wire_codec app_data_encode app_data_decode app_data_wf
  by unfold_locales (rule app_data_decode_encode app_data_encode_decode no_panic_app_data_decode; assumption)+

section \<open>Adverts\<close>

record advert_payload =
  av_public_key :: bytes
  av_timestamp :: u32
  av_signature :: bytes
  av_app_data :: "advert_app_data option"

definition advert_decode :: "bytes \<Rightarrow> advert_payload result" where
  "advert_decode input =
     and_then (read_array PUB_KEY_SIZE input 0 ''advert public_key'') (\<lambda>(public_key, offset).
     and_then (read_u32_le input offset ''advert timestamp'') (\<lambda>(timestamp, offset).
     and_then (read_array SIGNATURE_SIZE input offset ''advert signature'') (\<lambda>(signature, offset).
     and_then (slice_from input offset) (\<lambda>app_data_bytes.
       if MAX_ADVERT_DATA_SIZE < length app_data_bytes
       then Err (InvalidLength ''advert app_data'')
       else and_then (if app_data_bytes = [] then Ok None
                      else and_then (app_data_decode app_data_bytes) (\<lambda>d. Ok (Some d)))
              (\<lambda>app_data.
                Ok \<lparr>av_public_key = public_key, av_timestamp = timestamp,
                    av_signature = signature, av_app_data = app_data\<rparr>)))))"

definition opt_app_data_bytes :: "advert_app_data option \<Rightarrow> bytes result" where
  "opt_app_data_bytes d = (case d of None \<Rightarrow> Ok [] | Some app_data \<Rightarrow> app_data_encode app_data)"

definition advert_encode :: "advert_payload \<Rightarrow> bytes \<Rightarrow> bytes result" where
  "advert_encode p out =
     and_then (opt_app_data_bytes (av_app_data p)) (\<lambda>bs.
       Ok (out @ av_public_key p @ u32_to_le (av_timestamp p) @ av_signature p @ bs))"

definition signed_message :: "advert_payload \<Rightarrow> bytes result" where
  "signed_message p =
     and_then (opt_app_data_bytes (av_app_data p)) (\<lambda>bs.
       Ok (av_public_key p @ u32_to_le (av_timestamp p) @ bs))"

definition verify_signature :: "crypto \<Rightarrow> advert_payload \<Rightarrow> bool" where
  "verify_signature C p =
     (if \<not> verifying_key_ok C (av_public_key p) then False
      else case signed_message p of
        Inl _ \<Rightarrow> False
      | Inr message \<Rightarrow> ed25519_verify C (av_public_key p) message (av_signature p))"

definition advert_wf :: "advert_payload \<Rightarrow> bool" where
  "advert_wf p \<longleftrightarrow> length (av_public_key p) = 32 \<and> length (av_signature p) = 64
     \<and> (case av_app_data p of None \<Rightarrow> True | Some d \<Rightarrow> app_data_wf d)"

lemma app_data_encode_nonempty: "app_data_encode d = Inr bs \<Longrightarrow> bs \<noteq> [] \<and> length bs \<le> 32"
  by (auto simp: app_data_encode_bytes)

lemma no_panic_app_data_encode [no_panic_intros, simp]: "no_panic (app_data_encode d)"
  by (simp add: app_data_encode_def Let_def)

interpretation advert_codec: wire_codec "\<lambda>p. advert_encode p []" advert_decode advert_wf
proof unfold_locales
  fix x bs assume wf: "advert_wf x" and enc: "advert_encode x [] = Inr bs"
  obtain ds where ds: "opt_app_data_bytes (av_app_data x) = Inr ds"
    and bs: "bs = av_public_key x @ u32_to_le (av_timestamp x) @ av_signature x @ ds"
    using enc by (auto simp: advert_encode_def and_then_Ok_iff)
  have "ds = [] \<and> av_app_data x = None
      \<or> (\<exists>d. ds \<noteq> [] \<and> length ds \<le> 32 \<and> av_app_data x = Some d \<and> app_data_decode ds = Inr d)"
    using ds wf
    by (auto simp: opt_app_data_bytes_def advert_wf_def app_data_encode_nonempty app_data_decode_encode
        split: option.splits)
  then show "advert_decode bs = Inr x"
    using wf by (cases x) (auto simp: advert_decode_def bs advert_wf_def protocol_limits codec_eval)
next
  fix bs x assume "advert_decode bs = Inr x"
  then show "advert_encode x [] = Inr bs"
    by (auto simp: advert_decode_def advert_encode_def opt_app_data_bytes_def codec_dec protocol_limits
        codec_join u32_of_le_split split: if_splits dest!: app_data_encode_decode(1))
  from \<open>advert_decode bs = Inr x\<close> show "advert_wf x"
    by (auto simp: advert_decode_def advert_wf_def codec_dec protocol_limits
        split: if_splits dest!: app_data_encode_decode(2))
qed (auto simp: advert_decode_def read_iffs protocol_limits intro!: no_panic_intros split: prod.splits)

lemma no_panic_advert_encode [no_panic_intros, simp]: "no_panic (advert_encode p out)"
  by (auto simp: advert_encode_def opt_app_data_bytes_def intro!: no_panic_intros split: option.split)

section \<open>The payload of a packet\<close>

datatype payload =
    PRequest direct_encrypted_payload
  | PResponse direct_encrypted_payload
  | PTextMessage direct_encrypted_payload
  | PAck ack_payload
  | PAdvert advert_payload
  | PGroupText group_encrypted_payload
  | PGroupData group_encrypted_payload
  | PAnonymousRequest anonymous_request_payload
  | PPath direct_encrypted_payload
  | PTrace trace_payload
  | PMultipart multipart_payload
  | PControl control_payload
  | PReserved u8 bytes
  | PRawCustom bytes

fun payload_kind_of :: "payload \<Rightarrow> payload_kind" where
  "payload_kind_of (PRequest _) = KRequest"
| "payload_kind_of (PResponse _) = KResponse"
| "payload_kind_of (PTextMessage _) = KTextMessage"
| "payload_kind_of (PAck _) = KAck"
| "payload_kind_of (PAdvert _) = KAdvert"
| "payload_kind_of (PGroupText _) = KGroupText"
| "payload_kind_of (PGroupData _) = KGroupData"
| "payload_kind_of (PAnonymousRequest _) = KAnonymousRequest"
| "payload_kind_of (PPath _) = KPath"
| "payload_kind_of (PTrace _) = KTrace"
| "payload_kind_of (PMultipart _) = KMultipart"
| "payload_kind_of (PControl _) = KControl"
| "payload_kind_of (PReserved kind _) = KReserved kind"
| "payload_kind_of (PRawCustom _) = KRawCustom"

fun decode_kind :: "payload_kind \<Rightarrow> bytes \<Rightarrow> payload result" where
  "decode_kind KRequest input = map_res PRequest (direct_decode input)"
| "decode_kind KResponse input = map_res PResponse (direct_decode input)"
| "decode_kind KTextMessage input = map_res PTextMessage (direct_decode input)"
| "decode_kind KAck input = map_res PAck (ack_decode input)"
| "decode_kind KAdvert input = map_res PAdvert (advert_decode input)"
| "decode_kind KGroupText input = map_res PGroupText (group_decode input)"
| "decode_kind KGroupData input = map_res PGroupData (group_decode input)"
| "decode_kind KAnonymousRequest input = map_res PAnonymousRequest (anonymous_decode input)"
| "decode_kind KPath input = map_res PPath (direct_decode input)"
| "decode_kind KTrace input = map_res PTrace (trace_decode input)"
| "decode_kind KMultipart input = map_res PMultipart (multipart_decode input)"
| "decode_kind KControl input = map_res PControl (control_decode input)"
| "decode_kind (KReserved kind) input = Ok (PReserved kind input)"
| "decode_kind KRawCustom input = Ok (PRawCustom input)"

definition payload_decode :: "payload_kind \<Rightarrow> bytes \<Rightarrow> payload result" where
  "payload_decode kind input = and_then (ensure_payload_len input) (\<lambda>_. decode_kind kind input)"

fun payload_encode :: "payload \<Rightarrow> bytes result" where
  "payload_encode (PRequest p) = Ok (direct_encode p [])"
| "payload_encode (PResponse p) = Ok (direct_encode p [])"
| "payload_encode (PTextMessage p) = Ok (direct_encode p [])"
| "payload_encode (PPath p) = Ok (direct_encode p [])"
| "payload_encode (PAck p) = Ok (ack_encode p [])"
| "payload_encode (PAdvert p) = advert_encode p []"
| "payload_encode (PGroupText p) = Ok (group_encode p [])"
| "payload_encode (PGroupData p) = Ok (group_encode p [])"
| "payload_encode (PAnonymousRequest p) = Ok (anonymous_encode p [])"
| "payload_encode (PTrace p) = trace_encode p []"
| "payload_encode (PMultipart p) = Ok (multipart_encode p [])"
| "payload_encode (PControl p) = Ok (control_encode p [])"
| "payload_encode (PReserved _ bytes) = Ok bytes"
| "payload_encode (PRawCustom bytes) = Ok bytes"

fun payload_wf :: "payload \<Rightarrow> bool" where
  "payload_wf (PRequest p) = direct_wf p"
| "payload_wf (PResponse p) = direct_wf p"
| "payload_wf (PTextMessage p) = direct_wf p"
| "payload_wf (PPath p) = direct_wf p"
| "payload_wf (PAck p) = ack_wf p"
| "payload_wf (PAdvert p) = advert_wf p"
| "payload_wf (PGroupText p) = group_wf p"
| "payload_wf (PGroupData p) = group_wf p"
| "payload_wf (PAnonymousRequest p) = anonymous_wf p"
| "payload_wf (PTrace p) = True"
| "payload_wf (PMultipart p) = multipart_wf p"
| "payload_wf (PControl p) = True"
| "payload_wf (PReserved _ _) = True"
| "payload_wf (PRawCustom _) = True"

lemma no_panic_decode_kind [no_panic_intros, simp]: "no_panic (decode_kind k bs)"
  by (cases k) (simp_all add: direct_codec.dec_safe ack_codec.dec_safe advert_codec.dec_safe
      group_codec.dec_safe anonymous_codec.dec_safe trace_codec.dec_safe multipart_codec.dec_safe
      control_codec.dec_safe)

lemma no_panic_payload_encode [no_panic_intros, simp]: "no_panic (payload_encode p)"
  by (cases p) (simp_all add: trace_encode_def)

lemmas payload_dec_enc = direct_codec.dec_enc ack_codec.dec_enc advert_codec.dec_enc
  group_codec.dec_enc anonymous_codec.dec_enc trace_codec.dec_enc multipart_codec.dec_enc
  control_codec.dec_enc

lemmas payload_enc_dec = direct_codec.enc_dec ack_codec.enc_dec advert_codec.enc_dec
  group_codec.enc_dec anonymous_codec.enc_dec trace_codec.enc_dec multipart_codec.enc_dec
  control_codec.enc_dec

lemmas payload_dec_wf = direct_codec.dec_wf ack_codec.dec_wf advert_codec.dec_wf
  group_codec.dec_wf anonymous_codec.dec_wf multipart_codec.dec_wf

text \<open>At every kind, decoding and encoding are inverse on the payloads of that kind.\<close>

interpretation payload_codec: wire_codec payload_encode "payload_decode k"
    "\<lambda>p. payload_wf p \<and> payload_kind_of p = k" for k
proof unfold_locales
  fix x bs
  assume "payload_wf x \<and> payload_kind_of x = k" and "payload_encode x = Inr bs" and "length bs \<le> 184"
  then show "payload_decode k bs = Inr x"
    by (cases x) (auto simp: payload_decode_def map_res_Ok_iff payload_dec_enc)
next
  fix bs x assume "payload_decode k bs = Inr x"
  then have dec: "decode_kind k bs = Inr x" by (auto simp: payload_decode_def and_then_Ok_iff)
  then show "payload_encode x = Inr bs"
    by (cases k) (auto simp: map_res_Ok_iff dest: payload_enc_dec)
  from dec show "payload_wf x \<and> payload_kind_of x = k"
    by (cases k) (auto simp: map_res_Ok_iff dest: payload_dec_wf)
qed (auto simp: payload_decode_def intro!: no_panic_intros)

end
