(* ===== verification/Packets.thy ===== *)
theory Packets
  imports Paths Payloads
begin

text \<open>
  Whole packets (\<open>packet.rs\<close>, \<open>transport_codes.rs\<close>, \<open>route_path.rs\<close>): the wire codec, the routing
  operations on the path, and the signature by which duplicates are recognised.
\<close>

section \<open>Data\<close>

record transport_codes =
  tc_primary :: u16
  tc_secondary :: u16

definition transport_codes_new :: "u16 \<Rightarrow> transport_codes" where
  "transport_codes_new primary = \<lparr>tc_primary = primary, tc_secondary = 0\<rparr>"

definition transport_codes_decode :: "bytes \<Rightarrow> transport_codes result" where
  "transport_codes_decode input =
     and_then (read_u16_le input 0 ''transport primary'') (\<lambda>(primary, offset).
     and_then (read_u16_le input offset ''transport secondary'') (\<lambda>(secondary, _).
       Ok \<lparr>tc_primary = primary, tc_secondary = secondary\<rparr>))"

definition transport_codes_encode :: "transport_codes \<Rightarrow> bytes \<Rightarrow> bytes" where
  "transport_codes_encode c out = out @ u16_to_le (tc_primary c) @ u16_to_le (tc_secondary c)"

datatype route_path = Normal path | TraceRoute trace_path

record packet =
  route_type :: route_type
  transport_codes :: "transport_codes option"
  packet_path :: route_path
  packet_payload :: payload

definition packet_kind :: "packet \<Rightarrow> payload_kind" where
  "packet_kind p = payload_kind_of (packet_payload p)"

fun normal_path_of :: "route_path \<Rightarrow> path option" where
  "normal_path_of (Normal p) = Some p"
| "normal_path_of (TraceRoute _) = None"

fun trace_path_of :: "route_path \<Rightarrow> trace_path option" where
  "trace_path_of (TraceRoute t) = Some t"
| "trace_path_of (Normal _) = None"

definition normal_path :: "packet \<Rightarrow> path option" where
  "normal_path p = normal_path_of (packet_path p)"

definition trace_path_opt :: "packet \<Rightarrow> trace_path option" where
  "trace_path_opt p = trace_path_of (packet_path p)"

definition is_direct_zero_hop :: "packet \<Rightarrow> bool" where
  "is_direct_zero_hop p \<longleftrightarrow> is_direct (route_type p)
     \<and> (case packet_path p of Normal path \<Rightarrow> hop_count path = 0 | TraceRoute _ \<Rightarrow> False)"

definition validate_semantics :: "packet \<Rightarrow> unit result" where
  "validate_semantics p =
     (case packet_payload p of
        PControl c \<Rightarrow> if zero_hop_only c \<and> \<not> is_direct_zero_hop p
                      then Err InvalidZeroHopControlRoute else Ok ()
      | _ \<Rightarrow> Ok ())"

definition check_transport_codes :: "packet \<Rightarrow> unit result" where
  "check_transport_codes p =
     (if has_transport_codes (route_type p) \<and> transport_codes p = None then Err MissingTransportCodes
      else if \<not> has_transport_codes (route_type p) \<and> transport_codes p \<noteq> None
        then Err UnexpectedTransportCodes
      else Ok ())"

section \<open>The wire codec\<close>

text \<open>\<open>input.get(offset..).unwrap_or_default()\<close>\<close>

definition get_from :: "bytes \<Rightarrow> nat \<Rightarrow> bytes" where
  "get_from input offset = (if offset \<le> length input then drop offset input else [])"

definition route_path_decode :: "payload_kind \<Rightarrow> u8 \<Rightarrow> bytes \<Rightarrow> (route_path \<times> nat) result" where
  "route_path_decode kind path_length input =
     (if kind = KTrace
      then and_then (trace_path_decode path_length input) (\<lambda>(t, used). Ok (TraceRoute t, used))
      else and_then (path_decode_wire path_length input) (\<lambda>(p, used). Ok (Normal p, used)))"

definition packet_decode :: "bytes \<Rightarrow> packet result" where
  "packet_decode input =
     (if input = [] then Err EmptyPacket
      else if MAX_TRANS_UNIT < length input then Err (PacketTooLong (length input))
      else
        and_then (slice_index input 0) (\<lambda>first.
        and_then (header_decode first) (\<lambda>header.
        and_then (if has_transport_codes (header_route header)
                  then and_then (transport_codes_decode (get_from input 1)) (\<lambda>codes. Ok (Some codes, 1 + 4))
                  else Ok (None, 1)) (\<lambda>(codes, offset).
        and_then (ok_or (slice_get input offset) (Truncated ''path_length'')) (\<lambda>path_length.
        and_then (slice_from input (offset + 1)) (\<lambda>rest.
        and_then (route_path_decode (header_kind header) path_length rest) (\<lambda>(path, used).
        and_then (slice_from input (offset + 1 + used)) (\<lambda>payload_bytes.
          if MAX_PACKET_PAYLOAD < length payload_bytes then Err (PayloadTooLong (length payload_bytes))
          else
            and_then (payload_decode (header_kind header) payload_bytes) (\<lambda>payload.
            let packet = \<lparr>route_type = header_route header, transport_codes = codes,
                          packet_path = path, packet_payload = payload\<rparr>
            in and_then (validate_semantics packet) (\<lambda>_. Ok packet))))))))))"

definition route_path_encode :: "payload_kind \<Rightarrow> route_path \<Rightarrow> bytes result" where
  "route_path_encode kind rp =
     (case rp of
        TraceRoute t \<Rightarrow>
          if kind = KTrace
          then and_then (trace_path_encoded_length_byte t) (\<lambda>b. Ok (trace_path_encode_bytes t [b]))
          else Err PathKindMismatch
      | Normal p \<Rightarrow>
          if kind \<noteq> KTrace
          then and_then (path_encoded_length_byte p) (\<lambda>b. Ok ([b] @ path_bytes p))
          else Err PathKindMismatch)"

definition packet_encode :: "packet \<Rightarrow> bytes result" where
  "packet_encode p =
     and_then (check_transport_codes p) (\<lambda>_.
     and_then (validate_semantics p) (\<lambda>_.
     and_then (header_encode \<lparr>payload_version = 1, header_kind = packet_kind p,
                              header_route = route_type p\<rparr>) (\<lambda>byte.
     let out = [byte];
         out = (case transport_codes p of None \<Rightarrow> out | Some c \<Rightarrow> transport_codes_encode c out)
     in and_then (route_path_encode (packet_kind p) (packet_path p)) (\<lambda>path_part.
        and_then (payload_encode (packet_payload p)) (\<lambda>payload.
          if MAX_PACKET_PAYLOAD < length payload then Err (PayloadTooLong (length payload))
          else let out = out @ path_part @ payload in
            if MAX_TRANS_UNIT < length out then Err (PacketTooLong (length out))
            else Ok out)))))"

section \<open>Routing operations\<close>

definition append_flood_hop :: "packet \<Rightarrow> bytes \<Rightarrow> packet result" where
  "append_flood_hop p node_hash =
     and_then (ok_or (normal_path p) PathKindMismatch) (\<lambda>path.
     and_then (append_hash path node_hash) (\<lambda>path'. Ok (p\<lparr>packet_path := Normal path'\<rparr>)))"

definition consume_direct_hop :: "packet \<Rightarrow> bytes \<Rightarrow> (bool \<times> packet) result" where
  "consume_direct_hop p node_hash =
     and_then (ok_or (normal_path p) PathKindMismatch) (\<lambda>path.
       if \<not> first_hash_matches path node_hash then Ok (False, p)
       else Ok (True, p\<lparr>packet_path := Normal (snd (remove_first_hash path))\<rparr>))"

definition trace_parts :: "packet \<Rightarrow> (trace_path \<times> trace_payload) result" where
  "trace_parts p =
     and_then (ok_or (trace_path_opt p) PathKindMismatch) (\<lambda>t.
       case packet_payload p of PTrace payload \<Rightarrow> Ok (t, payload) | _ \<Rightarrow> Err PathKindMismatch)"

definition trace_next_hop_matches :: "packet \<Rightarrow> bytes \<Rightarrow> bool result" where
  "trace_next_hop_matches p node_hash =
     and_then (trace_parts p) (\<lambda>(t, payload).
       let size' = trace_hash_size_size (tp_hash_size payload);
           offset = unat (consumed_hops t) * size'
       in if length (tp_path_hashes payload) \<le> offset then Ok False
          else if length (tp_path_hashes payload) < offset + size'
            then Err (InvalidLength ''trace path_hashes'')
          else let expected = take size' (drop offset (tp_path_hashes payload))
            in Ok (size' \<le> length node_hash \<and> take size' node_hash = expected))"

definition trace_is_complete :: "packet \<Rightarrow> bool result" where
  "trace_is_complete p =
     and_then (trace_parts p) (\<lambda>(t, payload).
       Ok (length (tp_path_hashes payload)
           \<le> unat (consumed_hops t) * trace_hash_size_size (tp_hash_size payload)))"

definition append_trace_snr :: "packet \<Rightarrow> i8 \<Rightarrow> packet result" where
  "append_trace_snr p snr_quarters =
     and_then (ok_or (trace_path_opt p) PathKindMismatch) (\<lambda>t.
     and_then (append_snr t snr_quarters) (\<lambda>t'. Ok (p\<lparr>packet_path := TraceRoute t'\<rparr>)))"

text \<open>The bytes hashed for the duplicate signature: kind, route, primary transport code, for a trace
  the number of consumed hops, and the payload. The path of other packets is left out.\<close>

definition dedup_input :: "packet \<Rightarrow> bytes result" where
  "dedup_input p =
     and_then (check_transport_codes p) (\<lambda>_.
     and_then (if packet_kind p = KTrace
               then (case packet_path p of
                       TraceRoute t \<Rightarrow> and_then (trace_path_encoded_length_byte t) (\<lambda>b. Ok [b])
                     | Normal _ \<Rightarrow> Err PathKindMismatch)
               else Ok []) (\<lambda>hops.
     and_then (payload_encode (packet_payload p)) (\<lambda>payload.
       Ok ([payload_kind_to_nibble (packet_kind p)] @ [route_type_to_bits (route_type p)]
           @ (case transport_codes p of None \<Rightarrow> [] | Some c \<Rightarrow> u16_to_le (tc_primary c))
           @ hops @ payload))))"

definition dedup_signature :: "crypto \<Rightarrow> packet \<Rightarrow> bytes result" where
  "dedup_signature C p =
     and_then (dedup_input p) (\<lambda>input.
       let digest = sha256 C input in
       if length digest < 8 then Panicked else Ok (take 8 digest))"

section \<open>Well-formed packets\<close>

text \<open>What the types and constructors of the code enforce; length limits are the encoder's to check.\<close>

definition packet_wf :: "packet \<Rightarrow> bool" where
  "packet_wf p \<longleftrightarrow> payload_wf (packet_payload p) \<and> payload_kind_wf (packet_kind p)"

lemma transport_codes_decode_Ok_iff:
  "transport_codes_decode input = Inr c \<longleftrightarrow> 4 \<le> length input
     \<and> c = \<lparr>tc_primary = u16_of_le (take 2 input), tc_secondary = u16_of_le (take 2 (drop 2 input))\<rparr>"
  by (auto simp: transport_codes_decode_def and_then_Ok_iff read_iffs usize_max_def Suc_Suc_zero)

lemma transport_codes_join:
  "transport_codes_decode input = Inr c \<Longrightarrow> transport_codes_encode c out = out @ take 4 input"
  using u16_of_le_split [of 0 input] u16_of_le_split [of 2 input] take_add [of 2 2 input]
  by (auto simp: transport_codes_decode_Ok_iff transport_codes_encode_def)

lemma transport_codes_decode_encode:
  "transport_codes_decode (transport_codes_encode c [] @ rest) = Inr c"
  by (simp add: transport_codes_decode_Ok_iff transport_codes_encode_def)

lemma no_panic_transport_codes [no_panic_intros, simp]: "no_panic (transport_codes_decode input)"
  by (auto simp: transport_codes_decode_def intro!: no_panic_intros)

lemma no_panic_validate [no_panic_intros, simp]: "no_panic (validate_semantics p)"
  by (auto simp: validate_semantics_def split: payload.split)

lemma no_panic_check_transport [no_panic_intros, simp]: "no_panic (check_transport_codes p)"
  by (simp add: check_transport_codes_def)

lemma no_panic_route_path_decode [no_panic_intros, simp]: "no_panic (route_path_decode k b input)"
  by (auto simp: route_path_decode_def intro!: no_panic_intros)

lemma no_panic_route_path_encode [no_panic_intros, simp]: "no_panic (route_path_encode k rp)"
  by (auto simp: route_path_encode_def intro!: no_panic_intros split: route_path.split)

text \<open>The path part of the wire format, both ways.\<close>

lemma route_path_decode_encode:
  assumes "route_path_encode k rp = Inr bs"
  shows "\<exists>b body. bs = b # body \<and> route_path_decode k b (body @ rest) = Inr (rp, length body)"
proof (cases rp)
  case (Normal p)
  with assms show ?thesis
    by (auto simp: route_path_encode_def route_path_decode_def and_then_Ok_iff path_decode_encode
        split: if_splits)
next
  case (TraceRoute t)
  with assms show ?thesis
    by (auto simp: route_path_encode_def route_path_decode_def and_then_Ok_iff trace_path_encoded_Ok_iff
        trace_path_encode_bytes_def trace_path_decode_encode split: if_splits)
qed

lemma route_path_encode_decode:
  assumes "route_path_decode k b input = Inr (rp, used)"
  shows "used \<le> length input" and "route_path_encode k rp = Inr (b # take used input)"
  using assms
  by (auto simp: route_path_decode_def route_path_encode_def and_then_Ok_iff trace_path_encoded_Ok_iff
      trace_path_encode_bytes_def path_decode_wire_OkD trace_path_decode_OkD
      dest: path_decode_wire_OkD(2-4) trace_path_decode_OkD split: if_splits)

definition codes_bytes :: "transport_codes option \<Rightarrow> bytes" where
  "codes_bytes codes = (case codes of None \<Rightarrow> [] | Some c \<Rightarrow> transport_codes_encode c [])"

lemma check_transport_codes_Ok_iff:
  "check_transport_codes p = Inr u \<longleftrightarrow> has_transport_codes (route_type p) = (transport_codes p \<noteq> None)"
  by (auto simp: check_transport_codes_def)

text \<open>The shape of an encoded packet: header byte, transport codes, path part, payload.\<close>

lemma packet_encode_Ok_iff:
  "packet_encode p = Inr bs \<longleftrightarrow>
     (\<exists>byte path_part payload.
        has_transport_codes (route_type p) = (transport_codes p \<noteq> None)
        \<and> validate_semantics p = Inr ()
        \<and> header_encode \<lparr>payload_version = 1, header_kind = packet_kind p,
                          header_route = route_type p\<rparr> = Inr byte
        \<and> route_path_encode (packet_kind p) (packet_path p) = Inr path_part
        \<and> payload_encode (packet_payload p) = Inr payload
        \<and> length payload \<le> 184 \<and> length bs \<le> 255
        \<and> bs = byte # codes_bytes (transport_codes p) @ path_part @ payload)"
  (is "?l \<longleftrightarrow> ?r")
proof
  assume ?l
  then obtain u v byte path_part payload
    where c: "check_transport_codes p = Inr u" and v: "validate_semantics p = Inr v"
      and h: "header_encode \<lparr>payload_version = 1, header_kind = packet_kind p,
                          header_route = route_type p\<rparr> = Inr byte"
      and r: "route_path_encode (packet_kind p) (packet_path p) = Inr path_part"
      and pl: "payload_encode (packet_payload p) = Inr payload"
      and l: "\<not> MAX_PACKET_PAYLOAD < length payload"
      and out: "\<not> MAX_TRANS_UNIT < length ((case transport_codes p of None \<Rightarrow> [byte]
        | Some c \<Rightarrow> transport_codes_encode c [byte]) @ path_part @ payload)"
      and bs: "Inr ((case transport_codes p of None \<Rightarrow> [byte]
        | Some c \<Rightarrow> transport_codes_encode c [byte]) @ path_part @ payload) = (Inr bs :: bytes result)"
    unfolding packet_encode_def Let_def if_Err_iff
    by (elim and_then_OkE conjE) (unfold if_Err_iff, elim conjE, rule that)
  have e: "(case transport_codes p of None \<Rightarrow> [byte] | Some c \<Rightarrow> transport_codes_encode c [byte])
      = byte # codes_bytes (transport_codes p)"
    by (simp add: codes_bytes_def transport_codes_encode_def split: option.split)
  show ?r
    using c v h r pl l out bs unfolding e check_transport_codes_Ok_iff protocol_limits
    by - (rule exI [of _ byte], rule exI [of _ path_part], rule exI [of _ payload], auto)
next
  assume ?r
  then have "check_transport_codes p = Inr ()" by (simp add: check_transport_codes_Ok_iff)
  with \<open>?r\<close> show ?l
    by (cases "transport_codes p")
      (auto simp: packet_encode_def codes_bytes_def transport_codes_encode_def protocol_limits)
qed

text \<open>The shape of a decoded packet.\<close>

lemma codes_decode_Ok:
  assumes "(if has_transport_codes r
      then and_then (transport_codes_decode (get_from input 1)) (\<lambda>codes. Ok (Some codes, 1 + 4))
      else Ok (None, 1)) = (Inr (codes, offset) :: (transport_codes option \<times> nat) result)"
    and "input \<noteq> []"
  shows "has_transport_codes r = (codes \<noteq> None) \<and> offset \<le> length input
    \<and> offset = 1 + length (codes_bytes codes) \<and> drop 1 input = codes_bytes codes @ drop offset input"
proof (cases "has_transport_codes r")
  case True
  then obtain c where c: "transport_codes_decode (drop 1 input) = Inr c" "codes = Some c" "offset = 5"
    using assms by (auto simp: and_then_Ok_iff get_from_def Suc_le_eq)
  have "4 \<le> length (drop 1 input)" using c(1) by (simp add: transport_codes_decode_Ok_iff)
  moreover have "drop 1 input = take 4 (drop 1 input) @ drop 4 (drop 1 input)"
    by (rule append_take_drop_id [symmetric])
  ultimately show ?thesis
    using True c transport_codes_join [OF c(1), of "[]"] by (simp add: codes_bytes_def)
next
  case False
  with assms show ?thesis by (auto simp: codes_bytes_def Suc_le_eq)
qed

lemma packet_decode_OkD:
  assumes "packet_decode bs = Inr p"
  shows "\<exists>byte b body payload_bytes.
      bs = byte # codes_bytes (transport_codes p) @ (b # body) @ payload_bytes
      \<and> length bs \<le> 255 \<and> length payload_bytes \<le> 184
      \<and> header_decode byte = Inr \<lparr>payload_version = 1, header_kind = packet_kind p,
                                   header_route = route_type p\<rparr>
      \<and> has_transport_codes (route_type p) = (transport_codes p \<noteq> None)
      \<and> route_path_encode (packet_kind p) (packet_path p) = Inr (b # body)
      \<and> payload_decode (packet_kind p) payload_bytes = Inr (packet_payload p)
      \<and> validate_semantics p = Inr ()"
proof -
  have ne: "bs \<noteq> []" and len: "length bs \<le> 255"
    using assms by (auto simp: packet_decode_def if_Err_iff protocol_limits)
  obtain first h codes offset plen rest path used pb payload where
    first: "slice_index bs 0 = (Inr first :: u8 result)" and h: "header_decode first = Inr h"
    and codes: "(if has_transport_codes (header_route h)
      then and_then (transport_codes_decode (get_from bs 1)) (\<lambda>codes. Ok (Some codes, 1 + 4))
      else Ok (None, 1)) = (Inr (codes, offset) :: (transport_codes option \<times> nat) result)"
    and plen: "ok_or (slice_get bs offset) (Truncated ''path_length'') = Inr plen"
    and rest: "slice_from bs (offset + 1) = (Inr rest :: bytes result)"
    and path: "route_path_decode (header_kind h) plen rest = Inr (path, used)"
    and pb: "slice_from bs (offset + 1 + used) = (Inr pb :: bytes result)"
    and tail: "(if MAX_PACKET_PAYLOAD < length pb then Err (PayloadTooLong (length pb))
      else and_then (payload_decode (header_kind h) pb) (\<lambda>payload.
            let packet = \<lparr>route_type = header_route h, transport_codes = codes,
                          packet_path = path, packet_payload = payload\<rparr>
            in and_then (validate_semantics packet) (\<lambda>_. Ok packet))) = Inr p"
    using assms unfolding packet_decode_def if_Err_iff
    by (elim conjE and_then_pair_OkE and_then_OkE) (rule that)
  from first have f: "first = bs ! 0" by (simp add: slice_iffs)
  from plen have off: "offset < length bs" and pl': "plen = bs ! offset" by (simp_all add: slice_iffs)
  from rest have r: "rest = drop (offset + 1) bs" by (simp add: slice_iffs)
  from pb have used: "offset + 1 + used \<le> length bs" and pb': "pb = drop (offset + 1 + used) bs"
    by (simp_all add: slice_iffs)
  from tail obtain payload where pl: "length pb \<le> 184"
    and payload: "payload_decode (header_kind h) pb = Inr payload"
    and p: "p = \<lparr>route_type = header_route h, transport_codes = codes,
              packet_path = path, packet_payload = payload\<rparr>"
    and sem: "validate_semantics p = Inr ()"
    by (auto simp: if_Err_iff and_then_Ok_iff Let_def protocol_limits)
  note h = h [unfolded f] and path = path [unfolded pl' r] and pl = pl [unfolded pb']
    and payload = payload [unfolded pb']
  have kind: "payload_kind_of payload = header_kind h"
    using payload_codec.dec_wf [OF payload] by simp
  have c: "has_transport_codes (header_route h) = (codes \<noteq> None)"
      "drop 1 bs = codes_bytes codes @ drop offset bs"
    using codes_decode_Ok [OF codes ne] by auto
  let ?body = "take used (drop (offset + 1) bs)" and ?rest = "drop (offset + 1 + used) bs"
  have "drop offset bs = bs ! offset # drop (offset + 1) bs"
    using off by (simp add: Cons_nth_drop_Suc)
  moreover have "drop (offset + 1) bs = ?body @ ?rest"
    by (metis append_take_drop_id drop_drop add.commute)
  moreover have "bs = bs ! 0 # drop 1 bs" using ne by (cases bs) auto
  ultimately have shape: "bs = bs ! 0 # codes_bytes codes @ (bs ! offset # ?body) @ ?rest"
    using c(2) by (metis append_Cons)
  have enc: "route_path_encode (packet_kind p) (packet_path p) = Inr (bs ! offset # ?body)"
    using route_path_encode_decode [OF path] kind by (simp add: p packet_kind_def)
  have ps: "route_type p = header_route h" "transport_codes p = codes" "packet_payload p = payload"
    "packet_kind p = header_kind h" using kind by (simp_all add: p packet_kind_def)
  have hdr: "header_decode (bs ! 0) = Inr \<lparr>payload_version = 1, header_kind = header_kind h,
      header_route = header_route h\<rparr>"
    using header_decode_wf [OF h] h by (cases h) simp
  show ?thesis
    unfolding ps
    by (rule exI, rule exI, rule exI, rule exI, intro conjI, rule shape)
      (rule len pl enc [unfolded ps] hdr c(1) payload sem)+
qed

text \<open>No input makes the decoder panic: every slice it takes is in range.\<close>

lemma no_panic_packet_decode [no_panic_intros, simp]: "no_panic (packet_decode bs)"
proof -
  have used: "used \<le> length input" if "route_path_decode k b input = Inr (rp, used)" for k b input rp used
    using route_path_encode_decode(1) [OF that] .
  show ?thesis
    unfolding packet_decode_def
    apply (rule no_panic_if, simp)
    apply (rule no_panic_if, simp)
    apply (rule no_panic_and_then, simp)
    apply (rule no_panic_and_then, simp)
    apply (rule no_panic_and_then)
     apply (rule no_panic_if, rule no_panic_and_then, simp, simp, simp)
    apply clarify
    apply (rule no_panic_and_then, simp)
    apply (rule no_panic_and_then)
     apply (simp add: slice_get_Some_iff Suc_leI)
    apply (rule no_panic_and_then, simp)
    apply clarify
    apply (rule no_panic_and_then)
     apply (drule used)
     apply (clarsimp simp: slice_iffs)
     apply linarith
    apply (rule no_panic_if, simp)
    apply (rule no_panic_and_then)
     apply (rule payload_codec.dec_safe)
    apply (simp add: Let_def no_panic_and_then)
    done
qed

text \<open>Decoding what was encoded.\<close>

lemma packet_decode_encode:
  assumes wf: "packet_wf p" and enc: "packet_encode p = Inr bs"
  shows "packet_decode bs = Inr p"
proof -
  obtain byte path_part payload where
    codes: "has_transport_codes (route_type p) = (transport_codes p \<noteq> None)"
    and sem: "validate_semantics p = Inr ()"
    and hdr: "header_encode \<lparr>payload_version = 1, header_kind = packet_kind p,
               header_route = route_type p\<rparr> = Inr byte"
    and path: "route_path_encode (packet_kind p) (packet_path p) = Inr path_part"
    and pl: "payload_encode (packet_payload p) = Inr payload" "length payload \<le> 184"
    and len: "length bs \<le> 255"
    and bs: "bs = byte # codes_bytes (transport_codes p) @ path_part @ payload"
    using enc by (auto simp: packet_encode_Ok_iff)
  obtain b body where part: "path_part = b # body"
    and rp: "route_path_decode (packet_kind p) b (body @ payload) = Inr (packet_path p, length body)"
    using route_path_decode_encode [OF path] by blast
  have dec: "payload_decode (packet_kind p) payload = Inr (packet_payload p)"
    using payload_codec.dec_enc [of "packet_payload p" "packet_kind p" payload] pl wf
    by (simp add: packet_wf_def packet_kind_def)
  have "byte \<noteq> 0xFF" using header_encode_not_sentinel [OF hdr] by auto
  then have hd: "header_decode byte = Inr \<lparr>payload_version = 1, header_kind = packet_kind p,
      header_route = route_type p\<rparr>"
    using header_decode_encode [OF _ hdr] wf by (simp add: packet_wf_def)
  show ?thesis
  proof (cases "transport_codes p")
    case None
    then show ?thesis
      using codes len sem hd rp dec pl
      by (cases p) (simp add: packet_decode_def bs part codes_bytes_def protocol_limits slice_get_def
          packet_kind_def)
  next
    case (Some c)
    have tc: "length (transport_codes_encode c []) = 4" by (simp add: transport_codes_encode_def)
    have drop_tc: "drop (6 + length body) (byte # transport_codes_encode c [] @ b # body @ payload) = payload"
      using tc by (simp add: drop_Cons')
    with Some tc show ?thesis
      using codes len sem hd rp dec pl
      by (cases p) (simp add: packet_decode_def bs part codes_bytes_def protocol_limits slice_get_def
          packet_kind_def get_from_def transport_codes_decode_encode nth_append)
  qed
qed

lemma packet_encode_decode:
  assumes "packet_decode bs = Inr p"
  shows "packet_encode p = Inr bs" and "packet_wf p"
proof -
  obtain byte b body payload where
    bs: "bs = byte # codes_bytes (transport_codes p) @ (b # body) @ payload"
    and len: "length bs \<le> 255" "length payload \<le> 184"
    and hdr: "header_decode byte = Inr \<lparr>payload_version = 1, header_kind = packet_kind p,
               header_route = route_type p\<rparr>"
    and codes: "has_transport_codes (route_type p) = (transport_codes p \<noteq> None)"
    and path: "route_path_encode (packet_kind p) (packet_path p) = Inr (b # body)"
    and dec: "payload_decode (packet_kind p) payload = Inr (packet_payload p)"
    and sem: "validate_semantics p = Inr ()"
    using packet_decode_OkD [OF assms] by metis
  show "packet_encode p = Inr bs"
    using header_encode_decode [OF hdr] payload_codec.enc_dec [OF dec] len codes path sem bs
    unfolding packet_encode_Ok_iff by blast
  show "packet_wf p"
    using payload_codec.dec_wf [OF dec] header_decode_wf [OF hdr] by (simp add: packet_wf_def)
qed

section \<open>What routing keeps\<close>

lemma packet_encode_length: "packet_encode p = Inr bs \<Longrightarrow> length bs \<le> 255"
  by (auto simp: packet_encode_Ok_iff)

text \<open>A packet on a well-formed path encodes as soon as its payload fits: the path leaves room for it.\<close>

lemma packet_encodes:
  assumes "has_transport_codes (route_type p) = (transport_codes p \<noteq> None)"
    and "packet_path p = Normal path" and "path_wf path" and "packet_kind p \<noteq> KTrace"
    and "validate_semantics p = Inr ()"
    and "payload_encode (packet_payload p) = Inr pl" and "length pl \<le> 184"
  obtains bs where "packet_encode p = Inr bs"
proof -
  obtain byte where h: "header_encode \<lparr>payload_version = 1, header_kind = packet_kind p,
      header_route = route_type p\<rparr> = Inr byte"
    by (simp add: header_encode_def)
  obtain b where b: "path_encoded_length_byte path = Inr b"
    using assms(3) by (simp add: path_encoded_length_byte_def and_then_Ok_iff)
  have r: "route_path_encode (packet_kind p) (packet_path p) = Inr (b # path_bytes path)"
    using assms(2,4) b by (simp add: route_path_encode_def)
  have "length (byte # codes_bytes (transport_codes p) @ (b # path_bytes path) @ pl) \<le> 255"
    using assms(3,7)
    by (auto simp: codes_bytes_def transport_codes_encode_def path_wf_def u16_to_le_def split: option.split)
  with h r assms show thesis by (intro that) (auto simp: packet_encode_Ok_iff)
qed

text \<open>A flooded packet gains this node's hash as its last hop and nothing else.\<close>

lemma append_flood_hop_OkD:
  assumes "append_flood_hop p h = Inr p'"
  shows "\<exists>path path'. packet_path p = Normal path \<and> append_hash path h = Inr path'
    \<and> p' = p\<lparr>packet_path := Normal path'\<rparr>"
  using assms
  by (cases "packet_path p") (auto simp: append_flood_hop_def normal_path_def and_then_Ok_iff)

lemma packet_kind_path [simp]: "packet_kind (p\<lparr>packet_path := r\<rparr>) = packet_kind p"
  by (simp add: packet_kind_def)

lemma packet_wf_path [simp]: "packet_wf (p\<lparr>packet_path := r\<rparr>) = packet_wf p"
  by (simp add: packet_wf_def)

lemma check_transport_codes_path [simp]:
  "check_transport_codes (p\<lparr>packet_path := r\<rparr>) = check_transport_codes p"
  by (simp add: check_transport_codes_def)

text \<open>The signature ignores the path of a packet that is not a trace, and both a trace packet with a
  normal path before and after are rejected: moving a packet along never changes its signature.\<close>

lemma dedup_input_normal_path:
  assumes "packet_path p = Normal path"
  shows "dedup_input (p\<lparr>packet_path := Normal path'\<rparr>) = dedup_input p"
  using assms by (simp add: dedup_input_def)

lemma append_flood_hop_signature:
  "append_flood_hop p h = Inr p' \<Longrightarrow> dedup_signature C p' = dedup_signature C p"
  by (auto simp: dedup_signature_def dedup_input_normal_path dest!: append_flood_hop_OkD)

lemma consume_direct_hop_True:
  assumes "consume_direct_hop p h = Inr (True, p')"
  shows "\<exists>path. packet_path p = Normal path \<and> first_hash_matches path h
    \<and> p' = p\<lparr>packet_path := Normal (snd (remove_first_hash path))\<rparr>"
  using assms
  by (cases "packet_path p") (auto simp: consume_direct_hop_def normal_path_def and_then_Ok_iff split: if_splits)

lemma consume_direct_hop_False:
  "consume_direct_hop p h = Inr (False, p') \<Longrightarrow> p' = p"
  by (cases "packet_path p") (auto simp: consume_direct_hop_def normal_path_def and_then_Ok_iff split: if_splits)

lemma consume_direct_hop_signature:
  "consume_direct_hop p h = Inr (b, p') \<Longrightarrow> dedup_signature C p' = dedup_signature C p"
  by (cases b) (auto simp: dedup_signature_def dedup_input_normal_path
      dest!: consume_direct_hop_True consume_direct_hop_False)

lemma dedup_signature_length: "dedup_signature C p = Inr s \<Longrightarrow> length s = 8"
  by (auto simp: dedup_signature_def and_then_Ok_iff Let_def split: if_splits)

lemma no_panic_dedup_input [no_panic_intros, simp]: "no_panic (dedup_input p)"
  by (auto simp: dedup_input_def intro!: no_panic_intros split: route_path.split)

lemma no_panic_dedup_signature: "crypto_laws C \<Longrightarrow> no_panic (dedup_signature C p)"
  by (auto simp: dedup_signature_def Let_def crypto_lengths intro!: no_panic_intros)

text \<open>A decoded packet has a signature.\<close>

lemma decoded_dedup_signature:
  assumes "crypto_laws C" and "packet_decode bs = Inr p"
  shows "\<exists>s. dedup_signature C p = Inr s"
proof -
  obtain pp pl where codes: "has_transport_codes (route_type p) = (transport_codes p \<noteq> None)"
    and path: "route_path_encode (packet_kind p) (packet_path p) = Inr pp"
    and pl: "payload_encode (packet_payload p) = Inr pl"
    using packet_encode_decode(1) [OF assms(2)] by (auto simp: packet_encode_Ok_iff)
  have "\<exists>i. dedup_input p = Inr i"
    using codes path pl
    by (cases "packet_path p") (auto simp: dedup_input_def check_transport_codes_def route_path_encode_def
        and_then_Ok_iff split: if_splits)
  then show ?thesis
    using assms(1) by (auto simp: dedup_signature_def crypto_lengths)
qed

text \<open>Each hop of a trace raises the consumed count, and the trace is complete exactly when no hash
  is left to match.\<close>

lemma append_trace_snr_OkD:
  assumes "append_trace_snr p snr = Inr p'"
  shows "\<exists>t t'. packet_path p = TraceRoute t \<and> append_snr t snr = Inr t'
    \<and> p' = p\<lparr>packet_path := TraceRoute t'\<rparr>"
  using assms
  by (cases "packet_path p") (auto simp: append_trace_snr_def trace_path_opt_def and_then_Ok_iff)

lemma trace_complete_no_match:
  "trace_is_complete p = Inr True \<Longrightarrow> trace_next_hop_matches p h = Inr False"
  by (auto simp: trace_is_complete_def trace_next_hop_matches_def and_then_Ok_iff Let_def)

lemma trace_match_incomplete:
  "trace_next_hop_matches p h = Inr True \<Longrightarrow> trace_is_complete p = Inr False"
  by (auto simp: trace_is_complete_def trace_next_hop_matches_def and_then_Ok_iff Let_def
      split: if_splits)

text \<open>A zero-hop control payload leaves and arrives only on a direct packet with no hop.\<close>

lemma zero_hop_control_encode:
  assumes "packet_payload p = PControl c" and "zero_hop_only c" and "packet_encode p = Inr bs"
  shows "is_direct_zero_hop p"
  using assms by (auto simp: packet_encode_Ok_iff validate_semantics_def split: if_splits)

lemma zero_hop_control_decode:
  assumes "packet_decode bs = Inr p" and "packet_payload p = PControl c" and "zero_hop_only c"
  shows "is_direct_zero_hop p"
  using zero_hop_control_encode packet_encode_decode(1) assms by blast

lemma no_panic_packet_encode [no_panic_intros, simp]: "no_panic (packet_encode p)"
  by (auto simp: packet_encode_def Let_def intro!: no_panic_intros)

section \<open>Properties\<close>

text \<open>C1: Decoding and encoding are inverse: a buffer decodes to a packet exactly when that packet is
  well formed and encodes to exactly that buffer, so no packet has two encodings.\<close>

theorem packet_codec_exact: "packet_decode bs = Ok p \<longleftrightarrow> packet_wf p \<and> packet_encode p = Ok bs"
  using packet_decode_encode packet_encode_decode by blast

text \<open>C2: No buffer received from the radio makes the decoder index out of bounds or overflow, no packet
  makes the encoder do so, and what is encoded fits the 255 bytes of a transmission unit.\<close>

theorem packet_codec_total:
  "no_panic (packet_decode bs) \<and> no_panic (packet_encode p)
     \<and> (packet_encode p = Ok bs \<longrightarrow> length bs \<le> MAX_TRANS_UNIT)"
  using packet_encode_length by (simp add: MAX_TRANS_UNIT_def)

theorem packet_codec_total_witness:
  "length [0x0D :: u8, 0x00, 1, 2, 3, 4] \<le> MAX_TRANS_UNIT"
proof -
  let ?p = "\<lparr>route_type = Flood, transport_codes = None, packet_path = Normal path_empty,
             packet_payload = PAck \<lparr>ack_hash = [1, 2, 3, 4]\<rparr>\<rparr>"
  have "packet_encode ?p = Ok [0x0D, 0x00, 1, 2, 3, 4]" by code_simp
  then show ?thesis using packet_codec_total [of "[0x0D, 0x00, 1, 2, 3, 4]" ?p] by blast
qed

text \<open>C3: The duplicate-suppression signature of a packet does not depend on the hops it has taken: it is
  the same before and after a repeater appends itself to a flood path or removes itself from a direct
  path.\<close>

theorem hops_keep_signature:
  "(append_flood_hop p h = Ok p1 \<longrightarrow> dedup_signature C p1 = dedup_signature C p)
   \<and> (consume_direct_hop p h = Ok (b, p2) \<longrightarrow> dedup_signature C p2 = dedup_signature C p)"
  using append_flood_hop_signature consume_direct_hop_signature by blast

theorem hops_keep_signature_witness:
  "\<exists>p1. append_flood_hop \<lparr>route_type = Flood, transport_codes = None, packet_path = Normal path_empty,
      packet_payload = PAck \<lparr>ack_hash = [1, 2, 3, 4]\<rparr>\<rparr> [7, 8, 9, 10] = Ok p1
    \<and> dedup_signature toy_crypto p1 = dedup_signature toy_crypto
        \<lparr>route_type = Flood, transport_codes = None, packet_path = Normal path_empty,
         packet_payload = PAck \<lparr>ack_hash = [1, 2, 3, 4]\<rparr>\<rparr>"
proof -
  let ?p = "\<lparr>route_type = Flood, transport_codes = None, packet_path = Normal path_empty,
             packet_payload = PAck \<lparr>ack_hash = [1, 2, 3, 4]\<rparr>\<rparr>"
  let ?p1 = "\<lparr>route_type = Flood, transport_codes = None,
              packet_path = Normal \<lparr>path_hash_size = HashOne, path_bytes = [7]\<rparr>,
              packet_payload = PAck \<lparr>ack_hash = [1, 2, 3, 4]\<rparr>\<rparr>"
  have "append_flood_hop ?p [7, 8, 9, 10] = Ok ?p1" by code_simp
  then show ?thesis using hops_keep_signature [of ?p "[7, 8, 9, 10]" ?p1 toy_crypto] by blast
qed

text \<open>C11: A control message reserved to direct neighbours is only ever decoded from, or encoded into, a
  direct packet with an empty path.\<close>

theorem zero_hop_control_only:
  assumes "packet_payload p = PControl c" and "zero_hop_only c"
    and "packet_decode bs = Ok p \<or> packet_encode p = Ok bs"
  shows "is_direct (route_type p) \<and> (\<exists>path. packet_path p = Normal path \<and> hop_count path = 0)"
proof -
  have "is_direct_zero_hop p"
    using assms zero_hop_control_encode zero_hop_control_decode by blast
  then show ?thesis by (auto simp: is_direct_zero_hop_def split: route_path.splits)
qed

theorem zero_hop_control_only_witness:
  "is_direct (route_type \<lparr>route_type = Direct, transport_codes = None, packet_path = Normal path_empty,
      packet_payload = PControl \<lparr>cp_flags = 0x80, cp_data = []\<rparr>\<rparr>)"
proof -
  let ?c = "\<lparr>cp_flags = 0x80, cp_data = []\<rparr>"
  let ?p = "\<lparr>route_type = Direct, transport_codes = None, packet_path = Normal path_empty,
             packet_payload = PControl ?c\<rparr>"
  have "zero_hop_only ?c" "packet_encode ?p = Ok [0x2E, 0x00, 0x80]" by code_simp+
  then show ?thesis using zero_hop_control_only [of ?p ?c "[0x2E, 0x00, 0x80]"] by simp
qed

end
