(* ===== verification/Plaintexts.thy ===== *)
theory Plaintexts
  imports Packets
begin

text \<open>
  The plaintexts inside encrypted payloads (\<open>request_plaintext.rs\<close>, \<open>repeater_response_plaintext.rs\<close>,
  \<open>repeater_sub_request_plaintext.rs\<close>, \<open>repeater_login_response_plaintext.rs\<close>,
  \<open>text_message_plaintext.rs\<close>, \<open>path_plaintext.rs\<close>) and the keyed digests of the protocol
  (\<open>crypto.rs\<close>). The login response and the path plaintext ignore bits of their input, so they are
  decoders but not canonical codecs.
\<close>

definition RESP_SERVER_LOGIN_OK :: u8 where "RESP_SERVER_LOGIN_OK = 0"
definition PERM_ACL_GUEST :: u8 where "PERM_ACL_GUEST = 0"
definition PERM_ACL_READ_ONLY :: u8 where "PERM_ACL_READ_ONLY = 1"
definition PERM_ACL_READ_WRITE :: u8 where "PERM_ACL_READ_WRITE = 2"
definition PERM_ACL_ADMIN :: u8 where "PERM_ACL_ADMIN = 3"

section \<open>Requests and responses\<close>

record request_plaintext =
  rq_timestamp :: u32
  rq_request_data :: bytes

definition request_decode :: "bytes \<Rightarrow> request_plaintext result" where
  "request_decode input =
     and_then (ensure_payload_len input) (\<lambda>_.
     and_then (read_u32_le input 0 ''request timestamp'') (\<lambda>(timestamp, offset).
     and_then (slice_from input offset) (\<lambda>rest.
       Ok \<lparr>rq_timestamp = timestamp, rq_request_data = rest\<rparr>)))"

definition request_encode :: "request_plaintext \<Rightarrow> bytes" where
  "request_encode p = u32_to_le (rq_timestamp p) @ rq_request_data p"

interpretation request_codec: wire_codec "\<lambda>p. Inr (request_encode p)" request_decode "\<lambda>_. True"
proof unfold_locales
  fix x bs assume "Inr (request_encode x) = (Inr bs :: bytes result)" "length bs \<le> 184"
  then show "request_decode bs = Inr x"
    by (cases x) (auto simp: request_decode_def request_encode_def codec_eval)
next
  fix bs x assume "request_decode bs = Inr x"
  then show "Inr (request_encode x) = (Inr bs :: bytes result)"
    by (auto simp: request_decode_def request_encode_def codec_dec codec_join u32_of_le_split
        u32_to_of_le)
qed (auto simp: request_decode_def read_iffs intro!: no_panic_intros)

record repeater_response_plaintext =
  rr_reflected_tag :: u32
  rr_responder_time :: u32
  rr_body :: bytes

definition response_decode :: "bytes \<Rightarrow> repeater_response_plaintext result" where
  "response_decode input =
     and_then (ensure_payload_len input) (\<lambda>_.
     and_then (read_u32_le input 0 ''repeater response tag'') (\<lambda>(tag, offset).
     and_then (read_u32_le input offset ''repeater response time'') (\<lambda>(time, offset).
     and_then (slice_from input offset) (\<lambda>rest.
       Ok \<lparr>rr_reflected_tag = tag, rr_responder_time = time, rr_body = rest\<rparr>))))"

definition response_encode :: "repeater_response_plaintext \<Rightarrow> bytes" where
  "response_encode p = u32_to_le (rr_reflected_tag p) @ u32_to_le (rr_responder_time p) @ rr_body p"

interpretation response_codec: wire_codec "\<lambda>p. Inr (response_encode p)" response_decode "\<lambda>_. True"
proof unfold_locales
  fix x bs assume "Inr (response_encode x) = (Inr bs :: bytes result)" "length bs \<le> 184"
  then show "response_decode bs = Inr x"
    by (cases x) (auto simp: response_decode_def response_encode_def codec_eval)
next
  fix bs x assume "response_decode bs = Inr x"
  then show "Inr (response_encode x) = (Inr bs :: bytes result)"
    by (auto simp: response_decode_def response_encode_def codec_dec codec_join u32_of_le_split
        u32_to_of_le)
qed (auto simp: response_decode_def read_iffs intro!: no_panic_intros)

record repeater_sub_request_plaintext =
  sr_timestamp :: u32
  sr_req_type :: u8
  sr_reply_path :: path

definition sub_request_decode :: "bytes \<Rightarrow> repeater_sub_request_plaintext result" where
  "sub_request_decode input =
     and_then (read_u32_le input 0 ''repeater sub-request timestamp'') (\<lambda>(timestamp, offset).
     and_then (read_u8 input offset ''repeater sub-request type'') (\<lambda>(req_type, offset).
     and_then (read_u8 input offset ''repeater sub-request reply_path_length'') (\<lambda>(path_length, offset).
     and_then (slice_from input offset) (\<lambda>rest.
     and_then (path_decode_wire path_length rest) (\<lambda>(reply_path, used).
       if offset + used \<noteq> length input then Err (InvalidLength ''repeater sub-request reply_path'')
       else Ok \<lparr>sr_timestamp = timestamp, sr_req_type = req_type, sr_reply_path = reply_path\<rparr>)))))"

definition sub_request_encode :: "repeater_sub_request_plaintext \<Rightarrow> bytes result" where
  "sub_request_encode p =
     and_then (path_encoded_length_byte (sr_reply_path p)) (\<lambda>b.
       Ok (u32_to_le (sr_timestamp p) @ [sr_req_type p] @ [b] @ path_bytes (sr_reply_path p)))"

interpretation sub_request_codec:
  wire_codec sub_request_encode sub_request_decode "\<lambda>p. path_wf (sr_reply_path p)"
proof unfold_locales
  fix x bs
  assume "path_wf (sr_reply_path x)" and enc: "sub_request_encode x = Inr bs"
  then obtain b where b: "path_encoded_length_byte (sr_reply_path x) = Inr b"
    and bs: "bs = u32_to_le (sr_timestamp x) @ [sr_req_type x] @ [b] @ path_bytes (sr_reply_path x)"
    by (auto simp: sub_request_encode_def and_then_Ok_iff)
  show "sub_request_decode bs = Inr x"
    using path_decode_encode [OF b, of "[]"]
    by (cases x) (simp add: sub_request_decode_def bs codec_eval)
next
  fix bs x assume dec: "sub_request_decode bs = Inr x"
  then obtain t o1 ty o2 pl o3 rest rp used where
    r: "read_u32_le bs 0 ''repeater sub-request timestamp'' = Inr (t, o1)"
      "read_u8 bs o1 ''repeater sub-request type'' = Inr (ty, o2)"
      "read_u8 bs o2 ''repeater sub-request reply_path_length'' = Inr (pl, o3)"
      "slice_from bs o3 = (Inr rest :: bytes result)"
      "path_decode_wire pl rest = Inr (rp, used)"
      "(if o3 + used \<noteq> length bs then Err (InvalidLength ''repeater sub-request reply_path'')
       else Ok \<lparr>sr_timestamp = t, sr_req_type = ty, sr_reply_path = rp\<rparr>) = Inr x"
    unfolding sub_request_decode_def by (elim and_then_pair_OkE and_then_OkE) (rule that)
  have bs: "6 \<le> length bs" "6 + used = length bs" and x: "sr_timestamp x = u32_of_le (take 4 bs)"
      "sr_req_type x = bs ! 4" and p: "path_decode_wire (bs ! 5) (drop 6 bs) = Inr (sr_reply_path x, used)"
    using r by (simp_all add: read_iffs slice_iffs if_Err_iff) (auto simp: eval_nat_numeral)
  note D = path_decode_wire_OkD [OF p]
  have "take 4 bs @ bs ! 4 # bs ! 5 # drop 6 bs = bs"
    using bs by (simp add: Cons_nth_drop_Suc eval_nat_numeral)
  with D bs show "sub_request_encode x = Inr bs"
    by (simp add: sub_request_encode_def x u32_to_of_le)
  show "path_wf (sr_reply_path x)" by (rule D(1))
qed (auto simp: sub_request_decode_def read_iffs intro!: no_panic_intros)

section \<open>Login responses\<close>

record repeater_login_response_plaintext =
  lr_server_timestamp :: u32
  lr_keep_alive_interval :: u8
  lr_legacy_permissions :: u8
  lr_acl_permissions :: u8
  lr_nonce :: bytes
  lr_firmware_version_level :: u8

definition login_response_decode :: "bytes \<Rightarrow> repeater_login_response_plaintext result" where
  "login_response_decode input =
     and_then (read_u32_le input 0 ''repeater login timestamp'') (\<lambda>(server_timestamp, offset).
     and_then (read_u8 input offset ''repeater login status'') (\<lambda>(status, offset).
       if status \<noteq> RESP_SERVER_LOGIN_OK then Err (InvalidLength ''repeater login response status'')
       else
         and_then (read_u8 input offset ''repeater login keep_alive'') (\<lambda>(keep_alive, offset).
         and_then (read_u8 input offset ''repeater login legacy_permissions'') (\<lambda>(legacy, offset).
         and_then (read_u8 input offset ''repeater login acl_permissions'') (\<lambda>(acl, offset).
         and_then (read_array 4 input offset ''repeater login nonce'') (\<lambda>(nonce, offset).
         and_then (read_u8 input offset ''repeater login firmware'') (\<lambda>(firmware, offset).
           Ok \<lparr>lr_server_timestamp = server_timestamp, lr_keep_alive_interval = keep_alive,
               lr_legacy_permissions = legacy, lr_acl_permissions = acl, lr_nonce = nonce,
               lr_firmware_version_level = firmware\<rparr>)))))))"

definition login_response_encode :: "repeater_login_response_plaintext \<Rightarrow> bytes" where
  "login_response_encode p =
     u32_to_le (lr_server_timestamp p) @ [RESP_SERVER_LOGIN_OK] @ [lr_keep_alive_interval p]
     @ [lr_legacy_permissions p] @ [lr_acl_permissions p] @ lr_nonce p
     @ [lr_firmware_version_level p]"

text \<open>The response decodes also with bytes after it, as AES padding leaves them.\<close>

lemma login_response_decode_padded:
  assumes "length (lr_nonce p) = 4"
  shows "login_response_decode (login_response_encode p @ padding) = Inr p"
  using assms
  by (cases p) (simp add: login_response_decode_def login_response_encode_def codec_eval)

interpretation login_response_codec:
  wire_decoder "\<lambda>p. Inr (login_response_encode p)" login_response_decode "\<lambda>p. length (lr_nonce p) = 4"
proof unfold_locales
  fix x bs
  assume "length (lr_nonce x) = 4" "Inr (login_response_encode x) = (Inr bs :: bytes result)"
  then show "login_response_decode bs = Inr x"
    using login_response_decode_padded [of x "[]"] by simp
qed (auto simp: login_response_decode_def codec_dec if_Err_iff intro!: no_panic_intros)

section \<open>Text messages\<close>

record text_message_plaintext =
  tm_timestamp :: u32
  tm_text_type :: text_type
  tm_attempt :: u8
  tm_message :: bytes

definition text_message_decode :: "bytes \<Rightarrow> text_message_plaintext result" where
  "text_message_decode input =
     and_then (ensure_payload_len input) (\<lambda>_.
     and_then (read_u32_le input 0 ''text timestamp'') (\<lambda>(timestamp, offset).
     and_then (read_u8 input offset ''text type_attempt'') (\<lambda>(packed, offset).
     and_then (slice_from input offset) (\<lambda>message.
       if MAX_TEXT_LEN < length message then Err (InvalidLength ''text message'')
       else Ok \<lparr>tm_timestamp = timestamp, tm_text_type = text_type_from_bits (drop_bit 2 packed),
                tm_attempt = packed AND 0x03, tm_message = message\<rparr>))))"

definition text_message_encode :: "text_message_plaintext \<Rightarrow> bytes result" where
  "text_message_encode p =
     (if MAX_TEXT_LEN < length (tm_message p) then Err (InvalidLength ''text message'')
      else Ok (u32_to_le (tm_timestamp p)
               @ [push_bit 2 (text_type_to_bits (tm_text_type p)) OR (tm_attempt p AND 0x03)]
               @ tm_message p))"

definition text_message_wf :: "text_message_plaintext \<Rightarrow> bool" where
  "text_message_wf p \<longleftrightarrow> text_type_wf (tm_text_type p) \<and> tm_attempt p AND 0x03 = tm_attempt p"

lemma two_bits_join:
  fixes b t a :: u8
  shows "push_bit 2 (drop_bit 2 b) OR (b AND 0x03) = b"
    and "(push_bit 2 t OR (a AND 0x03)) AND 0x03 = a AND 0x03"
    and "t AND 0x3F = t \<Longrightarrow> drop_bit 2 (push_bit 2 t OR (a AND 0x03)) = t"
    and "drop_bit 2 b AND 0x3F = drop_bit 2 b"
proof -
  have m: "(0x03 :: u8) = mask 2" "(0x3F :: u8) = mask 6" by (simp_all add: mask_eq_exp_minus_1)
  show "push_bit 2 (drop_bit 2 b) OR (b AND 0x03) = b"
  proof (rule bit_word_eqI)
    fix n :: nat
    assume "n < LENGTH(8)"
    moreover have "2 \<le> n \<Longrightarrow> Suc (Suc (n - 2)) = n" by simp
    ultimately show "bit (push_bit 2 (drop_bit 2 b) OR (b AND 0x03)) n = bit b n"
      unfolding m by (cases "n < 2") (auto simp: bit_simps)
  qed
  show "(push_bit 2 t OR (a AND 0x03)) AND 0x03 = a AND 0x03"
    unfolding m by (rule bit_word_eqI) (auto simp: bit_simps)
  show "t AND 0x3F = t \<Longrightarrow> drop_bit 2 (push_bit 2 t OR (a AND 0x03)) = t"
  proof (rule bit_word_eqI)
    fix n :: nat
    assume t: "t AND 0x3F = t" and n: "n < LENGTH(8)"
    have "\<not> bit t k" if "6 \<le> k" for k
      using that t unfolding m by (metis bit_and_iff bit_mask_iff not_le)
    with n show "bit (drop_bit 2 (push_bit 2 t OR (a AND 0x03))) n = bit t n"
      unfolding m by (cases "n < 6") (auto simp: bit_simps)
  qed
  show "drop_bit 2 b AND 0x3F = drop_bit 2 b"
  proof (unfold m, rule bit_word_eqI)
    fix n :: nat
    show "bit (drop_bit 2 b AND mask 6) n = bit (drop_bit 2 b) n"
      by (cases "n < 6") (auto simp: bit_simps)
  qed
qed

interpretation text_message_codec: wire_codec text_message_encode text_message_decode text_message_wf
proof unfold_locales
  fix x bs
  assume wf: "text_message_wf x" and enc: "text_message_encode x = Inr bs" and "length bs \<le> 184"
  let ?b = "push_bit 2 (text_type_to_bits (tm_text_type x)) OR (tm_attempt x AND 0x03)"
  have "drop_bit 2 ?b = text_type_to_bits (tm_text_type x)"
    by (rule two_bits_join(3)) (rule text_code.to_masked)
  then have b: "text_type_from_bits (drop_bit 2 ?b) = tm_text_type x"
    using wf by (simp only: text_code.from_to text_message_wf_def)
  have a: "?b AND 0x03 = tm_attempt x"
    using wf two_bits_join(2) [of "text_type_to_bits (tm_text_type x)" "tm_attempt x"]
    by (simp add: text_message_wf_def)
  have bs: "bs = u32_to_le (tm_timestamp x) @ [?b] @ tm_message x" and len: "length (tm_message x) \<le> 160"
    using enc by (auto simp: text_message_encode_def MAX_TEXT_LEN_def split: if_splits)
  show "text_message_decode bs = Inr x"
    using len a b unfolding bs
    by (cases x) (simp add: text_message_decode_def codec_eval MAX_TEXT_LEN_def)
next
  fix bs x assume "text_message_decode bs = Inr x"
  then obtain t o1 pk o2 msg where
    r: "read_u32_le bs 0 ''text timestamp'' = Inr (t, o1)"
      "read_u8 bs o1 ''text type_attempt'' = Inr (pk, o2)"
      "slice_from bs o2 = (Inr msg :: bytes result)"
      "(if MAX_TEXT_LEN < length msg then Err (InvalidLength ''text message'')
       else Ok \<lparr>tm_timestamp = t, tm_text_type = text_type_from_bits (drop_bit 2 pk),
                tm_attempt = pk AND 0x03, tm_message = msg\<rparr>) = Inr x"
    unfolding text_message_decode_def by (elim and_then_pair_OkE and_then_OkE) (rule that)
  have bs: "5 \<le> length bs" "length (drop 5 bs) \<le> 160"
    and x: "x = \<lparr>tm_timestamp = u32_of_le (take 4 bs),
      tm_text_type = text_type_from_bits (drop_bit 2 (bs ! 4)),
      tm_attempt = bs ! 4 AND 0x03, tm_message = drop 5 bs\<rparr>"
    using r by (auto simp: read_iffs slice_iffs if_Err_iff MAX_TEXT_LEN_def)
  have "take 4 bs @ bs ! 4 # drop 5 bs = bs"
    using bs by (simp add: Cons_nth_drop_Suc eval_nat_numeral)
  then show "text_message_encode x = Inr bs"
    using bs two_bits_join(1) [of "bs ! 4"]
    by (simp add: text_message_encode_def x MAX_TEXT_LEN_def text_code.to_from two_bits_join(4)
        u32_to_of_le and.assoc)
  show "text_message_wf x"
    by (simp add: text_message_wf_def x text_code.from_wf and.assoc)
qed (auto simp: text_message_decode_def read_iffs intro!: no_panic_intros)

section \<open>Path plaintexts\<close>

record path_plaintext =
  pp_path :: path
  pp_extra_type :: "payload_kind option"
  pp_extra_payload :: bytes

definition path_plaintext_decode :: "bytes \<Rightarrow> path_plaintext result" where
  "path_plaintext_decode input =
     and_then (ensure_payload_len input) (\<lambda>_.
     and_then (ok_or (slice_get input 0) (Truncated ''path plaintext'')) (\<lambda>path_length.
     and_then (slice_from input 1) (\<lambda>rest.
     and_then (path_decode_wire path_length rest) (\<lambda>(path, used).
     let extra_offset = 1 + used in
     and_then (ok_or (slice_get input extra_offset) (Truncated ''path plaintext extra_type'')) (\<lambda>extra_type_byte.
     let extra_type = (if extra_type_byte = 0xFF then None
                       else Some (payload_kind_from_nibble extra_type_byte)) in
     and_then (slice_from input (extra_offset + 1)) (\<lambda>extra_payload.
       Ok \<lparr>pp_path = path, pp_extra_type = extra_type, pp_extra_payload = extra_payload\<rparr>))))))"

definition path_plaintext_encode :: "path_plaintext \<Rightarrow> bytes result" where
  "path_plaintext_encode p =
     and_then (path_encoded_length_byte (pp_path p)) (\<lambda>b.
       Ok ([b] @ path_bytes (pp_path p)
           @ [case pp_extra_type p of None \<Rightarrow> 0xFF | Some k \<Rightarrow> payload_kind_to_nibble k]
           @ pp_extra_payload p))"

definition path_plaintext_wf :: "path_plaintext \<Rightarrow> bool" where
  "path_plaintext_wf p \<longleftrightarrow> path_wf (pp_path p)
     \<and> (case pp_extra_type p of None \<Rightarrow> True | Some k \<Rightarrow> payload_kind_wf k)"

lemma payload_kind_to_nibble_not_FF: "payload_kind_to_nibble k \<noteq> 0xFF"
proof
  assume h: "payload_kind_to_nibble k = 0xFF"
  from payload_kind_to_nibble_low [of k] show False unfolding h by simp
qed

interpretation path_plaintext_codec:
  wire_decoder path_plaintext_encode path_plaintext_decode path_plaintext_wf
proof unfold_locales
  fix x bs
  assume wf: "path_plaintext_wf x" and enc: "path_plaintext_encode x = Inr bs" and len: "length bs \<le> 184"
  obtain path et pl where x: "x = \<lparr>pp_path = path, pp_extra_type = et, pp_extra_payload = pl\<rparr>"
    by (cases x)
  let ?e = "case et of None \<Rightarrow> 0xFF | Some k \<Rightarrow> payload_kind_to_nibble k"
  obtain b where b: "path_encoded_length_byte (pp_path x) = Inr b"
    and bs: "bs = b # path_bytes path @ ?e # pl"
    using enc by (auto simp: path_plaintext_encode_def and_then_Ok_iff x)
  have "path_plaintext_decode bs = Inr \<lparr>pp_path = path, pp_extra_type =
      (if ?e = 0xFF then None else Some (payload_kind_from_nibble ?e)), pp_extra_payload = pl\<rparr>"
    using len path_decode_encode [OF b] unfolding bs x
    by (simp add: path_plaintext_decode_def slice_get_def nth_append Let_def)
  moreover have "(if ?e = 0xFF then None else Some (payload_kind_from_nibble ?e)) = et"
    using wf by (auto simp: path_plaintext_wf_def payload_kind_to_nibble_not_FF x split: option.split)
  ultimately show "path_plaintext_decode bs = Inr x" by (simp only: x)
next
  fix bs x assume "path_plaintext_decode bs = Inr x"
  then obtain b rest path used e pl where
    "path_decode_wire b rest = Inr (path, used)" and
    "x = \<lparr>pp_path = path,
       pp_extra_type = (if e = 0xFF then None else Some (payload_kind_from_nibble e)),
       pp_extra_payload = pl\<rparr>"
    unfolding path_plaintext_decode_def Let_def by (elim and_then_pair_OkE and_then_OkE) (auto dest: that)
  then show "path_plaintext_wf x"
    by (auto simp: path_plaintext_wf_def path_decode_wire_OkD)
qed (auto simp: path_plaintext_decode_def slice_iffs Let_def Suc_le_eq intro!: no_panic_intros)

section \<open>Digests of the protocol\<close>

definition derive_transport_code :: "crypto \<Rightarrow> bytes \<Rightarrow> payload_kind \<Rightarrow> bytes \<Rightarrow> u16" where
  "derive_transport_code C transport_key payload_kind payload_bytes =
     (let digest = hmac_sha256 C transport_key ([payload_kind_to_nibble payload_kind] @ payload_bytes);
          code = u16_of_le [digest ! 0, digest ! 1]
      in if code = 0x0000 then 0x0001 else if code = 0xFFFF then 0xFFFE else code)"

definition channel_hash :: "crypto \<Rightarrow> bytes \<Rightarrow> u8" where
  "channel_hash C channel_secret = sha256 C channel_secret ! 0"

definition node_hash :: "nat \<Rightarrow> bytes \<Rightarrow> bytes" where
  "node_hash n public_key =
     (let copy_len = min n PUB_KEY_SIZE
      in take copy_len public_key @ drop copy_len (replicate n 0))"

definition first_four :: "bytes \<Rightarrow> bytes" where
  "first_four digest = take 4 digest"

definition ack_hash_for_plain_text :: "crypto \<Rightarrow> u32 \<Rightarrow> u8 \<Rightarrow> bytes \<Rightarrow> bytes \<Rightarrow> bytes" where
  "ack_hash_for_plain_text C timestamp txt_type_attempt message_text sender_public_key =
     first_four (sha256 C (u32_to_le timestamp @ [txt_type_attempt] @ message_text @ sender_public_key))"

definition ack_hash_for_signed_plain_text ::
  "crypto \<Rightarrow> u32 \<Rightarrow> u8 \<Rightarrow> bytes \<Rightarrow> bytes \<Rightarrow> bytes \<Rightarrow> bytes"
where
  "ack_hash_for_signed_plain_text C timestamp txt_type_attempt sender_pubkey_prefix message_text
       recipient_public_key =
     first_four (sha256 C (u32_to_le timestamp @ [txt_type_attempt] @ sender_pubkey_prefix
                           @ message_text @ recipient_public_key))"

text \<open>The two codes kept for "no region" never come out of the derivation.\<close>

lemma derive_transport_code_reserved:
  "derive_transport_code C key kind bs \<noteq> 0 \<and> derive_transport_code C key kind bs \<noteq> 0xFFFF"
  by (simp add: derive_transport_code_def Let_def)

lemma node_hash_length: "length public_key = 32 \<Longrightarrow> length (node_hash n public_key) = n"
  by (simp add: node_hash_def PUB_KEY_SIZE_def Let_def min_def)

lemma node_hash_prefix:
  "length public_key = 32 \<Longrightarrow> n \<le> 32 \<Longrightarrow> node_hash n public_key = take n public_key"
  by (simp add: node_hash_def PUB_KEY_SIZE_def Let_def)

text \<open>A node recognises itself by any of its hash widths.\<close>

lemma hash_matches_node_hash:
  "length public_key = 32 \<Longrightarrow> m \<le> n \<Longrightarrow> n \<le> 32 \<Longrightarrow>
     hash_matches (node_hash m public_key) (node_hash n public_key)"
  by (simp add: node_hash_prefix hash_matches_def min_def)

lemma ack_hash_length:
  assumes "crypto_laws C"
  shows "length (ack_hash_for_plain_text C t a m k) = 4"
    and "length (ack_hash_for_signed_plain_text C t a p m k) = 4"
  using assms
  by (simp_all add: ack_hash_for_plain_text_def ack_hash_for_signed_plain_text_def first_four_def
      crypto_lengths)

section \<open>Properties\<close>

text \<open>C13: The plaintexts a repeater exchanges with its clients survive the wire: within the size of a
  payload a text message decodes from exactly the buffer its encoder produces, and a returned path
  decodes to the path that was encoded.\<close>

theorem plaintext_codecs:
  assumes "length bs \<le> MAX_PACKET_PAYLOAD"
  shows "(text_message_decode bs = Ok m \<longleftrightarrow> text_message_wf m \<and> text_message_encode m = Ok bs)
   \<and> (path_plaintext_wf q \<and> path_plaintext_encode q = Ok bs \<longrightarrow> path_plaintext_decode bs = Ok q)"
  using assms text_message_codec.accepted_iff path_plaintext_codec.dec_enc
  by (simp add: MAX_PACKET_PAYLOAD_def)

theorem plaintext_codecs_witness:
  "path_plaintext_decode [0x02, 7, 8, 0x05, 1]
     = Ok \<lparr>pp_path = \<lparr>path_hash_size = HashOne, path_bytes = [7, 8]\<rparr>,
           pp_extra_type = Some KGroupText, pp_extra_payload = [1]\<rparr>"
proof -
  let ?q = "\<lparr>pp_path = \<lparr>path_hash_size = HashOne, path_bytes = [7, 8]\<rparr>,
             pp_extra_type = Some KGroupText, pp_extra_payload = [1]\<rparr>"
  have "path_plaintext_encode ?q = Ok [0x02, 7, 8, 0x05, 1]" by code_simp
  moreover have "path_plaintext_wf ?q" by code_simp
  moreover have "length [0x02 :: u8, 7, 8, 0x05, 1] \<le> MAX_PACKET_PAYLOAD" by code_simp
  ultimately show ?thesis
    using plaintext_codecs [of "[0x02, 7, 8, 0x05, 1]" undefined ?q] by blast
qed

text \<open>The transport code of a scoped flood never takes one of the two reserved values.\<close>

lemma transport_code_not_reserved:
  "derive_transport_code C key kind bs \<notin> {0, 0xFFFF}"
  using derive_transport_code_reserved by blast

end
