(* ===== verification/Identity.thy ===== *)
theory Identity
  imports Hex Plaintexts
begin

text \<open>
  The node's identity (\<open>app/identity.rs\<close>): its private key, as a seed or in the expanded form MeshCore
  exports, and what derives from it.
\<close>

definition NODE_HASH_SIZE :: nat where "NODE_HASH_SIZE = 4"

definition REMOTE_CLI_PASSWORD :: rstr where "REMOTE_CLI_PASSWORD = lit ''meshcore''"

datatype private_key = Seed bytes | Expanded bytes

fun private_key_bytes :: "private_key \<Rightarrow> bytes" where
  "private_key_bytes (Seed bytes) = bytes"
| "private_key_bytes (Expanded bytes) = bytes"

fun private_key_config_key :: "private_key \<Rightarrow> rstr" where
  "private_key_config_key (Seed _) = lit ''identity.seed''"
| "private_key_config_key (Expanded _) = lit ''identity.expanded''"

text \<open>Lengths are counted in bytes; the pairs are pairs of bytes, each read as a character.\<close>

definition hex_array :: "nat \<Rightarrow> rstr \<Rightarrow> bytes option" where
  "hex_array n input =
     (if str_len input \<noteq> n * 2 then None
      else decode_pairs pair_value (map unat (str_bytes input)))"

definition private_key_from_hex :: "rstr \<Rightarrow> private_key option" where
  "private_key_from_hex input =
     (if str_len input = 64 then map_option Seed (hex_array 32 input)
      else if str_len input = 128 then
        do { bytes \<leftarrow> hex_array 64 input;
             if bytes ! 0 AND 7 \<noteq> 0 \<or> bytes ! 31 AND 0xC0 \<noteq> 0x40 then None
             else Some (Expanded bytes) }
      else None)"

fun expanded_bytes :: "crypto \<Rightarrow> private_key \<Rightarrow> bytes" where
  "expanded_bytes C (Seed seed) = sha512 C seed"
| "expanded_bytes C (Expanded bytes) = bytes"

record identity =
  id_public_key :: bytes
  id_node_hash :: bytes
  id_x25519_scalar :: bytes
  id_private_key :: private_key

definition identity_from_private_key :: "crypto \<Rightarrow> private_key \<Rightarrow> identity" where
  "identity_from_private_key C private_key =
     (let expanded = expanded_bytes C private_key;
          public_key = ed25519_public C expanded
      in \<lparr>id_public_key = public_key, id_node_hash = node_hash NODE_HASH_SIZE public_key,
          id_x25519_scalar = take 32 expanded, id_private_key = private_key\<rparr>)"

definition identity_sign :: "crypto \<Rightarrow> identity \<Rightarrow> bytes \<Rightarrow> bytes" where
  "identity_sign C i message =
     (case id_private_key i of
        Seed seed \<Rightarrow> ed25519_sign C seed message
      | Expanded bytes \<Rightarrow> ed25519_raw_sign C bytes message)"

definition shared_secret_with :: "crypto \<Rightarrow> identity \<Rightarrow> bytes \<Rightarrow> bytes option" where
  "shared_secret_with C i peer_public_key =
     do { shared \<leftarrow> x25519_shared C (id_x25519_scalar i) peer_public_key;
          if shared = replicate 32 0 then None else Some shared }"

section \<open>Keys and identities\<close>

definition private_key_wf :: "private_key \<Rightarrow> bool" where
  "private_key_wf k = (case k of
     Seed bs \<Rightarrow> length bs = 32
   | Expanded bs \<Rightarrow> length bs = 64 \<and> bs ! 0 AND 7 = 0 \<and> bs ! 31 AND 0xC0 = 0x40)"

lemma ascii_bytes_unat:
  "(\<forall>c \<in> set s. c < 128) \<Longrightarrow> map unat (str_bytes s) = s"
proof (induction s)
  case (Cons c s)
  then have "map unat (char_bytes c) = char_nats c"
    by (intro map_unat_char_bytes) (simp add: is_scalar_def)
  with Cons show ?case by (simp add: char_nats_cases)
qed (simp add: str_bytes_def)

lemma hex_array_hex_bytes: "length bs = n \<Longrightarrow> hex_array n (hex_bytes bs) = Some bs"
proof -
  assume "length bs = n"
  moreover have a: "\<forall>c \<in> set (hex_bytes bs). c < 128" using hex_bytes_chars by blast
  ultimately show ?thesis
    by (simp add: hex_array_def ascii_bytes_unat [OF a] decode_pairs_hex_bytes)
qed

lemma hex_array_length: "hex_array n s = Some bs \<Longrightarrow> length bs = n"
  by (auto simp: hex_array_def str_len_def dest!: decode_pairs_length split: if_splits)

text \<open>A key read from text is well formed, and a well-formed key written in hexadecimal reads back.\<close>

lemma private_key_from_hex_wf: "private_key_from_hex s = Some k \<Longrightarrow> private_key_wf k"
  by (auto simp: private_key_from_hex_def private_key_wf_def Option.bind_eq_Some_conv
      dest: hex_array_length split: if_splits)

lemma private_key_round_trip:
  "private_key_wf k \<Longrightarrow> private_key_from_hex (hex_bytes (private_key_bytes k)) = Some k"
  by (cases k) (simp_all add: private_key_from_hex_def private_key_wf_def hex_array_hex_bytes)

lemma identity_lengths:
  fixes C :: crypto and k :: private_key
  assumes "crypto_laws C"
  defines "i \<equiv> identity_from_private_key C k"
  shows "length (id_public_key i) = 32" and "length (id_node_hash i) = 4"
    and "id_node_hash i = take 4 (id_public_key i)" and "id_private_key i = k"
  using assms crypto_lengths(4) [OF assms(1)]
  by (simp_all add: identity_from_private_key_def Let_def NODE_HASH_SIZE_def node_hash_length
      node_hash_prefix)

lemma identity_sign_length: "crypto_laws C \<Longrightarrow> length (identity_sign C i m) = 64"
  by (simp add: identity_sign_def crypto_lengths split: private_key.split)

section \<open>Properties\<close>

text \<open>A private key, in either of its two forms, is read back from the hexadecimal text that shows
  it, and whatever text is accepted gives a key of the length its form has.\<close>

lemma private_key_text:
  "(private_key_wf k \<longrightarrow> private_key_from_hex (hex_bytes (private_key_bytes k)) = Some k)
   \<and> (private_key_from_hex s = Some k \<longrightarrow> private_key_wf k)"
  using private_key_round_trip private_key_from_hex_wf by blast

theorem private_key_text_witness:
  "private_key_from_hex (hex_bytes (replicate 32 0x5A)) = Some (Seed (replicate 32 0x5A))"
  using private_key_text [of "Seed (replicate 32 0x5A)" "[]"] by (simp add: private_key_wf_def)

end
