(* ===== verification/Rust_List.thy ===== *)
theory Rust_List
  imports Prelude "HOL-Library.Multiset"
begin

text \<open>
  The vector operations of the sources: \<open>iter().position\<close>, \<open>Vec::remove\<close>, \<open>Vec::insert\<close>, and the
  insertion of a keyed element behind the elements with a key not above its own.
\<close>

fun position :: "('a \<Rightarrow> bool) \<Rightarrow> 'a list \<Rightarrow> nat option" where
  "position P [] = None"
| "position P (x # xs) = (if P x then Some 0 else map_option Suc (position P xs))"

definition remove_at :: "nat \<Rightarrow> 'a list \<Rightarrow> 'a list" where
  "remove_at i xs = take i xs @ drop (Suc i) xs"

definition insert_at :: "nat \<Rightarrow> 'a \<Rightarrow> 'a list \<Rightarrow> 'a list" where
  "insert_at i x xs = take i xs @ x # drop i xs"

lemma position_Some_iff:
  "position P xs = Some i \<longleftrightarrow> i < length xs \<and> P (xs ! i) \<and> (\<forall>j < i. \<not> P (xs ! j))"
proof (induction xs arbitrary: i)
  case (Cons x xs)
  show ?case
    by (cases i) (auto simp: Cons less_Suc_eq_0_disj all_conj_distrib)
qed simp

lemma position_None_iff [simp]: "position P xs = None \<longleftrightarrow> (\<forall>x \<in> set xs. \<not> P x)"
  by (induction xs) auto

lemma position_SomeD:
  "position P xs = Some i \<Longrightarrow> i < length xs \<and> P (xs ! i) \<and> xs ! i \<in> set xs"
  by (simp add: position_Some_iff)

lemma remove_at_mset: "i < length xs \<Longrightarrow> mset xs = add_mset (xs ! i) (mset (remove_at i xs))"
  unfolding remove_at_def
  by (subst id_take_nth_drop [of i xs]) (auto simp: union_commute)

lemma insert_at_mset [simp]: "mset (insert_at i x xs) = add_mset x (mset xs)"
  unfolding insert_at_def by (metis append_take_drop_id mset.simps(2) mset_append union_mset_add_mset_right)

lemma length_remove_at [simp]: "i < length xs \<Longrightarrow> length (remove_at i xs) = length xs - 1"
  by (simp add: remove_at_def)

lemma length_insert_at [simp]: "length (insert_at i x xs) = Suc (length xs)"
  by (simp add: insert_at_def)

lemma set_insert_at [simp]: "set (insert_at i x xs) = insert x (set xs)"
  by (metis insert_at_mset set_mset_add_mset_insert set_mset_mset)

lemma set_remove_at_subset: "set (remove_at i xs) \<subseteq> set xs"
  unfolding remove_at_def by (auto dest: in_set_takeD in_set_dropD)

text \<open>Removing at the position of a property drops the first element that has it.\<close>

lemma remove_at_position_eq:
  "position P xs = Some i \<Longrightarrow>
     remove_at i xs = takeWhile (\<lambda>x. \<not> P x) xs @ tl (dropWhile (\<lambda>x. \<not> P x) xs)"
proof (induction xs arbitrary: i)
  case (Cons x xs)
  then show ?case by (auto simp: remove_at_def split: if_splits)
qed simp

lemma remove_at_simps [simp]:
  "remove_at i [] = []" "remove_at 0 (x # xs) = xs"
  "remove_at (Suc i) (x # xs) = x # remove_at i xs"
  by (simp_all add: remove_at_def)

lemma in_set_remove_at: "x \<in> set (remove_at i xs) \<Longrightarrow> x \<in> set xs"
  by (rule subsetD [OF set_remove_at_subset])

lemma distinct_remove_at: "distinct (map f xs) \<Longrightarrow> distinct (map f (remove_at i xs))"
proof (induction xs arbitrary: i)
  case (Cons x xs)
  then show ?case by (cases i) (auto dest: in_set_remove_at)
qed simp

lemma sorted_remove_at: "sorted (map f xs) \<Longrightarrow> sorted (map f (remove_at i xs))"
proof (induction xs arbitrary: i)
  case (Cons x xs)
  then show ?case by (cases i) (auto dest: in_set_remove_at)
qed simp

lemma map_remove_at: "map f (remove_at i xs) = remove_at i (map f xs)"
  by (simp add: remove_at_def take_map drop_map)

lemma remove_at_position_filter:
  assumes "distinct (map f xs)" and "position (\<lambda>x. f x = k) xs = Some i"
  shows "remove_at i xs = filter (\<lambda>x. f x \<noteq> k) xs"
  using assms
proof (induction xs arbitrary: i)
  case (Cons x xs)
  show ?case
  proof (cases "f x = k")
    case True
    with Cons.prems have "filter (\<lambda>x. f x \<noteq> k) xs = xs"
      by (intro filter_True) (auto dest: rev_image_eqI)
    with True Cons.prems(2) show ?thesis by (auto simp: remove_at_def)
  next
    case False
    with Cons.prems obtain j where j: "position (\<lambda>x. f x = k) xs = Some j" "i = Suc j" by auto
    with Cons False show ?thesis by (auto simp: remove_at_def)
  qed
qed simp

section \<open>Insertion by key, after equal keys\<close>

definition insert_by_key :: "('a \<Rightarrow> 'k::linorder) \<Rightarrow> 'a \<Rightarrow> 'a list \<Rightarrow> 'a list" where
  "insert_by_key key x xs =
     insert_at (case position (\<lambda>y. key x < key y) xs of Some i \<Rightarrow> i | None \<Rightarrow> length xs) x xs"

lemma insert_by_key_simps [simp]:
  "insert_by_key key x [] = [x]"
  "insert_by_key key x (y # ys) = (if key x < key y then x # y # ys else y # insert_by_key key x ys)"
  by (auto simp: insert_by_key_def insert_at_def simp del: position_None_iff split: option.split)

lemma mset_insert_by_key [simp]: "mset (insert_by_key key x xs) = add_mset x (mset xs)"
  by (simp add: insert_by_key_def)

lemma set_insert_by_key [simp]: "set (insert_by_key key x xs) = insert x (set xs)"
  by (simp add: insert_by_key_def)

lemma length_insert_by_key [simp]: "length (insert_by_key key x xs) = Suc (length xs)"
  by (simp add: insert_by_key_def)

lemma sorted_insert_by_key:
  "sorted (map key xs) \<Longrightarrow> sorted (map key (insert_by_key key x xs))"
  by (induction xs) auto

text \<open>The insertion is stable: among equal keys the new element comes last.\<close>

lemma insert_by_key_stable:
  "sorted (map key xs) \<Longrightarrow>
     filter (\<lambda>y. key y = k) (insert_by_key key x xs)
       = filter (\<lambda>y. key y = k) xs @ (if key x = k then [x] else [])"
proof (induction xs)
  case (Cons y ys)
  have "key x < key y \<Longrightarrow> filter (\<lambda>z. key z = key x) (y # ys) = []"
    using Cons.prems by (auto simp: filter_empty_conv)
  with Cons show ?case by auto
qed simp

end
