(* ===== verification/Regions.thy ===== *)
theory Regions
  imports Plaintexts Rust_Text Rust_List
begin

text \<open>
  The region table of the repeater (\<open>app/regions.rs\<close>): named flood scopes with a deny flag, one of
  them the default, and the transport codes by which a scoped flood names its region. Operations that
  leave the table alone when they fail return the new table; the two that may fail after a change
  return the table beside their result.
\<close>

definition MAX_REGIONS :: nat where "MAX_REGIONS = 32"
definition MAX_REGION_NAME_LEN :: nat where "MAX_REGION_NAME_LEN = 30"
definition REGION_DENY_FLOOD :: u8 where "REGION_DENY_FLOOD = 0x01"

datatype region_error =
    EmptyName | InvalidName | NameTooLong | RegionsFull | RegionNotFound | RegionPacketEncode
  | PrivateRegionUnsupported

type_synonym 'a region_result = "(region_error, 'a) res"

record region_entry =
  re_id :: u16
  re_flags :: u8
  re_name :: rstr

record region_map =
  rm_next_id :: u16
  rm_default_id :: "u16 option"
  rm_wildcard_flags :: u8
  rm_entries :: "region_entry list"

section \<open>Names and flags\<close>

definition strip_hash :: "rstr \<Rightarrow> rstr" where
  "strip_hash name = (case strip_prefix name (lit ''#'') of Some rest \<Rightarrow> rest | None \<Rightarrow> name)"

definition region_display_name :: "rstr \<Rightarrow> rstr" where
  "region_display_name name = strip_hash name"

definition is_name_char :: "u8 \<Rightarrow> bool" where
  "is_name_char byte \<longleftrightarrow> byte = 45 \<or> byte = 36 \<or> byte = 35 \<or> (48 \<le> byte \<and> byte \<le> 57) \<or> 65 \<le> byte"

definition normalize_region_name :: "rstr \<Rightarrow> rstr region_result" where
  "normalize_region_name name =
     (let name = trim name in
      if name = [] then Err EmptyName
      else if MAX_REGION_NAME_LEN < str_len name then Err NameTooLong
      else if name = lit ''*'' then Ok (lit ''*'')
      else if \<not> list_all is_name_char (str_bytes name) then Err InvalidName
      else Ok name)"

definition set_flag :: "u8 \<Rightarrow> u8 \<Rightarrow> bool \<Rightarrow> u8" where
  "set_flag flags flag enabled = (if enabled then flags OR flag else flags AND NOT flag)"

definition region_is_wildcard :: "region_entry \<Rightarrow> bool" where
  "region_is_wildcard e \<longleftrightarrow> re_id e = 0"

definition allows_flood :: "region_entry \<Rightarrow> bool" where
  "allows_flood e \<longleftrightarrow> re_flags e AND REGION_DENY_FLOOD = 0"

definition bool_text :: "bool \<Rightarrow> rstr" where
  "bool_text value = (if value then lit ''true'' else lit ''false'')"

section \<open>The table\<close>

definition regions_new :: region_map where
  "regions_new = \<lparr>rm_next_id = 1, rm_default_id = None, rm_wildcard_flags = 0, rm_entries = []\<rparr>"

definition wildcard :: "region_map \<Rightarrow> region_entry" where
  "wildcard m = \<lparr>re_id = 0, re_flags = rm_wildcard_flags m, re_name = lit ''*''\<rparr>"

definition entry_index_by_name :: "region_map \<Rightarrow> rstr \<Rightarrow> nat option" where
  "entry_index_by_name m name =
     (if name = lit ''*'' then None
      else position (\<lambda>e. strip_hash (re_name e) = strip_hash name) (rm_entries m))"

definition find_by_id :: "region_map \<Rightarrow> u16 \<Rightarrow> region_entry option" where
  "find_by_id m id' = find (\<lambda>e. re_id e = id') (rm_entries m)"

definition default_region :: "region_map \<Rightarrow> region_entry option" where
  "default_region m = (case rm_default_id m of None \<Rightarrow> None | Some id' \<Rightarrow> find_by_id m id')"

definition default_region_name :: "region_map \<Rightarrow> rstr option" where
  "default_region_name m = map_option (\<lambda>r. region_display_name (re_name r)) (default_region m)"

definition put_region :: "region_map \<Rightarrow> rstr \<Rightarrow> region_map region_result" where
  "put_region m name =
     and_then (normalize_region_name name) (\<lambda>name.
       if name = lit ''*'' then Err InvalidName
       else case entry_index_by_name m name of
         Some index \<Rightarrow>
           Ok (m\<lparr>rm_entries := (rm_entries m)[index := (rm_entries m ! index)\<lparr>re_flags := 0\<rparr>]\<rparr>)
       | None \<Rightarrow>
           if MAX_REGIONS \<le> length (rm_entries m) then Err RegionsFull
           else let id' = rm_next_id m in
             Ok (m\<lparr>rm_next_id := max (sat_add (rm_next_id m) 1) (sat_add id' 1),
                   rm_entries := rm_entries m @ [\<lparr>re_id = id', re_flags = 0, re_name = name\<rparr>]\<rparr>))"

definition remove_region :: "region_map \<Rightarrow> rstr \<Rightarrow> region_map region_result" where
  "remove_region m name =
     (case entry_index_by_name m name of
        None \<Rightarrow> Err RegionNotFound
      | Some index \<Rightarrow>
          let id' = re_id (rm_entries m ! index);
              m = m\<lparr>rm_entries := remove_at index (rm_entries m)\<rparr>
          in Ok (if rm_default_id m = Some id' then m\<lparr>rm_default_id := None\<rparr> else m))"

definition set_flood_allowed :: "region_map \<Rightarrow> rstr \<Rightarrow> bool \<Rightarrow> region_map region_result" where
  "set_flood_allowed m name allowed =
     (if name = lit ''*''
      then Ok (m\<lparr>rm_wildcard_flags := set_flag (rm_wildcard_flags m) REGION_DENY_FLOOD (\<not> allowed)\<rparr>)
      else case entry_index_by_name m name of
        None \<Rightarrow> Err RegionNotFound
      | Some index \<Rightarrow>
          let e = rm_entries m ! index in
          Ok (m\<lparr>rm_entries := (rm_entries m)[index :=
                  e\<lparr>re_flags := set_flag (re_flags e) REGION_DENY_FLOOD (\<not> allowed)\<rparr>]\<rparr>))"

text \<open>The table beside the result: as changed, or as it was before the step that failed.\<close>

definition table_after :: "region_map \<Rightarrow> region_map region_result \<Rightarrow> region_map \<times> unit region_result" where
  "table_after m r = (case r of Inl e \<Rightarrow> (m, Inl e) | Inr m' \<Rightarrow> (m', Ok ()))"

text \<open>\<open>put_region\<close> trims the name and \<open>set_flood_allowed\<close> does not, so the second may fail after the first has
  changed the table.\<close>

definition set_region_from_config ::
  "region_map \<Rightarrow> rstr \<Rightarrow> bool \<Rightarrow> region_map \<times> unit region_result"
where
  "set_region_from_config m name allowed =
     (if name = lit ''default'' then (m, Err InvalidName)
      else if name = lit ''*'' then table_after m (set_flood_allowed m name allowed)
      else case put_region m name of
        Inl e \<Rightarrow> (m, Inl e)
      | Inr m' \<Rightarrow> table_after m' (set_flood_allowed m' name allowed))"

text \<open>The first entry whose name is the prefix, else the last whose name starts with it.\<close>

fun find_prefix :: "rstr \<Rightarrow> region_entry list \<Rightarrow> region_entry option \<Rightarrow> region_entry option" where
  "find_prefix prefix [] partial = partial"
| "find_prefix prefix (e # es) partial =
     (let name = strip_hash (re_name e) in
      if name = prefix then Some e
      else find_prefix prefix es (if starts_with name prefix then Some e else partial))"

definition find_by_name_prefix :: "region_map \<Rightarrow> rstr \<Rightarrow> region_entry option" where
  "find_by_name_prefix m prefix =
     (if prefix = lit ''*'' then Some (wildcard m)
      else find_prefix (strip_hash prefix) (rm_entries m) None)"

definition set_default :: "region_map \<Rightarrow> rstr option \<Rightarrow> region_map region_result" where
  "set_default m name =
     (case name of
        None \<Rightarrow> Ok (m\<lparr>rm_default_id := None\<rparr>)
      | Some name \<Rightarrow>
          (case find_by_name_prefix m name of
             None \<Rightarrow> Err RegionNotFound
           | Some region \<Rightarrow>
               if region_is_wildcard region then Ok (m\<lparr>rm_default_id := None\<rparr>)
               else and_then (set_flood_allowed m name True) (\<lambda>m.
                      Ok (m\<lparr>rm_default_id := Some (re_id region)\<rparr>))))"

definition set_default_from_config ::
  "region_map \<Rightarrow> rstr \<Rightarrow> region_map \<times> unit region_result"
where
  "set_default_from_config m name =
     (if name = lit ''<null>'' \<or> name = [] then table_after m (set_default m None)
      else if find_by_name_prefix m name = None
      then (case put_region m name of
              Inl e \<Rightarrow> (m, Inl e)
            | Inr m' \<Rightarrow> table_after m' (set_default m' (Some name)))
      else table_after m (set_default m (Some name)))"

section \<open>Transport codes\<close>

definition transport_key_for :: "crypto \<Rightarrow> region_entry \<Rightarrow> bytes option" where
  "transport_key_for C region =
     (if starts_with (re_name region) (lit ''$'') then None
      else let digest = (if starts_with (re_name region) (lit ''#'')
                         then sha256 C (str_bytes (re_name region))
                         else sha256 C ([35] @ str_bytes (re_name region)))
        in Some (take 16 digest))"

definition transport_code_for :: "crypto \<Rightarrow> region_entry \<Rightarrow> packet \<Rightarrow> u16 region_result" where
  "transport_code_for C region packet =
     and_then (ok_or (transport_key_for C region) PrivateRegionUnsupported) (\<lambda>key.
     and_then (case payload_encode (packet_payload packet) of
                 Inr payload \<Rightarrow> Ok payload
               | Inl Panic \<Rightarrow> Panicked
               | Inl (Fail _) \<Rightarrow> Err RegionPacketEncode) (\<lambda>payload.
       let digest = hmac_sha256 C key ([payload_kind_to_nibble (packet_kind packet)] @ payload);
           code = u16_of_le [digest ! 0, digest ! 1]
       in Ok (if code = 0 then 1 else if code = 0xFFFF then 0xFFFE else code)))"

fun match_entries ::
  "crypto \<Rightarrow> u8 \<Rightarrow> packet \<Rightarrow> u16 \<Rightarrow> region_entry list \<Rightarrow> region_entry option"
where
  "match_entries C deny_mask packet primary [] = None"
| "match_entries C deny_mask packet primary (e # es) =
     (if re_flags e AND deny_mask \<noteq> 0 then match_entries C deny_mask packet primary es
      else case res_ok (transport_code_for C e packet) of
        None \<Rightarrow> None
      | Some code \<Rightarrow>
          if code = primary then Some e else match_entries C deny_mask packet primary es)"

definition match_transport_region ::
  "crypto \<Rightarrow> region_map \<Rightarrow> packet \<Rightarrow> u8 \<Rightarrow> region_entry option"
where
  "match_transport_region C m packet deny_mask =
     (case transport_codes packet of
        None \<Rightarrow> None
      | Some codes \<Rightarrow> match_entries C deny_mask packet (tc_primary codes) (rm_entries m))"

definition match_flood_region :: "crypto \<Rightarrow> region_map \<Rightarrow> packet \<Rightarrow> region_entry option" where
  "match_flood_region C m packet =
     (case route_type packet of
        TransportFlood \<Rightarrow> match_transport_region C m packet REGION_DENY_FLOOD
      | Flood \<Rightarrow> if allows_flood (wildcard m) then Some (wildcard m) else None
      | _ \<Rightarrow> None)"

definition apply_scope :: "crypto \<Rightarrow> packet \<Rightarrow> region_entry \<Rightarrow> packet region_result" where
  "apply_scope C packet region =
     (if region_is_wildcard region
      then Ok (packet\<lparr>route_type := Flood, transport_codes := None\<rparr>)
      else and_then (transport_code_for C region packet) (\<lambda>code.
             Ok (packet\<lparr>route_type := TransportFlood,
                        transport_codes := Some (transport_codes_new code)\<rparr>)))"

definition apply_default_scope ::
  "crypto \<Rightarrow> region_map \<Rightarrow> packet \<Rightarrow> (bool \<times> packet) region_result"
where
  "apply_default_scope C m packet =
     (case default_region m of
        None \<Rightarrow> Ok (False, packet)
      | Some region \<Rightarrow> and_then (apply_scope C packet region) (\<lambda>packet. Ok (True, packet)))"

section \<open>Text\<close>

definition writeln :: "rstr \<Rightarrow> rstr" where
  "writeln s = s @ [10]"

definition write_region_line :: "region_entry \<Rightarrow> rstr" where
  "write_region_line e =
     region_display_name (re_name e) @ (if allows_flood e then lit '' F'' else []) @ [10]"

definition write_tree :: "region_map \<Rightarrow> rstr" where
  "write_tree m = write_region_line (wildcard m) @ concat (map write_region_line (rm_entries m))"

fun join_names :: "rstr \<Rightarrow> rstr list \<Rightarrow> rstr" where
  "join_names out [] = out"
| "join_names out (name # rest) =
     join_names ((if out = [] then [] else out @ [44]) @ name) rest"

definition names_matching :: "region_map \<Rightarrow> u8 \<Rightarrow> bool \<Rightarrow> rstr" where
  "names_matching m flag_mask invert =
     (let hit = (\<lambda>flags. if invert then flags AND flag_mask \<noteq> 0 else flags AND flag_mask = 0);
          out = (if hit (rm_wildcard_flags m) then lit ''*'' else [])
      in join_names out
           (map (\<lambda>e. region_display_name (re_name e)) (filter (\<lambda>e. hit (re_flags e)) (rm_entries m))))"

definition allowed_names :: "region_map \<Rightarrow> rstr" where
  "allowed_names m = names_matching m REGION_DENY_FLOOD False"

definition denied_names :: "region_map \<Rightarrow> rstr" where
  "denied_names m = names_matching m REGION_DENY_FLOOD True"

definition region_line :: "region_entry \<Rightarrow> rstr" where
  "region_line e = writeln (lit ''region.'' @ region_display_name (re_name e) @ lit ''=''
                            @ bool_text (allows_flood e))"

definition write_config_lines :: "region_map \<Rightarrow> rstr" where
  "write_config_lines m =
     (case default_region m of
        None \<Rightarrow> []
      | Some d \<Rightarrow> writeln (lit ''region.default='' @ region_display_name (re_name d)))
     @ writeln (lit ''region.*='' @ bool_text (allows_flood (wildcard m)))
     @ concat (map region_line
         (filter (\<lambda>e. region_display_name (re_name e) \<noteq> lit ''default'') (rm_entries m)))"

definition write_config_lines_changed :: "region_map \<Rightarrow> region_map \<Rightarrow> rstr" where
  "write_config_lines_changed m defaults =
     (if default_region_name m \<noteq> default_region_name defaults
      then (case default_region m of
              Some d \<Rightarrow> writeln (lit ''region.default='' @ region_display_name (re_name d))
            | None \<Rightarrow> writeln (lit ''region.default=<null>''))
      else [])
     @ (if allows_flood (wildcard m) \<noteq> allows_flood (wildcard defaults)
        then writeln (lit ''region.*='' @ bool_text (allows_flood (wildcard m))) else [])
     @ concat (map region_line
         (filter (\<lambda>e. region_display_name (re_name e) \<noteq> lit ''default''
            \<and> \<not> (case entry_index_by_name defaults (re_name e) of
                   None \<Rightarrow> False
                 | Some index \<Rightarrow> allows_flood (rm_entries defaults ! index) = allows_flood e))
           (rm_entries m)))"

section \<open>Invariant\<close>

abbreviation region_key :: "region_entry \<Rightarrow> rstr" where
  "region_key e \<equiv> strip_hash (re_name e)"

definition region_entry_ok :: "region_entry \<Rightarrow> bool" where
  "region_entry_ok e \<longleftrightarrow> normalize_region_name (re_name e) = Inr (re_name e)
     \<and> re_name e \<noteq> lit ''*'' \<and> re_id e \<noteq> 0"

text \<open>At most 32 regions of distinct names, the default one of them; identifiers are distinct until
  the counter saturates.\<close>

definition regions_inv :: "region_map \<Rightarrow> bool" where
  "regions_inv m \<longleftrightarrow> length (rm_entries m) \<le> 32
     \<and> distinct (map region_key (rm_entries m))
     \<and> (\<forall>e \<in> set (rm_entries m). region_entry_ok e)
     \<and> rm_next_id m \<noteq> 0
     \<and> (rm_next_id m \<noteq> 0xFFFF \<longrightarrow> distinct (map re_id (rm_entries m))
          \<and> (\<forall>e \<in> set (rm_entries m). re_id e < rm_next_id m))
     \<and> (\<forall>i. rm_default_id m = Some i \<longrightarrow> i \<in> re_id ` set (rm_entries m))"

lemma regions_inv_new: "regions_inv regions_new"
  by (simp add: regions_inv_def regions_new_def)

lemma normalize_region_name_OkD:
  assumes "normalize_region_name name = Inr name'"
  shows "name' = trim name" and "normalize_region_name name' = Inr name'"
  using assms by (auto simp: normalize_region_name_def Let_def split: if_splits)

lemma entry_index_SomeD:
  "entry_index_by_name m name = Some i \<Longrightarrow>
     name \<noteq> lit ''*'' \<and> i < length (rm_entries m) \<and> region_key (rm_entries m ! i) = strip_hash name"
  by (auto simp: entry_index_by_name_def dest: position_SomeD split: if_splits)

lemma entry_index_NoneD:
  "entry_index_by_name m name = None \<Longrightarrow> name \<noteq> lit ''*'' \<Longrightarrow>
     strip_hash name \<notin> region_key ` set (rm_entries m)"
  by (force simp: entry_index_by_name_def)

lemma entry_index_iff:
  assumes "regions_inv m" and "name \<noteq> lit ''*''" and "i < length (rm_entries m)"
  shows "entry_index_by_name m name = Some i \<longleftrightarrow> region_key (rm_entries m ! i) = strip_hash name"
proof
  assume "region_key (rm_entries m ! i) = strip_hash name"
  moreover have "\<forall>j < i. region_key (rm_entries m ! j) \<noteq> region_key (rm_entries m ! i)"
    using assms(1,3) by (auto simp: regions_inv_def distinct_conv_nth)
  ultimately show "entry_index_by_name m name = Some i"
    using assms(2,3) by (simp add: entry_index_by_name_def position_Some_iff)
qed (simp add: entry_index_SomeD)

text \<open>Changing the flags of an entry changes neither names nor identifiers.\<close>

lemma regions_inv_same_names:
  assumes inv: "regions_inv m"
    and eq: "map (\<lambda>e. (re_name e, re_id e)) es = map (\<lambda>e. (re_name e, re_id e)) (rm_entries m)"
  shows "regions_inv (m\<lparr>rm_entries := es\<rparr>)"
proof -
  let ?f = "\<lambda>e. (re_name e, re_id e)"
  have len: "length es = length (rm_entries m)" using arg_cong [OF eq, of length] by simp
  have keys: "map region_key es = map region_key (rm_entries m)"
    using arg_cong [OF eq, of "map (strip_hash \<circ> fst)"] by (simp add: comp_def)
  have ids: "map re_id es = map re_id (rm_entries m)" using arg_cong [OF eq, of "map snd"] by (simp add: comp_def)
  then have idset: "re_id ` set es = re_id ` set (rm_entries m)" by (metis list.set_map)
  have sets: "?f ` set es = ?f ` set (rm_entries m)" using arg_cong [OF eq, of set] by simp
  have mem: "\<exists>e' \<in> set (rm_entries m). re_name e = re_name e' \<and> re_id e = re_id e'"
    if "e \<in> set es" for e
  proof -
    from that have "?f e \<in> ?f ` set es" by (rule imageI)
    then show ?thesis unfolding sets by auto
  qed
  have ok: "\<forall>e \<in> set es. region_entry_ok e"
    using inv mem unfolding regions_inv_def region_entry_ok_def by metis
  have lt: "rm_next_id m \<noteq> 0xFFFF \<Longrightarrow> \<forall>e \<in> set es. re_id e < rm_next_id m"
    using inv mem unfolding regions_inv_def by metis
  show ?thesis
    using inv unfolding regions_inv_def by (simp add: len keys ids idset ok lt)
qed

lemma regions_inv_update_flags:
  assumes "regions_inv m" and "i < length (rm_entries m)"
  shows "regions_inv (m\<lparr>rm_entries := (rm_entries m)[i := (rm_entries m ! i)\<lparr>re_flags := f\<rparr>]\<rparr>)"
  using assms by (intro regions_inv_same_names) (simp_all add: map_update list_update_same_conv)

lemma put_region_inv:
  assumes inv: "regions_inv m" and put: "put_region m name = Inr m'"
  shows "regions_inv m'"
proof -
  obtain n where n: "normalize_region_name name = Inr n" "n \<noteq> lit ''*''"
    and r: "(case entry_index_by_name m n of
         Some index \<Rightarrow>
           Ok (m\<lparr>rm_entries := (rm_entries m)[index := (rm_entries m ! index)\<lparr>re_flags := 0\<rparr>]\<rparr>)
       | None \<Rightarrow>
           if MAX_REGIONS \<le> length (rm_entries m) then Err RegionsFull
           else let id' = rm_next_id m in
             Ok (m\<lparr>rm_next_id := max (sat_add (rm_next_id m) 1) (sat_add id' 1),
                   rm_entries := rm_entries m @ [\<lparr>re_id = id', re_flags = 0, re_name = n\<rparr>]\<rparr>))
       = (Inr m' :: region_map region_result)"
    using put by (auto simp: put_region_def and_then_Ok_iff split: if_splits)
  show ?thesis
  proof (cases "entry_index_by_name m n")
    case (Some i)
    with r regions_inv_update_flags [OF inv] show ?thesis by (auto dest: entry_index_SomeD)
  next
    case None
    let ?x = "rm_next_id m"
    have len: "length (rm_entries m) < 32"
      and m': "m' = m\<lparr>rm_next_id := sat_add ?x 1,
                  rm_entries := rm_entries m @ [\<lparr>re_id = ?x, re_flags = 0, re_name = n\<rparr>]\<rparr>"
      using None r by (auto simp: MAX_REGIONS_def Let_def split: if_splits)
    have new: "strip_hash n \<notin> region_key ` set (rm_entries m)"
      using None n(2) by (rule entry_index_NoneD)
    have x: "unat (sat_add ?x 1) = min (unat ?x + 1) 65535" by (simp add: unat_sat_add)
    have pos: "sat_add ?x 1 \<noteq> 0" using x by (auto simp: word_unat_eq_iff)
    have lt: "?x \<noteq> 0xFFFF \<and> ?x < sat_add ?x 1" if "sat_add ?x 1 \<noteq> 0xFFFF"
    proof -
      have "unat (sat_add ?x 1) \<noteq> 65535" using that by (auto simp: word_unat_eq_iff)
      with x have "unat ?x + 1 < 65535" by (auto simp: min_def split: if_splits)
      with x show ?thesis by (auto simp: word_less_nat_alt word_unat_eq_iff)
    qed
    have fresh: "distinct (map re_id (rm_entries m)) \<and> (\<forall>e \<in> set (rm_entries m). re_id e < ?x)"
      if "?x \<noteq> 0xFFFF" using inv that by (simp add: regions_inv_def)
    have ok: "region_entry_ok \<lparr>re_id = ?x, re_flags = 0, re_name = n\<rparr>"
      using inv n normalize_region_name_OkD(2) [OF n(1)] by (simp add: region_entry_ok_def regions_inv_def)
    show ?thesis
      using inv len new pos ok lt fresh unfolding m' regions_inv_def
      by fastforce
  qed
qed

lemma set_flood_allowed_inv:
  "regions_inv m \<Longrightarrow> set_flood_allowed m name allowed = Inr m' \<Longrightarrow> regions_inv m'"
proof -
  assume inv: "regions_inv m" and r: "set_flood_allowed m name allowed = Inr m'"
  show "regions_inv m'"
  proof (cases "name = lit ''*''")
    case True
    with inv r show ?thesis by (auto simp: set_flood_allowed_def regions_inv_def)
  next
    case False
    with r obtain i f where "entry_index_by_name m name = Some i"
      and "m' = m\<lparr>rm_entries := (rm_entries m)[i := (rm_entries m ! i)\<lparr>re_flags := f\<rparr>]\<rparr>"
      by (auto simp: set_flood_allowed_def Let_def split: option.splits)
    then show ?thesis using regions_inv_update_flags [OF inv] by (auto dest: entry_index_SomeD)
  qed
qed

lemma remove_region_inv:
  assumes inv: "regions_inv m" and r: "remove_region m name = Inr m'"
  shows "regions_inv m'"
proof -
  obtain i where i: "i < length (rm_entries m)"
    and m': "m' = (let m'' = m\<lparr>rm_entries := remove_at i (rm_entries m)\<rparr>
        in if rm_default_id m = Some (re_id (rm_entries m ! i)) then m''\<lparr>rm_default_id := None\<rparr> else m'')"
    using r by (auto simp: remove_region_def Let_def dest: entry_index_SomeD split: option.splits)
  have mset: "set_mset (mset (rm_entries m)) = insert (rm_entries m ! i) (set (remove_at i (rm_entries m)))"
    using remove_at_mset [OF i] by (metis set_mset_add_mset_insert set_mset_mset)
  have "distinct (map region_key (remove_at i (rm_entries m)))"
    and "rm_next_id m \<noteq> 0xFFFF \<Longrightarrow> distinct (map re_id (remove_at i (rm_entries m)))"
    using inv by (auto simp: regions_inv_def intro: distinct_remove_at)
  with inv i mset show ?thesis
    unfolding m' regions_inv_def by (auto simp: Let_def split: option.splits)
qed

lemma table_after_inv:
  "regions_inv m \<Longrightarrow> (\<And>m'. r = Inr m' \<Longrightarrow> regions_inv m') \<Longrightarrow> regions_inv (fst (table_after m r))"
  by (cases r) (simp_all add: table_after_def)

lemma set_region_from_config_inv:
  "regions_inv m \<Longrightarrow> regions_inv (fst (set_region_from_config m name allowed))"
  by (auto simp: set_region_from_config_def split: sum.split
      intro!: table_after_inv intro: put_region_inv set_flood_allowed_inv)

lemma set_flood_allowed_ids:
  assumes "set_flood_allowed m name allowed = Inr m'"
  shows "map re_id (rm_entries m') = map re_id (rm_entries m)"
    and "map re_name (rm_entries m') = map re_name (rm_entries m)"
    and "rm_default_id m' = rm_default_id m"
  using assms
  by (auto simp: set_flood_allowed_def Let_def map_update list_update_same_conv
      split: if_splits option.splits dest: entry_index_SomeD)

lemma find_prefix_Some:
  "find_prefix p es acc = Some e \<Longrightarrow> e \<in> set es \<or> acc = Some e"
  by (induction p es acc rule: find_prefix.induct) (auto simp: Let_def split: if_splits)

lemma set_default_inv:
  assumes inv: "regions_inv m" and r: "set_default m name = Inr m'"
  shows "regions_inv m'"
proof -
  have none: "regions_inv (x\<lparr>rm_default_id := None\<rparr>)" if "regions_inv x" for x
    using that by (simp add: regions_inv_def)
  show ?thesis
  proof (cases "m' = m\<lparr>rm_default_id := None\<rparr>")
    case False
    with r obtain n e m1 where n: "name = Some n" "find_by_name_prefix m n = Some e"
      and nw: "\<not> region_is_wildcard e" and m1: "set_flood_allowed m n True = Inr m1"
      and m': "m' = m1\<lparr>rm_default_id := Some (re_id e)\<rparr>"
      by (auto simp: set_default_def and_then_Ok_iff split: option.splits if_splits)
    have "e \<noteq> wildcard m" using nw by (auto simp: region_is_wildcard_def wildcard_def)
    with n(2) have "e \<in> set (rm_entries m)"
      by (auto simp: find_by_name_prefix_def split: if_splits dest: find_prefix_Some)
    then have "re_id e \<in> set (map re_id (rm_entries m1))"
      unfolding set_flood_allowed_ids(1) [OF m1] by simp
    moreover have "regions_inv m1" using inv m1 by (rule set_flood_allowed_inv)
    ultimately show ?thesis unfolding m' regions_inv_def by simp
  qed (simp add: none inv)
qed

lemma set_default_from_config_inv:
  "regions_inv m \<Longrightarrow> regions_inv (fst (set_default_from_config m name))"
  by (auto simp: set_default_from_config_def split: sum.split
      intro!: table_after_inv intro: set_default_inv put_region_inv)

section \<open>What the operations do\<close>

text \<open>A put region is there, allowed, under the trimmed name; an allowed flag changes no other
  entry.\<close>

lemma put_region_present:
  assumes inv: "regions_inv m" and put: "put_region m name = Inr m'"
  shows "\<exists>i. entry_index_by_name m' (trim name) = Some i \<and> re_flags (rm_entries m' ! i) = 0"
proof -
  obtain n where n: "normalize_region_name name = Inr n" "n \<noteq> lit ''*''"
    using put by (auto simp: put_region_def and_then_Ok_iff split: if_splits)
  have tn: "trim name = n" using normalize_region_name_OkD(1) [OF n(1)] by simp
  show ?thesis
  proof (cases "entry_index_by_name m n")
    case (Some i)
    with put n have m': "m' = m\<lparr>rm_entries := (rm_entries m)[i := (rm_entries m ! i)\<lparr>re_flags := 0\<rparr>]\<rparr>"
      by (simp add: put_region_def)
    moreover have "i < length (rm_entries m)" "region_key (rm_entries m ! i) = strip_hash n"
      using Some by (auto dest: entry_index_SomeD)
    ultimately have "entry_index_by_name m' n = Some i"
      using n(2) put_region_inv [OF inv put] by (subst entry_index_iff) simp_all
    with m' \<open>i < length (rm_entries m)\<close> show ?thesis by (simp add: tn)
  next
    case None
    let ?i = "length (rm_entries m)"
    have m': "rm_entries m' = rm_entries m @ [\<lparr>re_id = rm_next_id m, re_flags = 0, re_name = n\<rparr>]"
      using None put n by (auto simp: put_region_def Let_def split: if_splits)
    then have "entry_index_by_name m' n = Some ?i"
      using n(2) put_region_inv [OF inv put] by (subst entry_index_iff) simp_all
    with m' show ?thesis by (simp add: tn)
  qed
qed

text \<open>A name that is only a proper prefix of a region's name is found by \<open>find_by_name_prefix\<close>, but
  making it the default fails: the flag is set through the exact name.\<close>

lemma set_default_needs_exact_name:
  assumes "find_by_name_prefix m name = Some region" and "\<not> region_is_wildcard region"
    and "entry_index_by_name m name = None" and "name \<noteq> lit ''*''"
  shows "set_default m (Some name) = Err RegionNotFound"
  using assms by (simp add: set_default_def set_flood_allowed_def)

section \<open>Matching a scoped flood\<close>

lemma transport_code_for_route [simp]:
  "transport_code_for C e (p\<lparr>route_type := r\<rparr>) = transport_code_for C e p"
  "transport_code_for C e (p\<lparr>transport_codes := t\<rparr>) = transport_code_for C e p"
  "transport_code_for C e (p\<lparr>packet_path := q\<rparr>) = transport_code_for C e p"
  by (simp_all add: transport_code_for_def packet_kind_def)

lemma transport_code_reserved:
  "transport_code_for C e p = Inr code \<Longrightarrow> code \<noteq> 0 \<and> code \<noteq> 0xFFFF"
  by (auto simp: transport_code_for_def and_then_Ok_iff Let_def split: if_splits)

lemma match_entries_sound:
  "match_entries C d p code es = Some e \<Longrightarrow>
     e \<in> set es \<and> re_flags e AND d = 0 \<and> transport_code_for C e p = Inr code"
  by (induction es) (auto split: if_splits option.splits)

text \<open>While no allowed entry fails to have a code, the first allowed entry with the packet's code is
  the match.\<close>

lemma match_entries_find:
  assumes "\<forall>e \<in> set es. re_flags e AND d = 0 \<longrightarrow> (\<exists>c. transport_code_for C e p = Inr c)"
  shows "match_entries C d p code es =
     find (\<lambda>e. re_flags e AND d = 0 \<and> transport_code_for C e p = Inr code) es"
  using assms by (induction es) (auto split: option.splits)

text \<open>An allowed private region without a key ends the search: nothing behind it can match.\<close>

lemma match_entries_private_stops:
  assumes "re_flags e AND d = 0" and "starts_with (re_name e) (lit ''$'')"
  shows "match_entries C d p code (e # es) = None"
  using assms by (simp add: transport_code_for_def transport_key_for_def)

lemma transport_code_public:
  assumes "\<not> starts_with (re_name e) (lit ''$'')" and "payload_encode (packet_payload p) = Inr pl"
  shows "\<exists>c. transport_code_for C e p = Inr c"
  using assms by (simp add: transport_code_for_def transport_key_for_def Let_def)

lemma match_flood_region_path [simp]:
  "match_flood_region C m (p\<lparr>packet_path := q\<rparr>) = match_flood_region C m p"
proof -
  have "match_entries C d (p\<lparr>packet_path := q\<rparr>) c es = match_entries C d p c es" for d c es
    by (induction es) (simp_all split: option.split)
  then show ?thesis
    by (simp add: match_flood_region_def match_transport_region_def split: route_type.split option.split)
qed

lemma match_flood_region_allowed:
  "match_flood_region C m p = Some e \<Longrightarrow> allows_flood e"
  by (auto simp: match_flood_region_def match_transport_region_def allows_flood_def
      dest: match_entries_sound split: route_type.splits if_splits option.splits)

lemma match_flood_region_wildcard:
  assumes "regions_inv m" and "match_flood_region C m p = Some e"
  shows "region_is_wildcard e \<longleftrightarrow> route_type p = Flood"
  using assms
  by (auto simp: match_flood_region_def match_transport_region_def region_is_wildcard_def wildcard_def
      regions_inv_def region_entry_ok_def dest: match_entries_sound
      split: route_type.splits if_splits option.splits)

text \<open>A packet scoped to the default region is matched again, by a region with its transport code:
  the default one unless two regions share the code.\<close>

lemma find_SomeD: "find P xs = Some x \<Longrightarrow> P x \<and> x \<in> set xs"
  by (induction xs) (auto split: if_splits)

lemma find_exists: "x \<in> set xs \<Longrightarrow> P x \<Longrightarrow> \<exists>y. find P xs = Some y"
  by (induction xs) auto

lemma apply_default_scope_matches:
  assumes inv: "regions_inv m" and scoped: "apply_default_scope C m p = Inr (True, p')"
    and d: "default_region m = Some d" "allows_flood d"
    and codes: "\<forall>e \<in> set (rm_entries m). allows_flood e \<longrightarrow> (\<exists>c. transport_code_for C e p = Inr c)"
  shows "route_type p' = TransportFlood
    \<and> (\<exists>e code. match_flood_region C m p' = Some e \<and> transport_code_for C e p = Inr code
         \<and> transport_code_for C d p = Inr code)"
proof -
  have dm: "d \<in> set (rm_entries m)" using d(1)
    by (auto simp: default_region_def find_by_id_def dest: find_SomeD split: option.splits)
  then have "\<not> region_is_wildcard d"
    using inv by (auto simp: regions_inv_def region_entry_ok_def region_is_wildcard_def)
  with scoped d obtain code where code: "transport_code_for C d p = Inr code"
    and p': "p' = p\<lparr>route_type := TransportFlood, transport_codes := Some (transport_codes_new code)\<rparr>"
    by (auto simp: apply_default_scope_def apply_scope_def and_then_Ok_iff)
  let ?P = "\<lambda>e. re_flags e AND REGION_DENY_FLOOD = 0 \<and> transport_code_for C e p' = Inr code"
  have "?P d" using d(2) code by (simp add: allows_flood_def p')
  then obtain e where e: "find ?P (rm_entries m) = Some e" using find_exists [OF dm, of ?P] by blast
  have "match_entries C REGION_DENY_FLOOD p' code (rm_entries m) = find ?P (rm_entries m)"
    using codes by (intro match_entries_find) (auto simp: allows_flood_def p')
  with e have "match_flood_region C m p' = Some e"
    by (simp add: match_flood_region_def match_transport_region_def p' transport_codes_new_def)
  moreover have "transport_code_for C e p = Inr code" using find_SomeD [OF e] by (simp add: p')
  ultimately show ?thesis using code by (auto simp: p')
qed

section \<open>Properties\<close>

text \<open>C22: Every operation on the region map keeps it well formed: at most 32 regions with distinct valid
  names, and a default region that is one of them. The operations that return a table change nothing when they
  fail; of the two that may fail after a change, the table they leave is well formed either way.\<close>

theorem region_operations_keep_inv:
  assumes "regions_inv m"
  shows "(\<forall>m'. put_region m name = Ok m' \<or> remove_region m name = Ok m'
            \<or> set_flood_allowed m name allowed = Ok m' \<or> set_default m chosen = Ok m' \<longrightarrow> regions_inv m')
    \<and> regions_inv (fst (set_region_from_config m name allowed))
    \<and> regions_inv (fst (set_default_from_config m name))"
  using assms put_region_inv remove_region_inv set_flood_allowed_inv set_region_from_config_inv
    set_default_inv set_default_from_config_inv by blast

theorem region_operations_keep_inv_witness:
  "regions_inv (fst (set_region_from_config regions_new (lit '' uk'') False))"
  using region_operations_keep_inv [OF regions_inv_new] by blast

text \<open>A flood packet is only ever matched to a region that allows flooding, and to the wildcard
  region exactly when it carries no transport code.\<close>

lemma matched_region_allows:
  assumes "regions_inv m" and "match_flood_region C m p = Some e"
  shows "allows_flood e \<and> (region_is_wildcard e \<longleftrightarrow> route_type p = Flood)"
  using match_flood_region_allowed [OF assms(2)] match_flood_region_wildcard [OF assms] by simp

text \<open>C23: Capture puts an unscoped flood into the default region: when the default region allows flooding and
  no private region does, the rewritten packet is a scoped flood which this very node's region table matches,
  to a region with the default region's code. Neither condition can be dropped: a region that denies flooding is
  never matched, and an allowed private region ends the matching.\<close>

theorem captured_packet_is_matched:
  assumes "regions_inv m" and "apply_default_scope C m p = Ok (True, p')"
    and "default_region m = Some d" and "allows_flood d"
    and "\<forall>e \<in> set (rm_entries m). allows_flood e \<longrightarrow> \<not> starts_with (re_name e) (lit ''$'')"
    and "payload_encode (packet_payload p) = Ok payload"
  shows "route_type p' = TransportFlood
    \<and> (\<exists>e code. match_flood_region C m p' = Some e \<and> transport_code_for C e p = Ok code
         \<and> transport_code_for C d p = Ok code)"
  using assms transport_code_public by (intro apply_default_scope_matches) blast+

theorem captured_packet_is_matched_witness:
  "\<exists>p'. apply_default_scope toy_crypto \<lparr>rm_next_id = 2, rm_default_id = Some 1, rm_wildcard_flags = 0,
       rm_entries = [\<lparr>re_id = 1, re_flags = 0, re_name = [117, 107]\<rparr>]\<rparr>
      \<lparr>route_type = Flood, transport_codes = None, packet_path = Normal path_empty,
       packet_payload = PAck \<lparr>ack_hash = [1, 2, 3, 4]\<rparr>\<rparr> = Ok (True, p') \<and> route_type p' = TransportFlood"
proof -
  let ?e = "\<lparr>re_id = 1, re_flags = 0, re_name = [117, 107]\<rparr>"
  let ?m = "\<lparr>rm_next_id = 2, rm_default_id = Some 1, rm_wildcard_flags = 0, rm_entries = [?e]\<rparr>"
  let ?p = "\<lparr>route_type = Flood, transport_codes = None, packet_path = Normal path_empty,
       packet_payload = PAck \<lparr>ack_hash = [1, 2, 3, 4]\<rparr>\<rparr>"
  have "normalize_region_name [117, 107] = Ok [117, 107]"
    by (simp add: normalize_region_name_def trim_def trim_start_def trim_end_def is_whitespace_def
        str_len_def str_bytes_def char_bytes_def len_utf8_def lit_def is_name_char_def MAX_REGION_NAME_LEN_def)
  then have inv: "regions_inv ?m"
    by (simp add: regions_inv_def region_entry_ok_def lit_def)
  have pl: "payload_encode (packet_payload ?p) = Ok [1, 2, 3, 4]" by (simp add: ack_encode_def)
  have pub: "\<not> starts_with (re_name ?e) (lit ''$'')" by (simp add: lit_def)
  obtain code where code: "transport_code_for toy_crypto ?e ?p = Ok code"
    using transport_code_public [of ?e ?p, OF pub pl] by blast
  have d: "default_region ?m = Some ?e" by (simp add: default_region_def find_by_id_def)
  have "\<exists>p'. apply_default_scope toy_crypto ?m ?p = Ok (True, p')"
    using code by (simp add: apply_default_scope_def apply_scope_def d region_is_wildcard_def)
  then obtain p' where p': "apply_default_scope toy_crypto ?m ?p = Ok (True, p')" ..
  have fl: "allows_flood ?e" by (simp add: allows_flood_def)
  have "route_type p' = TransportFlood"
    using captured_packet_is_matched [OF inv p' d fl _ pl] pub by simp
  with p' show ?thesis by blast
qed

text \<open>C24: A private region that allows flooding hides every region after it in the table: matching stops
  at its missing key instead of going on, so a packet of a later region is not forwarded.\<close>

theorem private_region_hides_later:
  assumes "allows_flood e" and "starts_with (re_name e) (lit ''$'')"
  shows "match_entries C REGION_DENY_FLOOD p code (e # es) = None"
  using assms match_entries_private_stops by (simp add: allows_flood_def)

theorem private_region_hides_later_witness:
  "match_entries toy_crypto REGION_DENY_FLOOD \<lparr>route_type = Flood, transport_codes = None,
       packet_path = Normal path_empty, packet_payload = PAck \<lparr>ack_hash = [1, 2, 3, 4]\<rparr>\<rparr> 5
     [\<lparr>re_id = 1, re_flags = 0, re_name = lit ''$a''\<rparr>, \<lparr>re_id = 2, re_flags = 0, re_name = lit ''uk''\<rparr>] = None"
  by (rule private_region_hides_later) (simp_all add: allows_flood_def lit_def REGION_DENY_FLOOD_def)

text \<open>C25: Choosing the default region by a unique prefix of its name fails: the prefix finds the region,
  but allowing it to flood needs the exact name.\<close>

theorem default_by_prefix_fails:
  assumes "find_by_name_prefix m name = Some region" and "\<not> region_is_wildcard region"
    and "entry_index_by_name m name = None" and "name \<noteq> lit ''*''"
  shows "set_default m (Some name) = Err RegionNotFound"
  using assms by (rule set_default_needs_exact_name)

theorem default_by_prefix_fails_witness:
  "set_default \<lparr>rm_next_id = 2, rm_default_id = None, rm_wildcard_flags = 0,
     rm_entries = [\<lparr>re_id = 1, re_flags = 0, re_name = [117, 107]\<rparr>]\<rparr> (Some [117]) = Err RegionNotFound"
  by (rule default_by_prefix_fails [of _ _ "\<lparr>re_id = 1, re_flags = 0, re_name = [117, 107]\<rparr>"])
     (simp_all add: find_by_name_prefix_def strip_hash_def strip_prefix_def lit_def Let_def
        region_is_wildcard_def entry_index_by_name_def)

end
