(* ===== verification/Radio.thy ===== *)
theory Radio
  imports Wire
begin

text \<open>
  The radio settings (\<open>app/config.rs\<close>: \<open>SpreadingFactor\<close>, \<open>Bandwidth\<close>, \<open>CodingRate\<close>,
  \<open>RadioConfig\<close>) and the time on air of a packet. Quantities are \<open>nat\<close> and \<open>int\<close>;
  \<open>airtime_fits\<close> shows that for packets up to the radio's buffer every intermediate value fits the
  machine type the code computes it in, so nothing wraps.
\<close>

section \<open>Settings\<close>

datatype spreading_factor = Sf5 | Sf6 | Sf7 | Sf8 | Sf9 | Sf10 | Sf11 | Sf12

fun sf_factor :: "spreading_factor \<Rightarrow> nat" where
  "sf_factor Sf5 = 5"
| "sf_factor Sf6 = 6"
| "sf_factor Sf7 = 7"
| "sf_factor Sf8 = 8"
| "sf_factor Sf9 = 9"
| "sf_factor Sf10 = 10"
| "sf_factor Sf11 = 11"
| "sf_factor Sf12 = 12"

definition sf_from_factor :: "nat \<Rightarrow> spreading_factor option" where
  "sf_from_factor factor =
     (if factor = 5 then Some Sf5 else if factor = 6 then Some Sf6
      else if factor = 7 then Some Sf7 else if factor = 8 then Some Sf8
      else if factor = 9 then Some Sf9 else if factor = 10 then Some Sf10
      else if factor = 11 then Some Sf11 else if factor = 12 then Some Sf12
      else None)"

datatype bandwidth =
    Khz7_8 | Khz10_4 | Khz15_6 | Khz20_8 | Khz31_25 | Khz41_7 | Khz62_5 | Khz125 | Khz250 | Khz500

fun bw_hz :: "bandwidth \<Rightarrow> nat" where
  "bw_hz Khz7_8 = 7810"
| "bw_hz Khz10_4 = 10420"
| "bw_hz Khz15_6 = 15630"
| "bw_hz Khz20_8 = 20830"
| "bw_hz Khz31_25 = 31250"
| "bw_hz Khz41_7 = 41670"
| "bw_hz Khz62_5 = 62500"
| "bw_hz Khz125 = 125000"
| "bw_hz Khz250 = 250000"
| "bw_hz Khz500 = 500000"

definition bw_all :: "bandwidth list" where
  "bw_all = [Khz7_8, Khz10_4, Khz15_6, Khz20_8, Khz31_25, Khz41_7, Khz62_5, Khz125, Khz250, Khz500]"

definition abs_diff :: "nat \<Rightarrow> nat \<Rightarrow> nat" where
  "abs_diff a b = (if a < b then b - a else a - b)"

definition bw_from_hz :: "nat \<Rightarrow> bandwidth option" where
  "bw_from_hz hz = find (\<lambda>b. abs_diff hz (bw_hz b) \<le> bw_hz b div 100) bw_all"

datatype coding_rate = Cr4_5 | Cr4_6 | Cr4_7 | Cr4_8

fun cr_denominator :: "coding_rate \<Rightarrow> nat" where
  "cr_denominator Cr4_5 = 5"
| "cr_denominator Cr4_6 = 6"
| "cr_denominator Cr4_7 = 7"
| "cr_denominator Cr4_8 = 8"

definition cr_all :: "coding_rate list" where
  "cr_all = [Cr4_5, Cr4_6, Cr4_7, Cr4_8]"

definition cr_from_denominator :: "nat \<Rightarrow> coding_rate option" where
  "cr_from_denominator d = find (\<lambda>c. cr_denominator c = d) cr_all"

record radio_config =
  rc_receive_frequency_hz :: nat
  rc_spreading_factor :: spreading_factor
  rc_bandwidth :: bandwidth
  rc_coding_rate :: coding_rate
  rc_transmit_power_dbm :: int

lemma sf_round_trip: "sf_from_factor n = Some f \<longleftrightarrow> sf_factor f = n"
  by (cases f) (auto simp: sf_from_factor_def)

lemma bw_round_trip: "bw_from_hz (bw_hz b) = Some b"
  by (cases b) (simp_all add: bw_from_hz_def bw_all_def abs_diff_def)

text \<open>No frequency is within one percent of two bandwidths, so the order of the table is immaterial.\<close>

lemma abs_diff_le_iff: "k \<le> h \<Longrightarrow> abs_diff hz h \<le> k \<longleftrightarrow> h - k \<le> hz \<and> hz \<le> h + k"
  by (auto simp: abs_diff_def)

lemma bw_near_unique:
  assumes "abs_diff hz (bw_hz a) \<le> bw_hz a div 100" and "abs_diff hz (bw_hz b) \<le> bw_hz b div 100"
  shows "a = b"
  using assms
  by (cases a; cases b; simp add: abs_diff_le_iff)

lemma bw_all_complete: "b \<in> set bw_all"
  by (cases b) (simp_all add: bw_all_def)

lemma bw_from_hz_iff: "bw_from_hz hz = Some b \<longleftrightarrow> abs_diff hz (bw_hz b) \<le> bw_hz b div 100"
proof
  assume near: "abs_diff hz (bw_hz b) \<le> bw_hz b div 100"
  obtain a where a: "bw_from_hz hz = Some a"
    using near bw_all_complete [of b] unfolding bw_from_hz_def
    by (cases "find (\<lambda>b. abs_diff hz (bw_hz b) \<le> bw_hz b div 100) bw_all") (auto simp: find_None_iff)
  then have "abs_diff hz (bw_hz a) \<le> bw_hz a div 100"
    by (auto simp: bw_from_hz_def find_Some_iff)
  with near a show "bw_from_hz hz = Some b" using bw_near_unique by blast
qed (auto simp: bw_from_hz_def find_Some_iff)

lemma cr_round_trip: "cr_from_denominator d = Some c \<longleftrightarrow> cr_denominator c = d"
  by (cases c) (auto simp: cr_from_denominator_def cr_all_def)

section \<open>Time on air\<close>

definition PREAMBLE_LENGTH :: nat where "PREAMBLE_LENGTH = 8"

definition symbol_time_us :: "radio_config \<Rightarrow> nat" where
  "symbol_time_us rc =
     (let chips_per_symbol = 2 ^ sf_factor (rc_spreading_factor rc)
      in div_ceil_u64 (chips_per_symbol * 1000000) (bw_hz (rc_bandwidth rc)))"

definition symbol_time_ms :: "radio_config \<Rightarrow> nat" where
  "symbol_time_ms rc = min (div_ceil_u64 (symbol_time_us rc) 1000) (2 ^ 32 - 1)"

definition payload_symbol_count :: "nat \<Rightarrow> spreading_factor \<Rightarrow> coding_rate \<Rightarrow> bool \<Rightarrow> nat" where
  "payload_symbol_count payload_len spreading_factor coding_rate low_data_rate_optimize =
     (let sf = int (sf_factor spreading_factor); crc_on = 1; implicit_header = 0;
          de = (if low_data_rate_optimize then 1 else 0);
          numerator = 8 * int payload_len - 4 * sf + 28 + 16 * crc_on - 20 * implicit_header;
          denominator = 4 * (sf - 2 * de);
          coded_symbols = (if numerator \<le> 0 then 0
            else nat ((numerator + denominator - 1) div denominator) * cr_denominator coding_rate)
      in 8 + coded_symbols)"

definition packet_airtime_ms :: "radio_config \<Rightarrow> nat \<Rightarrow> nat" where
  "packet_airtime_ms rc payload_len =
     (let st = symbol_time_us rc;
          low_data_rate_optimize = (16000 \<le> st);
          payload_symbols = payload_symbol_count payload_len (rc_spreading_factor rc)
                              (rc_coding_rate rc) low_data_rate_optimize;
          preamble_symbols_quarters = PREAMBLE_LENGTH * 4 + 17;
          preamble_us = div_ceil_u64 (st * preamble_symbols_quarters) 4;
          payload_us = payload_symbols * st
      in min (div_ceil_u64 (preamble_us + payload_us) 1000) (2 ^ 32 - 1))"

datatype radio_error = RadioInvalidFrequency | RadioInvalidTransmitPower

definition radio_validate :: "radio_config \<Rightarrow> (radio_error, unit) res" where
  "radio_validate rc =
     (if \<not> (150000000 \<le> rc_receive_frequency_hz rc \<and> rc_receive_frequency_hz rc \<le> 2500000000)
      then Err RadioInvalidFrequency
      else if \<not> (- 9 \<le> rc_transmit_power_dbm rc \<and> rc_transmit_power_dbm rc \<le> 22)
        then Err RadioInvalidTransmitPower
      else Ok ())"

lemma div_ceil_le: "0 < d \<Longrightarrow> div_ceil_u64 n d \<le> n div d + 1"
  by (simp add: div_ceil_u64_def)

lemma div_ceil_mono: "0 < d \<Longrightarrow> m \<le> n \<Longrightarrow> div_ceil_u64 m d \<le> div_ceil_u64 n d"
  using div_ceil_minimal [of d m "div_ceil_u64 n d"] div_ceil_ge [of d n] by linarith

lemma sf_factor_range: "5 \<le> sf_factor f \<and> sf_factor f \<le> 12"
  by (cases f) simp_all

lemma bw_hz_range: "7810 \<le> bw_hz b \<and> bw_hz b \<le> 500000"
  by (cases b) simp_all

lemma cr_denominator_range: "5 \<le> cr_denominator c \<and> cr_denominator c \<le> 8"
  by (cases c) simp_all

lemma symbol_time_us_range: "64 \<le> symbol_time_us rc \<and> symbol_time_us rc \<le> 524456"
proof -
  let ?f = "sf_factor (rc_spreading_factor rc)" and ?b = "bw_hz (rc_bandwidth rc)"
  have lo: "(32::nat) \<le> 2 ^ ?f" and hi: "2 ^ ?f \<le> (4096::nat)"
    using power_increasing [of 5 ?f "2::nat"] power_increasing [of ?f 12 "2::nat"] sf_factor_range
    by simp_all
  have b: "7810 \<le> ?b" "?b \<le> 500000" "0 < ?b" using bw_hz_range [of "rc_bandwidth rc"] by auto
  have "div_ceil_u64 (2 ^ ?f * 1000000) ?b \<le> 524456"
  proof (rule div_ceil_minimal [OF b(3)])
    have "2 ^ ?f * 1000000 \<le> (4096 * 1000000 :: nat)" using hi by simp
    also have "\<dots> \<le> 524456 * 7810" by simp
    also have "\<dots> \<le> 524456 * ?b" using b(1) by simp
    finally show "2 ^ ?f * 1000000 \<le> 524456 * ?b" .
  qed
  moreover have "64 * ?b \<le> div_ceil_u64 (2 ^ ?f * 1000000) ?b * ?b"
  proof -
    have "64 * ?b \<le> 32 * 1000000" using b(2) by simp
    also have "\<dots> \<le> 2 ^ ?f * 1000000" using lo by simp
    also have "\<dots> \<le> div_ceil_u64 (2 ^ ?f * 1000000) ?b * ?b" by (rule div_ceil_ge [OF b(3)])
    finally show ?thesis .
  qed
  ultimately show ?thesis using b(3) by (simp add: symbol_time_us_def Let_def)
qed

lemma int_div_le: "0 < d \<Longrightarrow> a < (k + 1) * d \<Longrightarrow> a div d \<le> k" for a d k :: int
proof -
  assume d: "0 < d" and "a < (k + 1) * d"
  then have "a \<le> k * d + (d - 1)" by (simp add: algebra_simps)
  then have "a div d \<le> (k * d + (d - 1)) div d" using d by (intro zdiv_mono1)
  also have "\<dots> = k" using d by simp
  finally show ?thesis .
qed

lemma div_ceil_pos: "0 < d \<Longrightarrow> 0 < n \<Longrightarrow> 0 < div_ceil_u64 n d"
  using div_ceil_ge [of d n] by (cases "div_ceil_u64 n d = 0") auto

lemma payload_symbol_count_bound:
  assumes "n \<le> 255"
  shows "payload_symbol_count n f c de \<le> 8 + 8 * 173"
proof -
  define sf where "sf = int (sf_factor f)"
  define den where "den = 4 * (sf - 2 * (if de then 1 else 0))"
  define num where "num = 8 * int n - 4 * sf + 28 + 16 * 1 - 20 * 0"
  have sf: "5 \<le> sf" using sf_factor_range [of f] by (simp add: sf_def)
  then have den: "12 \<le> den" by (simp add: den_def)
  have num: "num \<le> 2064" using assms sf by (simp add: num_def)
  have "(num + den - 1) div den \<le> 173"
    using den num by (intro int_div_le) (simp_all add: algebra_simps)
  then have "nat ((num + den - 1) div den) * cr_denominator c \<le> 173 * 8"
    using cr_denominator_range [of c] by (intro mult_le_mono) auto
  moreover have "payload_symbol_count n f c de =
      8 + (if num \<le> 0 then 0 else nat ((num + den - 1) div den) * cr_denominator c)"
    by (simp add: payload_symbol_count_def Let_def num_def den_def sf_def)
  ultimately show ?thesis by simp
qed

lemma packet_airtime_bound:
  assumes "n \<le> 255"
  shows "packet_airtime_ms rc n \<le> 736549"
proof -
  let ?st = "symbol_time_us rc"
  let ?ps = "payload_symbol_count n (rc_spreading_factor rc) (rc_coding_rate rc) (16000 \<le> ?st)"
  have st: "?st \<le> 524456" using symbol_time_us_range by simp
  have "div_ceil_u64 (?st * (PREAMBLE_LENGTH * 4 + 17)) 4 \<le> 6424586"
    using st by (intro div_ceil_minimal) (simp_all add: PREAMBLE_LENGTH_def)
  moreover have "?ps * ?st \<le> (8 + 8 * 173) * 524456"
    using payload_symbol_count_bound [OF assms] st by (rule mult_le_mono)
  ultimately have "div_ceil_u64 (div_ceil_u64 (?st * (PREAMBLE_LENGTH * 4 + 17)) 4 + ?ps * ?st) 1000 \<le> 736549"
    by (intro div_ceil_minimal) simp_all
  then show ?thesis by (simp add: packet_airtime_ms_def Let_def)
qed

text \<open>For every packet the radio can hold, no intermediate value of the computation leaves its
  machine type and the clamps to \<open>u32::MAX\<close> do nothing.\<close>

definition airtime_fits :: "radio_config \<Rightarrow> nat \<Rightarrow> bool" where
  "airtime_fits rc n \<longleftrightarrow>
     (let st = symbol_time_us rc;
          ps = payload_symbol_count n (rc_spreading_factor rc) (rc_coding_rate rc) (16000 \<le> st)
      in 2 ^ sf_factor (rc_spreading_factor rc) * 1000000 < (2 ^ 64 :: nat)
         \<and> 8 * n + 28 + 16 < 2 ^ 31 \<and> ps < 2 ^ 32
         \<and> st * (PREAMBLE_LENGTH * 4 + 17) < 2 ^ 64 \<and> ps * st < 2 ^ 64
         \<and> packet_airtime_ms rc n < 2 ^ 32 - 1 \<and> symbol_time_ms rc < 2 ^ 32 - 1)"

lemma airtime_fits_buffer:
  assumes "n \<le> 255"
  shows "airtime_fits rc n"
proof -
  let ?st = "symbol_time_us rc"
  let ?ps = "payload_symbol_count n (rc_spreading_factor rc) (rc_coding_rate rc) (16000 \<le> ?st)"
  have st: "?st \<le> 524456" using symbol_time_us_range by simp
  have ps: "?ps \<le> 8 + 8 * 173" by (rule payload_symbol_count_bound [OF assms])
  have "2 ^ sf_factor (rc_spreading_factor rc) \<le> (2 ^ 12 :: nat)"
    using sf_factor_range by (intro power_increasing) simp_all
  moreover have "?ps * ?st \<le> (8 + 8 * 173) * 524456" using ps st by (rule mult_le_mono)
  moreover have "?st * (PREAMBLE_LENGTH * 4 + 17) \<le> 524456 * 49"
    using st by (intro mult_le_mono) (simp_all add: PREAMBLE_LENGTH_def)
  moreover have "symbol_time_ms rc \<le> 525"
    using st div_ceil_minimal [of 1000 ?st 525] by (simp add: symbol_time_ms_def)
  ultimately show ?thesis
    using ps assms packet_airtime_bound [OF assms, of rc]
    by (simp add: airtime_fits_def Let_def)
qed

text \<open>A longer packet never takes less time.\<close>

lemma payload_symbol_count_mono:
  assumes "m \<le> n"
  shows "payload_symbol_count m f c de \<le> payload_symbol_count n f c de"
proof -
  let ?sf = "int (sf_factor f)" and ?de = "if de then 1 else 0 :: int"
  let ?num = "\<lambda>k. 8 * int k - 4 * ?sf + 28 + 16 * 1 - 20 * 0"
  let ?den = "4 * (?sf - 2 * ?de)"
  have den: "0 < ?den" using sf_factor_range [of f] by (cases de) simp_all
  have le: "?num m \<le> ?num n" using assms by simp
  have "(?num m + ?den - 1) div ?den \<le> (?num n + ?den - 1) div ?den"
    using le den by (intro zdiv_mono1) simp_all
  then have "nat ((?num m + ?den - 1) div ?den) * cr_denominator c
      \<le> nat ((?num n + ?den - 1) div ?den) * cr_denominator c"
    by (intro mult_le_mono nat_mono) simp_all
  with le show ?thesis
    unfolding payload_symbol_count_def Let_def by auto
qed

lemma packet_airtime_mono: "m \<le> n \<Longrightarrow> packet_airtime_ms rc m \<le> packet_airtime_ms rc n"
  unfolding packet_airtime_ms_def Let_def
  by (intro min.mono div_ceil_mono add_left_mono mult_le_mono payload_symbol_count_mono) simp_all

lemma packet_airtime_pos: "0 < packet_airtime_ms rc n"
proof -
  let ?st = "symbol_time_us rc"
  have "64 * 49 \<le> ?st * (PREAMBLE_LENGTH * 4 + 17)"
    using symbol_time_us_range [of rc] by (intro mult_le_mono) (simp_all add: PREAMBLE_LENGTH_def)
  also have "\<dots> \<le> div_ceil_u64 (?st * (PREAMBLE_LENGTH * 4 + 17)) 4 * 4" by (rule div_ceil_ge) simp
  finally have "0 < div_ceil_u64 (?st * (PREAMBLE_LENGTH * 4 + 17)) 4" by simp
  then have "0 < div_ceil_u64 (div_ceil_u64 (?st * (PREAMBLE_LENGTH * 4 + 17)) 4 + x) 1000" for x
    by (intro div_ceil_pos) simp_all
  then show ?thesis by (simp add: packet_airtime_ms_def Let_def)
qed

section \<open>Properties\<close>

text \<open>C30: For every radio configuration and every packet of up to 255 bytes the airtime computation stays
  within its machine integers and never reaches the clamps; the airtime is at least one millisecond, at
  most 737 seconds, and grows with the length of the packet.\<close>

theorem airtime_exact:
  assumes "n \<le> 255" and "m \<le> n"
  shows "airtime_fits rc n \<and> packet_airtime_ms rc n \<le> 736549 \<and> 0 < packet_airtime_ms rc m
    \<and> packet_airtime_ms rc m \<le> packet_airtime_ms rc n"
  using assms airtime_fits_buffer packet_airtime_bound packet_airtime_pos packet_airtime_mono by blast

theorem airtime_exact_witness:
  "packet_airtime_ms \<lparr>rc_receive_frequency_hz = 869525000, rc_spreading_factor = Sf8, rc_bandwidth = Khz62_5,
      rc_coding_rate = Cr4_8, rc_transmit_power_dbm = 14\<rparr> 7
   \<le> packet_airtime_ms \<lparr>rc_receive_frequency_hz = 869525000, rc_spreading_factor = Sf8, rc_bandwidth = Khz62_5,
      rc_coding_rate = Cr4_8, rc_transmit_power_dbm = 14\<rparr> 255"
  using airtime_exact [of 255 7 "\<lparr>rc_receive_frequency_hz = 869525000, rc_spreading_factor = Sf8,
      rc_bandwidth = Khz62_5, rc_coding_rate = Cr4_8, rc_transmit_power_dbm = 14\<rparr>"] by simp

text \<open>C31: A bandwidth given in hertz selects a supported bandwidth exactly when it is within one percent
  of it, so at most one; spreading factors and coding rates are read back as written.\<close>

theorem radio_settings_parse:
  "(bw_from_hz hz = Some b \<longleftrightarrow> abs_diff hz (bw_hz b) \<le> bw_hz b div 100)
   \<and> bw_from_hz (bw_hz b) = Some b
   \<and> (sf_from_factor k = Some f \<longleftrightarrow> sf_factor f = k)
   \<and> (cr_from_denominator d = Some c \<longleftrightarrow> cr_denominator c = d)"
  using bw_from_hz_iff bw_round_trip sf_round_trip cr_round_trip by blast

end
