(* ===== verification/Config_Values.thy ===== *)
theory Config_Values
  imports Rust_Text Rust_Num Paths Identity Regions Radio
begin

text \<open>
  The values of the configuration and their text forms (\<open>app/config.rs\<close>, and \<open>LoopDetection\<close> of
  \<open>app/mod.rs\<close>): names and passwords cut to size, escaping, switches, hop limits, coordinates.
  Strings are lists of code points, \<open>i32\<close> coordinates integers. The MQTT settings belong to an
  optional feature and are left out.
\<close>

datatype config_error =
    CfgUnknownSetting | CfgInvalidName | CfgInvalidAcl | CfgInvalidLatitude | CfgInvalidLongitude
  | CfgInvalidFrequency | CfgInvalidTransmitPower | CfgInvalidDutyCycle | CfgInvalidFloodMaxHops
  | CfgInvalidPathHashMode | CfgInvalidTier | CfgInvalidNtpHost | CfgInvalidWifiConfig
  | CfgInheritedRegion | CfgRegion region_error

type_synonym 'a config_result = "(config_error, 'a) res"

definition MAX_REMOTE_PASSWORD_LEN :: nat where "MAX_REMOTE_PASSWORD_LEN = 64"
definition MAX_WIFI_SSID_LEN :: nat where "MAX_WIFI_SSID_LEN = 32"
definition MIN_WIFI_PASSWORD_LEN :: nat where "MIN_WIFI_PASSWORD_LEN = 8"
definition MAX_WIFI_PASSWORD_LEN :: nat where "MAX_WIFI_PASSWORD_LEN = 63"
definition MAX_NODE_NAME_LEN :: nat where "MAX_NODE_NAME_LEN = 31"
definition MAX_OWNER_INFO_LEN :: nat where "MAX_OWNER_INFO_LEN = 119"
definition COORDINATE_SCALE :: int where "COORDINATE_SCALE = 1000000"
definition MIN_LATITUDE_MICRODEGREES :: int where "MIN_LATITUDE_MICRODEGREES = - 90 * COORDINATE_SCALE"
definition MAX_LATITUDE_MICRODEGREES :: int where "MAX_LATITUDE_MICRODEGREES = 90 * COORDINATE_SCALE"
definition MIN_LONGITUDE_MICRODEGREES :: int where "MIN_LONGITUDE_MICRODEGREES = - 180 * COORDINATE_SCALE"
definition MAX_LONGITUDE_MICRODEGREES :: int where "MAX_LONGITUDE_MICRODEGREES = 180 * COORDINATE_SCALE"

lemmas coordinate_limits = COORDINATE_SCALE_def MIN_LATITUDE_MICRODEGREES_def
  MAX_LATITUDE_MICRODEGREES_def MIN_LONGITUDE_MICRODEGREES_def MAX_LONGITUDE_MICRODEGREES_def

lemmas text_limits = MAX_REMOTE_PASSWORD_LEN_def MAX_WIFI_SSID_LEN_def MIN_WIFI_PASSWORD_LEN_def
  MAX_WIFI_PASSWORD_LEN_def MAX_NODE_NAME_LEN_def MAX_OWNER_INFO_LEN_def

section \<open>Names and passwords\<close>

definition forbidden_name_char :: "rchar \<Rightarrow> bool" where
  "forbidden_name_char c \<longleftrightarrow> c = 91 \<or> c = 93 \<or> c = 92 \<or> c = 58 \<or> c = 44 \<or> c = 63 \<or> c = 42"

fun fit_name_chars :: "rstr \<Rightarrow> rstr \<Rightarrow> rstr config_result" where
  "fit_name_chars [] output = Ok output"
| "fit_name_chars (c # cs) output =
     (if forbidden_name_char c then Err CfgInvalidName
      else if MAX_NODE_NAME_LEN < str_len output + len_utf8 c then Ok output
      else fit_name_chars cs (output @ [c]))"

definition fit_node_name :: "rstr \<Rightarrow> rstr config_result" where
  "fit_node_name input =
     (let input = trim input in
      if input = [] then Err CfgInvalidName
      else and_then (fit_name_chars input []) (\<lambda>output.
        if output = [] then Err CfgInvalidName else Ok output))"

fun fit_owner_chars :: "rstr \<Rightarrow> rstr \<Rightarrow> rstr" where
  "fit_owner_chars [] output = output"
| "fit_owner_chars (c # cs) output =
     (if c = 0 \<or> MAX_OWNER_INFO_LEN < str_len output + len_utf8 c then output
      else fit_owner_chars cs (output @ [if c = 124 then 10 else c]))"

definition fit_owner_info :: "rstr \<Rightarrow> rstr" where
  "fit_owner_info input = fit_owner_chars input []"

fun fit_password_chars :: "rstr \<Rightarrow> rstr \<Rightarrow> rstr" where
  "fit_password_chars [] output = output"
| "fit_password_chars (c # cs) output =
     (if MAX_REMOTE_PASSWORD_LEN < str_len output + len_utf8 c then output
      else fit_password_chars cs (output @ [c]))"

definition fit_password :: "rstr \<Rightarrow> rstr" where
  "fit_password input =
     (let output = fit_password_chars input [] in
      if output = [] then REMOTE_CLI_PASSWORD else output)"

section \<open>Escaping\<close>

definition escape_char :: "rchar \<Rightarrow> rstr" where
  "escape_char c =
     (if c = 92 then [92, 92] else if c = 10 then [92, 110] else if c = 13 then [92, 114] else [c])"

definition write_escaped_value :: "rstr \<Rightarrow> rstr" where
  "write_escaped_value value = concat (map escape_char value)"

fun unescape_chars :: "rstr \<Rightarrow> bool \<Rightarrow> rstr \<Rightarrow> rstr option" where
  "unescape_chars [] escaped output = (if escaped then None else Some output)"
| "unescape_chars (c # cs) escaped output =
     (if escaped
      then if c = 92 then unescape_chars cs False (output @ [92])
           else if c = 110 then unescape_chars cs False (output @ [10])
           else if c = 114 then unescape_chars cs False (output @ [13])
           else None
      else if c = 92 then unescape_chars cs True output
      else unescape_chars cs False (output @ [c]))"

definition unescape_value :: "rstr \<Rightarrow> rstr option" where
  "unescape_value input = unescape_chars input False []"

section \<open>Switches and limits\<close>

definition parse_repeat :: "rstr \<Rightarrow> bool option" where
  "parse_repeat input =
     (let input = trim input in
      if input = lit ''on'' then Some True else if input = lit ''off'' then Some False else None)"

definition repeat_text :: "bool \<Rightarrow> rstr" where
  "repeat_text enabled = (if enabled then lit ''on'' else lit ''off'')"

definition parse_bool :: "rstr \<Rightarrow> bool option" where
  "parse_bool input =
     (let input = trim input in
      if input = lit ''true'' \<or> input = lit ''yes'' \<or> input = lit ''on'' \<or> input = lit ''1'' then Some True
      else if input = lit ''false'' \<or> input = lit ''no'' \<or> input = lit ''off'' \<or> input = lit ''0'' then Some False
      else None)"

definition validate_flood_max_hops :: "nat \<Rightarrow> unit config_result" where
  "validate_flood_max_hops hops = (if hops \<le> 63 then Ok () else Err CfgInvalidFloodMaxHops)"

definition validate_path_hash_mode :: "nat \<Rightarrow> unit config_result" where
  "validate_path_hash_mode mode = (if mode \<le> 2 then Ok () else Err CfgInvalidPathHashMode)"

definition parse_flood_max_hops :: "rstr \<Rightarrow> nat option" where
  "parse_flood_max_hops input =
     (case parse_unsigned 255 (trim input) of
        None \<Rightarrow> None
      | Some hops \<Rightarrow> map_option (\<lambda>_. hops) (res_ok (validate_flood_max_hops hops)))"

definition parse_path_hash_mode :: "rstr \<Rightarrow> nat option" where
  "parse_path_hash_mode input =
     (case parse_unsigned 255 (trim input) of
        None \<Rightarrow> None
      | Some mode \<Rightarrow> map_option (\<lambda>_. mode) (res_ok (validate_path_hash_mode mode)))"

definition clamp_advert_interval :: "nat \<Rightarrow> nat" where
  "clamp_advert_interval minutes = (if 1 \<le> minutes \<and> minutes \<le> 59 then 60 else minutes)"

definition ntp_byte_ok :: "u8 \<Rightarrow> bool" where
  "ntp_byte_ok b \<longleftrightarrow> (48 \<le> b \<and> b \<le> 57) \<or> (65 \<le> b \<and> b \<le> 90) \<or> (97 \<le> b \<and> b \<le> 122)
     \<or> b = 46 \<or> b = 45 \<or> b = 95"

definition validate_ntp_host :: "rstr \<Rightarrow> unit config_result" where
  "validate_ntp_host host =
     (if host = [] \<or> 253 < str_len host \<or> \<not> list_all ntp_byte_ok (str_bytes host)
      then Err CfgInvalidNtpHost else Ok ())"

section \<open>Loop detection\<close>

datatype loop_detection = LoopOff | LoopMinimal | LoopModerate | LoopStrict

definition loop_parse :: "rstr \<Rightarrow> loop_detection option" where
  "loop_parse value =
     (if value = lit ''off'' then Some LoopOff
      else if value = lit ''minimal'' then Some LoopMinimal
      else if value = lit ''moderate'' then Some LoopModerate
      else if value = lit ''strict'' then Some LoopStrict
      else None)"

fun loop_as_str :: "loop_detection \<Rightarrow> rstr" where
  "loop_as_str LoopOff = lit ''off''"
| "loop_as_str LoopMinimal = lit ''minimal''"
| "loop_as_str LoopModerate = lit ''moderate''"
| "loop_as_str LoopStrict = lit ''strict''"

fun loop_threshold :: "loop_detection \<Rightarrow> hash_size \<Rightarrow> nat option" where
  "loop_threshold LoopOff _ = None"
| "loop_threshold LoopMinimal HashOne = Some 4"
| "loop_threshold LoopMinimal HashTwo = Some 2"
| "loop_threshold LoopModerate HashOne = Some 2"
| "loop_threshold _ _ = Some 1"

definition detects_loop :: "loop_detection \<Rightarrow> path \<Rightarrow> bytes \<Rightarrow> bool" where
  "detects_loop mode path nh =
     (case loop_threshold mode (path_hash_size path) of
        None \<Rightarrow> False
      | Some threshold \<Rightarrow>
          threshold \<le> length (filter (\<lambda>hash. starts_with nh hash) (path_hashes path)))"

section \<open>Coordinates\<close>

definition checked_i64 :: "int \<Rightarrow> int option" where
  "checked_i64 x = (if i64_min \<le> x \<and> x \<le> i64_max then Some x else None)"

definition push_digit :: "int \<Rightarrow> rchar \<Rightarrow> int option" where
  "push_digit n c =
     (case checked_i64 (n * 10) of None \<Rightarrow> None | Some m \<Rightarrow> checked_i64 (m + int (c - 48)))"

text \<open>The scan of the digits: whole part, fraction, digits of the fraction kept, a dot seen, a digit
  seen.\<close>

fun coord_scan ::
  "rstr \<Rightarrow> int \<times> int \<times> nat \<times> bool \<times> bool \<Rightarrow> (int \<times> int \<times> nat \<times> bool \<times> bool) option"
where
  "coord_scan [] st = Some st"
| "coord_scan (c # cs) (whole, fraction, digits, seen_dot, saw_digit) =
     (if is_digit c \<and> \<not> seen_dot
      then case push_digit whole c of
             None \<Rightarrow> None
           | Some whole \<Rightarrow> coord_scan cs (whole, fraction, digits, seen_dot, True)
      else if is_digit c
      then if digits < 6
           then case push_digit fraction c of
                  None \<Rightarrow> None
                | Some fraction \<Rightarrow> coord_scan cs (whole, fraction, digits + 1, seen_dot, True)
           else coord_scan cs (whole, fraction, digits, seen_dot, True)
      else if c = 46 \<and> \<not> seen_dot then coord_scan cs (whole, fraction, digits, True, saw_digit)
      else None)"

fun pad_fraction :: "nat \<Rightarrow> int \<Rightarrow> int option" where
  "pad_fraction 0 fraction = Some fraction"
| "pad_fraction (Suc n) fraction =
     (case checked_i64 (fraction * 10) of None \<Rightarrow> None | Some f \<Rightarrow> pad_fraction n f)"

definition parse_coordinate_microdegrees :: "rstr \<Rightarrow> int option" where
  "parse_coordinate_microdegrees input =
     (let (negative, input) =
        (case input of
           c # rest \<Rightarrow> if c = 45 then (True, rest) else if c = 43 then (False, rest) else (False, input)
         | [] \<Rightarrow> (False, input)) in
      if input = [] then None
      else case coord_scan input (0, 0, 0, False, False) of
        None \<Rightarrow> None
      | Some (whole, fraction, digits, _, saw_digit) \<Rightarrow>
          if \<not> saw_digit then None
          else case pad_fraction (6 - digits) fraction of
            None \<Rightarrow> None
          | Some fraction \<Rightarrow>
              (case checked_i64 (whole * COORDINATE_SCALE) of
                 None \<Rightarrow> None
               | Some scaled \<Rightarrow>
                   (case checked_i64 (scaled + fraction) of
                      None \<Rightarrow> None
                    | Some value \<Rightarrow>
                        let value = (if negative then - value else value) in
                        if - (2 ^ 31) \<le> value \<and> value < 2 ^ 31 then Some value else None)))"

definition parse_optional_coordinate :: "rstr \<Rightarrow> int \<Rightarrow> int \<Rightarrow> int option option" where
  "parse_optional_coordinate input lo hi =
     (let input = trim input in
      if input = [] \<or> input = lit ''none'' \<or> input = lit ''null'' \<or> input = lit ''<null>''
      then Some None
      else case parse_coordinate_microdegrees input of
        None \<Rightarrow> None
      | Some value \<Rightarrow> if lo \<le> value \<and> value \<le> hi then Some (Some value) else None)"

definition parse_latitude_microdegrees :: "rstr \<Rightarrow> int option option" where
  "parse_latitude_microdegrees input =
     parse_optional_coordinate input MIN_LATITUDE_MICRODEGREES MAX_LATITUDE_MICRODEGREES"

definition parse_longitude_microdegrees :: "rstr \<Rightarrow> int option option" where
  "parse_longitude_microdegrees input =
     parse_optional_coordinate input MIN_LONGITUDE_MICRODEGREES MAX_LONGITUDE_MICRODEGREES"

definition validate_latitude :: "int \<Rightarrow> unit config_result" where
  "validate_latitude v =
     (if MIN_LATITUDE_MICRODEGREES \<le> v \<and> v \<le> MAX_LATITUDE_MICRODEGREES then Ok () else Err CfgInvalidLatitude)"

definition validate_longitude :: "int \<Rightarrow> unit config_result" where
  "validate_longitude v =
     (if MIN_LONGITUDE_MICRODEGREES \<le> v \<and> v \<le> MAX_LONGITUDE_MICRODEGREES then Ok () else Err CfgInvalidLongitude)"

definition pad6 :: "nat \<Rightarrow> rstr" where
  "pad6 n = replicate (6 - length (show_nat n)) 48 @ show_nat n"

definition write_optional_coordinate :: "int option \<Rightarrow> rstr" where
  "write_optional_coordinate coordinate =
     (case coordinate of
        None \<Rightarrow> []
      | Some c \<Rightarrow> (if c < 0 then [45] else []) @ show_nat (nat \<bar>c\<bar> div 1000000) @ [46]
                  @ pad6 (nat \<bar>c\<bar> mod 1000000))"

section \<open>What the text forms keep\<close>

lemma trim_printable: "list_all (\<lambda>c. 33 \<le> c \<and> c \<le> 126) s \<Longrightarrow> trim s = s"
  by (rule trim_no_whitespace) (auto simp: list_all_iff is_whitespace_def)

lemma unescape_escape_char:
  "unescape_chars (escape_char c @ rest) False output = unescape_chars rest False (output @ [c])"
  by (simp add: escape_char_def)

lemma unescape_chars_escaped:
  "unescape_chars (concat (map escape_char v)) False acc = Some (acc @ v)"
  by (induction v arbitrary: acc) (simp_all add: unescape_escape_char)

lemma unescape_escape: "unescape_value (write_escaped_value v) = Some v"
  by (simp add: unescape_value_def write_escaped_value_def unescape_chars_escaped)

text \<open>An escaped value is one line, so it cannot inject a setting.\<close>

lemma escaped_no_newline: "10 \<notin> set (write_escaped_value v) \<and> 13 \<notin> set (write_escaped_value v)"
  by (auto simp: write_escaped_value_def escape_char_def split: if_splits)

lemma str_len_append [simp]: "str_len (a @ b) = str_len a + str_len b"
  by (simp add: str_len_def str_bytes_def)

lemma str_len_char [simp]: "str_len [c] = len_utf8 c"
  by (simp add: str_len_def str_bytes_def char_bytes_def len_utf8_def)

lemma str_len_Nil [simp]: "str_len [] = 0"
  by (simp add: str_len_def str_bytes_def)

lemma fit_name_chars_OkD:
  "fit_name_chars cs out = Ok r \<Longrightarrow> str_len out \<le> MAX_NODE_NAME_LEN \<Longrightarrow>
     str_len r \<le> MAX_NODE_NAME_LEN \<and> (\<exists>k. r = out @ take k cs)
     \<and> (\<forall>c \<in> set r. c \<in> set out \<or> \<not> forbidden_name_char c)"
proof (induction cs out rule: fit_name_chars.induct)
  case (2 c cs out)
  show ?case
  proof (cases "\<not> forbidden_name_char c \<and> \<not> MAX_NODE_NAME_LEN < str_len out + len_utf8 c")
    case True
    then have "fit_name_chars cs (out @ [c]) = Ok r" "str_len (out @ [c]) \<le> MAX_NODE_NAME_LEN"
      using 2(2) by simp_all
    from 2(1) [OF _ _ this] True obtain k where k: "str_len r \<le> MAX_NODE_NAME_LEN" "r = (out @ [c]) @ take k cs"
      "\<forall>c' \<in> set r. c' \<in> set (out @ [c]) \<or> \<not> forbidden_name_char c'" by blast
    have "r = out @ take (Suc k) (c # cs)" using k(2) by simp
    then show ?thesis using k True by (intro conjI exI [of _ "Suc k"]) auto
  next
    case False
    then have "r = out" using 2(2) by (auto split: if_splits)
    then show ?thesis using 2(3) by (auto intro: exI [of _ 0])
  qed
qed auto

lemma fit_node_name_OkD:
  assumes "fit_node_name s = Ok r"
  shows "r \<noteq> []" "str_len r \<le> 31" "list_all (\<lambda>c. \<not> forbidden_name_char c) r" "\<exists>k. r = take k (trim s)"
proof -
  have f: "fit_name_chars (trim s) [] = Ok r" "r \<noteq> []"
    using assms by (auto simp: fit_node_name_def Let_def and_then_Ok_iff split: if_splits)
  from fit_name_chars_OkD [OF f(1)] f(2)
  show "r \<noteq> []" "str_len r \<le> 31" "list_all (\<lambda>c. \<not> forbidden_name_char c) r" "\<exists>k. r = take k (trim s)"
    by (auto simp: text_limits list_all_iff)
qed

lemma fit_node_name_valid: "fit_node_name s = Ok r \<Longrightarrow> valid_str s \<Longrightarrow> valid_str r"
  using set_trim [of s]
  by (auto simp: valid_str_def list_all_iff dest!: fit_node_name_OkD(4) in_set_takeD)

lemma fit_password_chars_le:
  "str_len out \<le> MAX_REMOTE_PASSWORD_LEN \<Longrightarrow> str_len (fit_password_chars cs out) \<le> MAX_REMOTE_PASSWORD_LEN"
  by (induction cs out rule: fit_password_chars.induct) auto

lemma fit_password_chars_id:
  "str_len (out @ cs) \<le> MAX_REMOTE_PASSWORD_LEN \<Longrightarrow> fit_password_chars cs out = out @ cs"
proof (induction cs out rule: fit_password_chars.induct)
  case (2 c cs out)
  have "str_len (out @ c # cs) = str_len out + len_utf8 c + str_len cs"
    using str_len_append [of "out @ [c]" cs] by simp
  then show ?case using 2 by (simp del: str_len_append)
qed simp

lemma str_len_password_default: "str_len REMOTE_CLI_PASSWORD = 8"
  by (simp add: REMOTE_CLI_PASSWORD_def lit_def str_len_def str_bytes_def char_bytes_def)

lemma fit_password_bounds: "fit_password s \<noteq> [] \<and> str_len (fit_password s) \<le> 64"
  using fit_password_chars_le [of "[]" s] str_len_password_default
  by (auto simp: fit_password_def Let_def text_limits REMOTE_CLI_PASSWORD_def lit_def)

lemma fit_password_idem: "fit_password (fit_password s) = fit_password s"
proof -
  have "fit_password_chars (fit_password s) [] = fit_password s"
    using fit_password_chars_id [of "[]" "fit_password s"] fit_password_bounds [of s] by (simp add: text_limits)
  then show ?thesis using fit_password_bounds [of s] by (simp add: fit_password_def [of "fit_password s"])
qed

lemma loop_round_trip: "loop_parse (loop_as_str m) = Some m"
  by (cases m) (simp_all add: loop_parse_def lit_def)

lemma parse_repeat_text: "parse_repeat (repeat_text b) = Some b"
  by (simp add: parse_repeat_def repeat_text_def lit_def trim_no_whitespace is_whitespace_def)

lemma parse_bool_text: "parse_bool (bool_text b) = Some b"
  by (simp add: parse_bool_def bool_text_def lit_def trim_no_whitespace is_whitespace_def)

section \<open>Coordinates are read back as written\<close>

definition digit_step :: "int \<Rightarrow> rchar \<Rightarrow> int" where
  "digit_step n c = n * 10 + int (c - 48)"

lemma digit_step_ge: "0 \<le> n \<Longrightarrow> n \<le> foldl digit_step n ds"
proof (induction ds arbitrary: n)
  case (Cons d ds)
  have "0 \<le> digit_step n d" "n \<le> digit_step n d" using Cons.prems by (simp_all add: digit_step_def)
  then show ?case using Cons.IH [of "digit_step n d"] by simp
qed simp

lemma push_digit_fits:
  "0 \<le> n \<Longrightarrow> digit_step n c \<le> i64_max \<Longrightarrow> push_digit n c = Some (digit_step n c)"
  by (simp add: push_digit_def checked_i64_def digit_step_def i64_min_def i64_max_def)

lemma coord_scan_whole:
  "list_all is_digit ds \<Longrightarrow> 0 \<le> w \<Longrightarrow> foldl digit_step w ds \<le> i64_max \<Longrightarrow>
     coord_scan (ds @ rest) (w, f, n, False, s)
       = coord_scan rest (foldl digit_step w ds, f, n, False, s \<or> ds \<noteq> [])"
proof (induction ds arbitrary: w s)
  case (Cons d ds)
  have z: "0 \<le> digit_step w d" using Cons.prems(2) by (simp add: digit_step_def)
  have "digit_step w d \<le> i64_max" using digit_step_ge [OF z, of ds] Cons.prems(3) by simp
  then show ?case using Cons z push_digit_fits by simp
qed simp

lemma coord_scan_fraction:
  "list_all is_digit ds \<Longrightarrow> 0 \<le> f \<Longrightarrow> n + length ds \<le> 6 \<Longrightarrow> foldl digit_step f ds \<le> i64_max \<Longrightarrow>
     coord_scan ds (w, f, n, True, s)
       = Some (w, foldl digit_step f ds, n + length ds, True, s \<or> ds \<noteq> [])"
proof (induction ds arbitrary: f n s)
  case (Cons d ds)
  have z: "0 \<le> digit_step f d" using Cons.prems(2) by (simp add: digit_step_def)
  have "digit_step f d \<le> i64_max" using digit_step_ge [OF z, of ds] Cons.prems(4) by simp
  then show ?case using Cons z push_digit_fits by simp
qed simp

lemma foldl_digit_step: "foldl digit_step 0 ds = int (digits_value ds)"
proof (induction ds rule: rev_induct)
  case (snoc c ds)
  then show ?case by (simp add: digit_step_def)
qed (simp add: digits_value_def)

lemma length_show_nat: "n < 10 ^ k \<Longrightarrow> 0 < k \<Longrightarrow> length (show_nat n) \<le> k"
proof (induction n arbitrary: k rule: show_nat.induct)
  case (1 n)
  show ?case
  proof (cases "n < 10")
    case True
    then show ?thesis using 1(3) by (subst show_nat.simps) simp
  next
    case False
    then obtain j where k: "k = Suc j" "0 < j" using 1(2) by (cases k; cases "k - 1") auto
    have "n div 10 < 10 ^ j" using 1(2) k by (simp add: less_mult_imp_div_less mult.commute)
    then have "length (show_nat (n div 10)) \<le> j" using 1(1) [OF False] k by blast
    then show ?thesis using False k by (subst show_nat.simps) simp
  qed
qed

lemma pad6_digits:
  assumes "n < 1000000"
  shows "length (pad6 n) = 6" and "list_all is_digit (pad6 n)" and "digits_value (pad6 n) = n"
proof -
  have "length (show_nat n) \<le> 6" using length_show_nat [of n 6] assms by simp
  then show "length (pad6 n) = 6" by (simp add: pad6_def)
  show "list_all is_digit (pad6 n)"
    using show_nat_digits [of n] by (auto simp: pad6_def list_all_iff is_digit_def)
  have z: "foldl (\<lambda>n c. n * 10 + (c - 48)) 0 (replicate k 48) = (0 :: nat)" for k
    by (induction k) simp_all
  have "digits_value (replicate k 48 @ ds) = digits_value ds" for k ds
    using z [of k] by (simp add: digits_value_def)
  then show "digits_value (pad6 n) = n" by (simp add: pad6_def)
qed

lemma digit_not_sign: "list_all is_digit ds \<Longrightarrow> ds \<noteq> [] \<Longrightarrow> hd ds \<noteq> 45 \<and> hd ds \<noteq> 43 \<and> hd ds \<noteq> 110 \<and> hd ds \<noteq> 60"
  by (cases ds) (auto simp: is_digit_def)

lemma parse_written_coordinate:
  fixes c :: int
  assumes c: "\<bar>c\<bar> \<le> 180000000"
  defines "body \<equiv> show_nat (nat \<bar>c\<bar> div 1000000) @ 46 # pad6 (nat \<bar>c\<bar> mod 1000000)"
  shows "parse_coordinate_microdegrees ((if c < 0 then [45] else []) @ body) = Some c"
proof -
  let ?w = "nat \<bar>c\<bar> div 1000000" and ?f = "nat \<bar>c\<bar> mod 1000000"
  have w: "?w \<le> 180" using c by (simp add: div_le_mono [of _ 180000000 1000000, simplified])
  have f: "?f < 1000000" by simp
  note sd = show_nat_digits [of ?w] and pd = pad6_digits [OF f]
  have "coord_scan (show_nat ?w @ 46 # pad6 ?f) (0, 0, 0, False, False)
      = coord_scan (46 # pad6 ?f) (int ?w, 0, 0, False, True)"
    using coord_scan_whole [of "show_nat ?w" 0 "46 # pad6 ?f" 0 0 False] sd w
    by (simp add: foldl_digit_step i64_max_def)
  also have "\<dots> = coord_scan (pad6 ?f) (int ?w, 0, 0, True, True)" by (simp add: is_digit_def)
  also have "\<dots> = Some (int ?w, int ?f, 6, True, True)"
    using coord_scan_fraction [of "pad6 ?f" 0 0 "int ?w" True] pd f by (simp add: foldl_digit_step i64_max_def)
  finally have scan: "coord_scan body (0, 0, 0, False, False) = Some (int ?w, int ?f, 6, True, True)"
    by (simp add: body_def)
  have "?w * 1000000 + ?f = nat \<bar>c\<bar>" by (rule div_mult_mod_eq)
  then have "int (?w * 1000000 + ?f) = \<bar>c\<bar>" by simp
  then have sum: "int ?w * 1000000 + int ?f = \<bar>c\<bar>" by (simp only: of_nat_add of_nat_mult of_nat_numeral)
  have body: "body \<noteq> []" "hd body \<noteq> 45" "hd body \<noteq> 43"
    using digit_not_sign [of "show_nat ?w"] sd by (simp_all add: body_def)
  show ?thesis
  proof (cases "c < 0")
    case True
    then show ?thesis using scan body(1) sum c w f
      by (simp add: parse_coordinate_microdegrees_def COORDINATE_SCALE_def checked_i64_def i64_min_def i64_max_def Let_def)
  next
    case False
    obtain d ds where d: "body = d # ds" using body(1) by (cases body) auto
    then have "d \<noteq> 45" "d \<noteq> 43" using body by simp_all
    then show ?thesis using scan sum c w f False d
      by (simp add: parse_coordinate_microdegrees_def COORDINATE_SCALE_def checked_i64_def i64_min_def i64_max_def Let_def)
  qed
qed

lemma coordinate_round_trip:
  assumes "\<forall>v. c = Some v \<longrightarrow> lo \<le> v \<and> v \<le> hi" and "- 180000000 \<le> lo" and "hi \<le> 180000000"
  shows "parse_optional_coordinate (write_optional_coordinate c) lo hi = Some c"
proof (cases c)
  case None
  then show ?thesis by (simp add: parse_optional_coordinate_def write_optional_coordinate_def trim_def trim_start_def trim_end_def)
next
  case (Some v)
  let ?body = "show_nat (nat \<bar>v\<bar> div 1000000) @ 46 # pad6 (nat \<bar>v\<bar> mod 1000000)"
  let ?s = "(if v < 0 then [45] else []) @ ?body"
  have w: "write_optional_coordinate c = ?s" by (simp add: Some write_optional_coordinate_def)
  have "list_all (\<lambda>x. 45 \<le> x \<and> x \<le> 57) (show_nat n)" "list_all (\<lambda>x. 45 \<le> x \<and> x \<le> 57) (pad6 (k mod 1000000))" for n k
    using show_nat_digits [of n] pad6_digits(2) [of "k mod 1000000"] by (auto simp: list_all_iff is_digit_def)
  then have d: "list_all (\<lambda>x. 45 \<le> x \<and> x \<le> 57) ?s" by simp
  then have t: "trim ?s = ?s" by (intro trim_printable list.pred_mono_strong [OF d]) simp
  have "?s \<noteq> lit ''none''" "?s \<noteq> lit ''null''" "?s \<noteq> lit ''<null>''"
    by (rule notI; use d in \<open>simp add: lit_def\<close>)+
  note n = this
  have v: "\<bar>v\<bar> \<le> 180000000" using assms Some by auto
  have "?s \<noteq> []" by simp
  then show ?thesis
    using parse_written_coordinate [OF v] assms(1) Some n
    unfolding w parse_optional_coordinate_def Let_def t by (simp del: append_assoc)
qed

end
