(* ===== verification/Acl.thy ===== *)
theory Acl
  imports Hex Rust_List "HOL-Library.List_Lexorder"
begin

text \<open>
  The access list (\<open>app/acl.rs\<close>): public keys with a role, sorted by key and without repetition.
\<close>

datatype role = RoleAdmin | RoleDeny

type_synonym acl = "(bytes \<times> role) list"

definition acl_role :: "acl \<Rightarrow> bytes \<Rightarrow> role option" where
  "acl_role a key = map_option snd (find (\<lambda>(k, _). k = key) a)"

text \<open>The slices are of bytes, and the string is ASCII, so they are of characters.\<close>

definition parse_key :: "rstr \<Rightarrow> bytes option" where
  "parse_key value =
     (if str_len value \<noteq> 64 \<or> \<not> list_all (\<lambda>c. c < 128) value then None
      else decode_pairs radix16_pair value)"

text \<open>\<open>sort_unstable_by_key\<close> on distinct keys: the sorted arrangement is unique, so an insertion sort
  by the lexicographic order of the bytes gives it.\<close>

definition acl_sort :: "acl \<Rightarrow> acl" where
  "acl_sort a = sort_key fst a"

definition acl_set :: "acl \<Rightarrow> rstr \<Rightarrow> rstr \<Rightarrow> acl option" where
  "acl_set a key role =
     (case parse_key key of
        None \<Rightarrow> None
      | Some key \<Rightarrow>
          (case (if role = lit ''admin'' then Some (Some RoleAdmin)
                 else if role = lit ''deny'' then Some (Some RoleDeny)
                 else if role = lit ''unset'' then Some None
                 else None) of
             None \<Rightarrow> None
           | Some role \<Rightarrow>
               let a = filter (\<lambda>(k, _). k \<noteq> key) a in
               Some (case role of None \<Rightarrow> a | Some r \<Rightarrow> acl_sort (a @ [(key, r)]))))"

definition role_text :: "role \<Rightarrow> rstr" where
  "role_text r = (case r of RoleAdmin \<Rightarrow> lit ''admin'' | RoleDeny \<Rightarrow> lit ''deny'')"

definition acl_write_config :: "acl \<Rightarrow> rstr" where
  "acl_write_config a =
     concat (map (\<lambda>(key, r). lit ''acl.'' @ hex_bytes key @ lit ''='' @ role_text r @ [10]) a)"

definition acl_write_overrides :: "acl \<Rightarrow> acl \<Rightarrow> rstr" where
  "acl_write_overrides a defaults =
     acl_write_config a
     @ concat (map (\<lambda>(key, _). if acl_role a key = None
                              then lit ''acl.'' @ hex_bytes key @ lit ''=unset'' @ [10] else [])
         defaults)"

definition changed_keys :: "acl \<Rightarrow> acl \<Rightarrow> bytes list" where
  "changed_keys a other = filter (\<lambda>key. acl_role a key \<noteq> acl_role other key) (map fst (a @ other))"

section \<open>The list as a map\<close>

definition acl_inv :: "acl \<Rightarrow> bool" where
  "acl_inv a \<longleftrightarrow> sorted (map fst a) \<and> distinct (map fst a) \<and> (\<forall>(k, _) \<in> set a. length k = 32)"

lemma acl_inv_empty: "acl_inv []"
  by (simp add: acl_inv_def)

lemma acl_role_map_of: "acl_role a = map_of a"
  by (rule ext) (induction a, auto simp: acl_role_def)

lemma parse_key_length: "parse_key s = Some k \<Longrightarrow> length k = 32"
proof -
  assume a: "parse_key s = Some k"
  then have "length s = 64" "decode_pairs radix16_pair s = Some k"
    using str_len_ascii [of s] by (auto simp: parse_key_def list_all_iff split: if_splits)
  then show ?thesis by (auto dest: decode_pairs_length)
qed

lemma parse_key_hex_bytes: "length k = 32 \<Longrightarrow> parse_key (hex_bytes k) = Some k"
  using hex_bytes_chars [of _ k]
  by (auto simp: parse_key_def decode_pairs_hex_bytes list_all_iff)

lemma acl_set_SomeD:
  assumes "acl_set a key role = Some a'"
  shows "\<exists>k r. parse_key key = Some k
    \<and> a' = (let a = filter (\<lambda>(k', _). k' \<noteq> k) a in
            case r of None \<Rightarrow> a | Some r \<Rightarrow> acl_sort (a @ [(k, r)]))
    \<and> role = (case r of None \<Rightarrow> lit ''unset'' | Some r \<Rightarrow> role_text r)"
  using assms
  by (auto simp: acl_set_def role_text_def Let_def split: option.splits if_splits
      intro: exI [of _ "None"] exI [of _ "Some RoleAdmin"] exI [of _ "Some RoleDeny"])

lemma acl_set_inv:
  assumes inv: "acl_inv a" and s: "acl_set a key role = Some a'"
  shows "acl_inv a'"
proof -
  obtain k r where k: "parse_key key = Some k"
    and a': "a' = (let a = filter (\<lambda>(k', _). k' \<noteq> k) a in
            case r of None \<Rightarrow> a | Some r \<Rightarrow> acl_sort (a @ [(k, r)]))"
    using acl_set_SomeD [OF s] by blast
  have f: "sorted (map fst (filter (\<lambda>(k', _). k' \<noteq> k) a))"
    "distinct (map fst (filter (\<lambda>(k', _). k' \<noteq> k) a))"
    using inv by (auto simp: acl_inv_def sorted_filter distinct_map_filter)
  show ?thesis
  proof (cases r)
    case None
    with f inv a' show ?thesis by (auto simp: acl_inv_def)
  next
    case (Some r)
    let ?l = "filter (\<lambda>(k', _). k' \<noteq> k) a @ [(k, r)]"
    have m: "mset (map fst (acl_sort ?l)) = mset (map fst ?l)"
      by (simp only: acl_sort_def mset_map mset_sort)
    have "distinct (map fst ?l)" using f by auto
    then have "distinct (map fst (acl_sort ?l))" using m mset_eq_imp_distinct_iff by blast
    with Some inv a' parse_key_length [OF k] show ?thesis
      by (auto simp: acl_inv_def acl_sort_def)
  qed
qed

text \<open>Setting a role is a map update, unsetting it a removal.\<close>

lemma acl_sort_role:
  assumes "distinct (map fst a)"
  shows "map_of (acl_sort a) = map_of a"
proof (rule map_of_inject_set [THEN iffD2])
  show "distinct (map fst (acl_sort a))"
    using assms by (simp add: acl_sort_def distinct_map)
qed (use assms in \<open>simp_all add: acl_sort_def\<close>)

lemma map_of_filter_neq: "map_of (filter (\<lambda>(k', _). k' \<noteq> k) a) = (map_of a)(k := None)"
  by (induction a) (auto simp: fun_eq_iff)

lemma acl_set_role:
  assumes inv: "acl_inv a" and s: "acl_set a key role = Some a'"
  shows "\<exists>k r. parse_key key = Some k \<and> role = (case r of None \<Rightarrow> lit ''unset'' | Some r \<Rightarrow> role_text r)
    \<and> acl_role a' = (acl_role a)(k := r)"
proof -
  obtain k r where k: "parse_key key = Some k" and role: "role = (case r of None \<Rightarrow> lit ''unset'' | Some r \<Rightarrow> role_text r)"
    and a': "a' = (let a = filter (\<lambda>(k', _). k' \<noteq> k) a in
            case r of None \<Rightarrow> a | Some r \<Rightarrow> acl_sort (a @ [(k, r)]))"
    using acl_set_SomeD [OF s] by blast
  have dist: "distinct (map fst (filter (\<lambda>(k', _). k' \<noteq> k) a))"
    using inv by (simp add: acl_inv_def distinct_map_filter)
  have "acl_role a' = (acl_role a)(k := r)"
  proof (cases r)
    case None
    then show ?thesis by (simp add: a' acl_role_map_of map_of_filter_neq)
  next
    case (Some r)
    have "distinct (map fst (filter (\<lambda>(k', _). k' \<noteq> k) a @ [(k, r)]))" using dist by auto
    then have "map_of (acl_sort (filter (\<lambda>(k', _). k' \<noteq> k) a @ [(k, r)]))
        = map_of (filter (\<lambda>(k', _). k' \<noteq> k) a @ [(k, r)])"
      by (rule acl_sort_role)
    with Some show ?thesis
      by (auto simp: a' acl_role_map_of map_of_filter_neq map_add_def fun_eq_iff split: option.split)
  qed
  with k role show ?thesis by blast
qed

text \<open>The keys whose sessions a change must end are exactly those whose role changed.\<close>

lemma changed_keys_iff: "key \<in> set (changed_keys a other) \<longleftrightarrow> acl_role a key \<noteq> acl_role other key"
proof -
  have "acl_role x key = None" if "key \<notin> fst ` set x" for x
    using that by (simp add: acl_role_map_of map_of_eq_None_iff)
  then have "key \<in> fst ` set a \<or> key \<in> fst ` set other" if "acl_role a key \<noteq> acl_role other key"
    using that by fastforce
  then show ?thesis by (auto simp: changed_keys_def)
qed

section \<open>Properties\<close>

text \<open>Setting a role in the access list updates it as a map: the key gets the role, or loses it for
  unset, and every other key keeps its own; the list stays sorted without duplicate keys.\<close>

lemma acl_set_updates_map:
  assumes "acl_inv a" and "acl_set a key role = Some a'"
  shows "acl_inv a' \<and> (\<exists>k r. parse_key key = Some k
    \<and> role = (case r of None \<Rightarrow> lit ''unset'' | Some r \<Rightarrow> role_text r)
    \<and> acl_role a' = (acl_role a)(k := r))"
  using acl_set_inv [OF assms] acl_set_role [OF assms] by blast

theorem acl_set_updates_map_witness:
  "\<exists>a'. acl_set [] (hex_bytes (replicate 32 7)) (lit ''deny'') = Some a' \<and> acl_inv a'"
proof -
  have "acl_set [] (hex_bytes (replicate 32 7)) (lit ''deny'') \<noteq> None" by code_simp
  then obtain a' where "acl_set [] (hex_bytes (replicate 32 7)) (lit ''deny'') = Some a'" by blast
  then show ?thesis using acl_set_updates_map [OF acl_inv_empty] by blast
qed

end
