(* ===== verification/Config_Text.thy ===== *)
theory Config_Text
  imports Config_Values Acl
begin

text \<open>
  The configuration file (\<open>StoredAppConfig\<close> of \<open>app/config.rs\<close>): the settings a device keeps, the
  decoder that lays one text over the settings below it, and the encoders that write all settings or
  only those that differ. Three layers exist: the defaults of the image, an optional network profile
  that is a build-time input (the argument \<open>profile\<close>), and the device's own file. Numbers are naturals
  whose range the parser checks; \<open>String::from_utf8\<close> and \<open>lines\<close> are those of the standard library.
\<close>

definition APP_CONFIG_TEXT_VERSION :: nat where "APP_CONFIG_TEXT_VERSION = 1"
definition APP_CONFIG_MAX_LEN :: nat where "APP_CONFIG_MAX_LEN = 4096"

record wifi_config =
  wf_ssid :: rstr
  wf_password :: rstr
  wf_telnet :: bool

record stored_config =
  cf_tier :: nat
  cf_private_key :: private_key
  cf_latitude_microdegrees :: "int option"
  cf_longitude_microdegrees :: "int option"
  cf_node_name :: rstr
  cf_owner_info :: rstr
  cf_remote_cli_password :: rstr
  cf_acl :: acl
  cf_ntp :: rstr
  cf_wifi :: wifi_config
  cf_radio :: radio_config
  cf_regions :: region_map
  cf_region_capture :: bool
  cf_repeat_enabled :: bool
  cf_flood_max_unscoped_hops :: nat
  cf_flood_max_advert_hops :: nat
  cf_advert_interval_minutes :: nat
  cf_flood_advert_interval_hours :: nat
  cf_loop_detection :: loop_detection
  cf_path_hash_mode :: nat
  cf_duty_cycle_percent :: nat

datatype config_source = FromDefaults | FromProfile | FromStorage

section \<open>Reading\<close>

definition strip_cr :: "rstr \<Rightarrow> rstr" where
  "strip_cr line = (if line \<noteq> [] \<and> last line = 13 then butlast line else line)"

fun lines_from :: "rstr \<Rightarrow> rstr \<Rightarrow> rstr list" where
  "lines_from [] acc = (if acc = [] then [] else [acc])"
| "lines_from (c # s) acc = (if c = 10 then strip_cr acc # lines_from s [] else lines_from s (acc @ [c]))"

definition str_lines :: "rstr \<Rightarrow> rstr list" where
  "str_lines s = lines_from s []"

definition parse_i32 :: "rstr \<Rightarrow> int option" where
  "parse_i32 s =
     (case s of
        c # ds \<Rightarrow>
          if c = 45
          then (if ds = [] \<or> \<not> list_all is_digit ds \<or> 2 ^ 31 < digits_value ds then None
                else Some (- int (digits_value ds)))
          else map_option int (parse_unsigned (2 ^ 31 - 1) s)
      | [] \<Rightarrow> None)"

definition validate_wifi_config :: "wifi_config \<Rightarrow> unit config_result" where
  "validate_wifi_config w =
     (if MAX_WIFI_SSID_LEN < str_len (wf_ssid w)
         \<or> \<not> (wf_password w = [] \<or> MIN_WIFI_PASSWORD_LEN \<le> str_len (wf_password w)
                                  \<and> str_len (wf_password w) \<le> MAX_WIFI_PASSWORD_LEN)
      then Err CfgInvalidWifiConfig else Ok ())"

definition generated_node_name :: "crypto \<Rightarrow> private_key \<Rightarrow> rstr" where
  "generated_node_name C key =
     lit ''Repeater-'' @ hex_bytes (take 3 (id_public_key (identity_from_private_key C key)))"

text \<open>One setting: the key's arm of the decoder's match. The flag records that a node name was read.\<close>

definition apply_setting ::
  "config_source \<Rightarrow> rstr \<Rightarrow> rstr \<Rightarrow> stored_config \<times> bool \<Rightarrow> (stored_config \<times> bool) option"
where
  "apply_setting source key value st =
     (let strict = (source \<noteq> FromStorage); (c, saw) = st;
          keep = (\<lambda>c. Some (c, saw)); radio = cf_radio c; wifi = cf_wifi c in
      if key = lit ''version'' then
        do { version \<leftarrow> parse_unsigned 255 value;
             if strict \<and> version \<noteq> APP_CONFIG_TEXT_VERSION then None else keep c }
      else if key = lit ''identity.seed'' \<or> key = lit ''identity.expanded'' then
        (if strict then None
         else do { k \<leftarrow> private_key_from_hex value;
                   if private_key_config_key k \<noteq> key then None else keep (c\<lparr>cf_private_key := k\<rparr>) })
      else if key = lit ''identity.lat'' then
        do { v \<leftarrow> parse_optional_coordinate value MIN_LATITUDE_MICRODEGREES MAX_LATITUDE_MICRODEGREES;
             keep (c\<lparr>cf_latitude_microdegrees := v\<rparr>) }
      else if key = lit ''identity.lon'' then
        do { v \<leftarrow> parse_optional_coordinate value MIN_LONGITUDE_MICRODEGREES MAX_LONGITUDE_MICRODEGREES;
             keep (c\<lparr>cf_longitude_microdegrees := v\<rparr>) }
      else if key = lit ''owner.info'' then keep (c\<lparr>cf_owner_info := fit_owner_info value\<rparr>)
      else if key = lit ''node.name'' then
        do { v \<leftarrow> res_ok (fit_node_name value); Some (c\<lparr>cf_node_name := v\<rparr>, True) }
      else if key = lit ''remote.password'' then keep (c\<lparr>cf_remote_cli_password := fit_password value\<rparr>)
      else if key = lit ''ntp'' then
        do { res_ok (validate_ntp_host value); keep (c\<lparr>cf_ntp := value\<rparr>) }
      else if key = lit ''wifi.ssid'' then keep (c\<lparr>cf_wifi := wifi\<lparr>wf_ssid := value\<rparr>\<rparr>)
      else if key = lit ''wifi.pass'' then keep (c\<lparr>cf_wifi := wifi\<lparr>wf_password := value\<rparr>\<rparr>)
      else if key = lit ''wifi.telnet'' then
        do { v \<leftarrow> parse_bool value; keep (c\<lparr>cf_wifi := wifi\<lparr>wf_telnet := v\<rparr>\<rparr>) }
      else if starts_with key (lit ''mqtt.'') \<and> source = FromDefaults then keep c
      else if key = lit ''radio.frequency_hz'' then
        do { v \<leftarrow> parse_unsigned (2 ^ 32 - 1) value; keep (c\<lparr>cf_radio := radio\<lparr>rc_receive_frequency_hz := v\<rparr>\<rparr>) }
      else if key = lit ''radio.bandwidth_hz'' then
        do { n \<leftarrow> parse_unsigned (2 ^ 32 - 1) value; v \<leftarrow> bw_from_hz n;
             keep (c\<lparr>cf_radio := radio\<lparr>rc_bandwidth := v\<rparr>\<rparr>) }
      else if key = lit ''radio.spreading_factor'' then
        do { n \<leftarrow> parse_unsigned 255 value; v \<leftarrow> sf_from_factor n;
             keep (c\<lparr>cf_radio := radio\<lparr>rc_spreading_factor := v\<rparr>\<rparr>) }
      else if key = lit ''radio.coding_rate'' \<or> key = lit ''radio.coding_rate_denominator'' then
        do { n \<leftarrow> parse_unsigned 255 value; v \<leftarrow> cr_from_denominator n;
             keep (c\<lparr>cf_radio := radio\<lparr>rc_coding_rate := v\<rparr>\<rparr>) }
      else if key = lit ''radio.tx_power_dbm'' then
        do { v \<leftarrow> parse_i32 value; keep (c\<lparr>cf_radio := radio\<lparr>rc_transmit_power_dbm := v\<rparr>\<rparr>) }
      else if key = lit ''radio.duty_cycle_percent'' then
        do { v \<leftarrow> parse_unsigned 255 value; keep (c\<lparr>cf_duty_cycle_percent := v\<rparr>) }
      else if key = lit ''region.default'' then
        (case set_default_from_config (cf_regions c) value of
           (m, Inr _) \<Rightarrow> keep (c\<lparr>cf_regions := m\<rparr>) | (m, Inl _) \<Rightarrow> None)
      else if key = lit ''repeat'' then
        do { v \<leftarrow> parse_repeat value; keep (c\<lparr>cf_repeat_enabled := v\<rparr>) }
      else if key = lit ''region.capture'' then
        do { v \<leftarrow> parse_bool value; keep (c\<lparr>cf_region_capture := v\<rparr>) }
      else if key = lit ''flood.max.unscoped'' then
        do { v \<leftarrow> parse_flood_max_hops value; keep (c\<lparr>cf_flood_max_unscoped_hops := v\<rparr>) }
      else if key = lit ''flood.max.advert'' then
        do { v \<leftarrow> parse_flood_max_hops value; keep (c\<lparr>cf_flood_max_advert_hops := v\<rparr>) }
      else if key = lit ''advert.interval'' then
        do { v \<leftarrow> parse_unsigned (2 ^ 32 - 1) value;
             keep (c\<lparr>cf_advert_interval_minutes := clamp_advert_interval v\<rparr>) }
      else if key = lit ''flood.advert.interval'' then
        do { v \<leftarrow> parse_unsigned (2 ^ 32 - 1) value; keep (c\<lparr>cf_flood_advert_interval_hours := v\<rparr>) }
      else if key = lit ''path.hash.mode'' then
        do { v \<leftarrow> parse_path_hash_mode value; keep (c\<lparr>cf_path_hash_mode := v\<rparr>) }
      else if key = lit ''tier'' then
        do { v \<leftarrow> parse_unsigned 255 value; if v \<le> 10 then keep (c\<lparr>cf_tier := v\<rparr>) else None }
      else if key = lit ''loop.detect'' then
        do { v \<leftarrow> loop_parse value; keep (c\<lparr>cf_loop_detection := v\<rparr>) }
      else if starts_with key (lit ''acl.'') then
        do { k \<leftarrow> strip_prefix key (lit ''acl.''); v \<leftarrow> acl_set (cf_acl c) k value; keep (c\<lparr>cf_acl := v\<rparr>) }
      else if starts_with key (lit ''region.'') then
        do { name \<leftarrow> strip_prefix key (lit ''region.''); allowed \<leftarrow> parse_bool value;
             let r = set_region_from_config (cf_regions c) name allowed;
             _ \<leftarrow> res_ok (snd r); keep (c\<lparr>cf_regions := fst r\<rparr>) }
      else if strict then None
      else keep c)"

definition decode_line ::
  "config_source \<Rightarrow> rstr \<Rightarrow> stored_config \<times> bool \<Rightarrow> (stored_config \<times> bool) option"
where
  "decode_line source raw_line st =
     (let line = trim raw_line in
      if line = [] \<or> starts_with line (lit ''#'') then Some st
      else do { (key, value) \<leftarrow> split_once 61 line;
                value \<leftarrow> unescape_value (trim value);
                apply_setting source (trim key) value st })"

fun decode_lines ::
  "config_source \<Rightarrow> rstr list \<Rightarrow> stored_config \<times> bool \<Rightarrow> (stored_config \<times> bool) option"
where
  "decode_lines source [] st = Some st"
| "decode_lines source (l # ls) st =
     (case decode_line source l st of None \<Rightarrow> None | Some st \<Rightarrow> decode_lines source ls st)"

text \<open>The checks after the last line.\<close>

definition settings_valid :: "stored_config \<Rightarrow> bool" where
  "settings_valid c \<longleftrightarrow> radio_validate (cf_radio c) = Ok ()
     \<and> 1 \<le> cf_duty_cycle_percent c \<and> cf_duty_cycle_percent c \<le> 100
     \<and> validate_flood_max_hops (cf_flood_max_unscoped_hops c) = Ok ()
     \<and> validate_flood_max_hops (cf_flood_max_advert_hops c) = Ok ()
     \<and> validate_path_hash_mode (cf_path_hash_mode c) = Ok ()
     \<and> validate_wifi_config (cf_wifi c) = Ok ()"

definition decode_config_layer ::
  "crypto \<Rightarrow> bytes \<Rightarrow> stored_config \<Rightarrow> config_source \<Rightarrow> stored_config option"
where
  "decode_config_layer C data defaults source =
     (if source \<noteq> FromStorage \<and> APP_CONFIG_MAX_LEN < length data then None
      else do { text \<leftarrow> from_utf8 data;
                (config, saw_node_name) \<leftarrow> decode_lines source (str_lines text) (defaults, False);
                config \<leftarrow>
                  (if \<not> saw_node_name \<and> cf_private_key config \<noteq> cf_private_key defaults
                      \<and> cf_node_name defaults = generated_node_name C (cf_private_key defaults)
                   then do { name \<leftarrow> res_ok (fit_node_name (generated_node_name C (cf_private_key config)));
                             Some (config\<lparr>cf_node_name := name\<rparr>) }
                   else Some config);
                if settings_valid config then Some config else None })"

definition decode_config_text :: "crypto \<Rightarrow> bytes \<Rightarrow> stored_config \<Rightarrow> stored_config option" where
  "decode_config_text C data defaults = decode_config_layer C data defaults FromStorage"

section \<open>The defaults of the image\<close>

text \<open>\<open>profiles/defaults.conf\<close>, which the build embeds, line by line.\<close>

definition defaults_conf :: rstr where
  "defaults_conf = concat (map (\<lambda>l. lit l @ [10])
     [''# MCRS base image defaults. Network files use the same keys and override these.'',
      ''# The identity and its derived node name are generated separately per device.'',
      ''version=1'', ''identity.lat='', ''identity.lon='', ''owner.info='', ''remote.password=meshcore'',
      ''ntp=pool.ntp.org'', ''wifi.ssid='', ''wifi.pass='', ''wifi.telnet=false'',
      ''radio.frequency_hz=869618000'', ''radio.bandwidth_hz=62500'', ''radio.spreading_factor=8'',
      ''radio.coding_rate=6'', ''radio.tx_power_dbm=14'', ''radio.duty_cycle_percent=10'',
      ''region.capture=false'', ''repeat=on'', ''tier=0'', ''flood.max.unscoped=5'', ''flood.max.advert=3'',
      ''advert.interval=240'', ''flood.advert.interval=0'', ''loop.detect=minimal'', ''path.hash.mode=2'',
      '''', ''# MQTT defaults are ignored in builds without MQTT support.'',
      ''mqtt.1.host='', ''mqtt.1.port=1883'', ''mqtt.1.username='', ''mqtt.1.password='',
      ''mqtt.1.auth=password'', ''mqtt.1.auth.audience='',
      ''mqtt.1.topic.root=meshcore/{IATA}/{PUBLIC_KEY}/packets'', ''mqtt.1.iata=XXX'',
      ''mqtt.2.host='', ''mqtt.2.port=1883'', ''mqtt.2.username='', ''mqtt.2.password='',
      ''mqtt.2.auth=password'', ''mqtt.2.auth.audience='',
      ''mqtt.2.topic.root=meshcore/{IATA}/{PUBLIC_KEY}/packets'', ''mqtt.2.iata=XXX'',
      ''mqtt.3.host='', ''mqtt.3.port=1883'', ''mqtt.3.username='', ''mqtt.3.password='',
      ''mqtt.3.auth=password'', ''mqtt.3.auth.audience='',
      ''mqtt.3.topic.root=meshcore/{IATA}/{PUBLIC_KEY}/packets'', ''mqtt.3.iata=XXX''])"

definition empty_config :: "crypto \<Rightarrow> private_key \<Rightarrow> stored_config" where
  "empty_config C key =
     \<lparr>cf_tier = 0, cf_private_key = key, cf_latitude_microdegrees = None, cf_longitude_microdegrees = None,
      cf_node_name = (case fit_node_name (generated_node_name C key) of
                        Inr name \<Rightarrow> name | Inl _ \<Rightarrow> lit ''Repeater''),
      cf_owner_info = [], cf_remote_cli_password = [], cf_acl = [], cf_ntp = [],
      cf_wifi = \<lparr>wf_ssid = [], wf_password = [], wf_telnet = False\<rparr>,
      cf_radio = \<lparr>rc_receive_frequency_hz = 0, rc_spreading_factor = Sf5, rc_bandwidth = Khz7_8,
                  rc_coding_rate = Cr4_5, rc_transmit_power_dbm = 0\<rparr>,
      cf_regions = regions_new, cf_region_capture = False, cf_repeat_enabled = False,
      cf_flood_max_unscoped_hops = 0, cf_flood_max_advert_hops = 0, cf_advert_interval_minutes = 0,
      cf_flood_advert_interval_hours = 0, cf_loop_detection = LoopMinimal, cf_path_hash_mode = 0,
      cf_duty_cycle_percent = 0\<rparr>"

definition with_defaults_text :: "crypto \<Rightarrow> private_key \<Rightarrow> rstr \<Rightarrow> stored_config option" where
  "with_defaults_text C key overlay =
     do { defaults \<leftarrow> decode_config_layer C (str_bytes defaults_conf) (empty_config C key) FromDefaults;
          decode_config_layer C (str_bytes overlay) defaults FromProfile }"

definition default_with_private_key :: "crypto \<Rightarrow> rstr \<Rightarrow> private_key \<Rightarrow> stored_config config_result" where
  "default_with_private_key C profile key =
     (case with_defaults_text C key profile of Some c \<Rightarrow> Ok c | None \<Rightarrow> Panicked)"

section \<open>Writing\<close>

definition show_int :: "int \<Rightarrow> rstr" where
  "show_int n = (if n < 0 then 45 # show_nat (nat (- n)) else show_nat (nat n))"

definition setting :: "string \<Rightarrow> rstr \<Rightarrow> rstr" where
  "setting key value = lit key @ value @ [10]"

definition config_header :: rstr where
  "config_header = setting ''# MCRS app.conf'' [] @ setting ''version='' (show_nat APP_CONFIG_TEXT_VERSION)"

definition encode_sparse_config_text_redacted :: "stored_config \<Rightarrow> stored_config \<Rightarrow> bool \<Rightarrow> rstr" where
  "encode_sparse_config_text_redacted c d redact =
     (let changed = (\<lambda>differs key value. if differs then setting key value else []) in
      config_header @ acl_write_overrides (cf_acl c) (cf_acl d)
      @ (if redact then []
         else private_key_config_key (cf_private_key c) @ [61]
              @ hex_bytes (private_key_bytes (cf_private_key c)) @ [10])
      @ changed (cf_latitude_microdegrees c \<noteq> cf_latitude_microdegrees d) ''identity.lat=''
          (write_optional_coordinate (cf_latitude_microdegrees c))
      @ changed (cf_longitude_microdegrees c \<noteq> cf_longitude_microdegrees d) ''identity.lon=''
          (write_optional_coordinate (cf_longitude_microdegrees c))
      @ changed (cf_node_name c \<noteq> cf_node_name d) ''node.name='' (write_escaped_value (cf_node_name c))
      @ changed (cf_owner_info c \<noteq> cf_owner_info d) ''owner.info='' (write_escaped_value (cf_owner_info c))
      @ changed (cf_remote_cli_password c \<noteq> cf_remote_cli_password d) ''remote.password=''
          (if redact then lit ''<redacted>'' else write_escaped_value (cf_remote_cli_password c))
      @ changed (cf_ntp c \<noteq> cf_ntp d) ''ntp='' (cf_ntp c)
      @ changed (wf_ssid (cf_wifi c) \<noteq> wf_ssid (cf_wifi d)) ''wifi.ssid=''
          (write_escaped_value (wf_ssid (cf_wifi c)))
      @ changed (wf_password (cf_wifi c) \<noteq> wf_password (cf_wifi d)) ''wifi.pass=''
          (if redact \<and> wf_password (cf_wifi c) \<noteq> [] then lit ''<redacted>''
           else write_escaped_value (wf_password (cf_wifi c)))
      @ changed (wf_telnet (cf_wifi c) \<noteq> wf_telnet (cf_wifi d)) ''wifi.telnet='' (bool_text (wf_telnet (cf_wifi c)))
      @ changed (rc_receive_frequency_hz (cf_radio c) \<noteq> rc_receive_frequency_hz (cf_radio d))
          ''radio.frequency_hz='' (show_nat (rc_receive_frequency_hz (cf_radio c)))
      @ changed (rc_bandwidth (cf_radio c) \<noteq> rc_bandwidth (cf_radio d))
          ''radio.bandwidth_hz='' (show_nat (bw_hz (rc_bandwidth (cf_radio c))))
      @ changed (rc_spreading_factor (cf_radio c) \<noteq> rc_spreading_factor (cf_radio d))
          ''radio.spreading_factor='' (show_nat (sf_factor (rc_spreading_factor (cf_radio c))))
      @ changed (rc_coding_rate (cf_radio c) \<noteq> rc_coding_rate (cf_radio d))
          ''radio.coding_rate='' (show_nat (cr_denominator (rc_coding_rate (cf_radio c))))
      @ changed (rc_transmit_power_dbm (cf_radio c) \<noteq> rc_transmit_power_dbm (cf_radio d))
          ''radio.tx_power_dbm='' (show_int (rc_transmit_power_dbm (cf_radio c)))
      @ changed (cf_duty_cycle_percent c \<noteq> cf_duty_cycle_percent d)
          ''radio.duty_cycle_percent='' (show_nat (cf_duty_cycle_percent c))
      @ write_config_lines_changed (cf_regions c) (cf_regions d)
      @ changed (cf_repeat_enabled c \<noteq> cf_repeat_enabled d) ''repeat='' (repeat_text (cf_repeat_enabled c))
      @ changed (cf_region_capture c \<noteq> cf_region_capture d) ''region.capture='' (bool_text (cf_region_capture c))
      @ changed (cf_flood_max_unscoped_hops c \<noteq> cf_flood_max_unscoped_hops d)
          ''flood.max.unscoped='' (show_nat (cf_flood_max_unscoped_hops c))
      @ changed (cf_flood_max_advert_hops c \<noteq> cf_flood_max_advert_hops d)
          ''flood.max.advert='' (show_nat (cf_flood_max_advert_hops c))
      @ changed (cf_advert_interval_minutes c \<noteq> cf_advert_interval_minutes d)
          ''advert.interval='' (show_nat (cf_advert_interval_minutes c))
      @ changed (cf_flood_advert_interval_hours c \<noteq> cf_flood_advert_interval_hours d)
          ''flood.advert.interval='' (show_nat (cf_flood_advert_interval_hours c))
      @ changed (cf_path_hash_mode c \<noteq> cf_path_hash_mode d) ''path.hash.mode='' (show_nat (cf_path_hash_mode c))
      @ changed (cf_tier c \<noteq> cf_tier d) ''tier='' (show_nat (cf_tier c))
      @ changed (cf_loop_detection c \<noteq> cf_loop_detection d) ''loop.detect='' (loop_as_str (cf_loop_detection c)))"

definition encode_sparse_config_text :: "stored_config \<Rightarrow> stored_config \<Rightarrow> rstr" where
  "encode_sparse_config_text c defaults = encode_sparse_config_text_redacted c defaults False"

definition encode_config_text :: "crypto \<Rightarrow> rstr \<Rightarrow> stored_config \<Rightarrow> rstr config_result" where
  "encode_config_text C profile c =
     and_then (default_with_private_key C profile (cf_private_key c)) (\<lambda>defaults.
       Ok (encode_sparse_config_text c defaults))"

definition encode_full_config_text_redacted ::
  "crypto \<Rightarrow> rstr \<Rightarrow> stored_config \<Rightarrow> bool \<Rightarrow> rstr config_result"
where
  "encode_full_config_text_redacted C profile c redact =
     and_then (default_with_private_key C profile (cf_private_key c)) (\<lambda>defaults.
       Ok (config_header @ acl_write_overrides (cf_acl c) (cf_acl defaults)
         @ private_key_config_key (cf_private_key c) @ [61]
         @ (if redact then lit ''<redacted>'' else hex_bytes (private_key_bytes (cf_private_key c))) @ [10]
         @ setting ''ntp='' (cf_ntp c)
         @ setting ''wifi.ssid='' (write_escaped_value (wf_ssid (cf_wifi c)))
         @ setting ''wifi.pass='' (if redact \<and> wf_password (cf_wifi c) \<noteq> [] then lit ''<redacted>''
                                 else write_escaped_value (wf_password (cf_wifi c)))
         @ setting ''wifi.telnet='' (bool_text (wf_telnet (cf_wifi c)))
         @ setting ''identity.lat='' (write_optional_coordinate (cf_latitude_microdegrees c))
         @ setting ''identity.lon='' (write_optional_coordinate (cf_longitude_microdegrees c))
         @ setting ''node.name='' (write_escaped_value (cf_node_name c))
         @ setting ''owner.info='' (write_escaped_value (cf_owner_info c))
         @ setting ''remote.password='' (if redact then lit ''<redacted>''
                                       else write_escaped_value (cf_remote_cli_password c))
         @ setting ''radio.frequency_hz='' (show_nat (rc_receive_frequency_hz (cf_radio c)))
         @ setting ''radio.bandwidth_hz='' (show_nat (bw_hz (rc_bandwidth (cf_radio c))))
         @ setting ''radio.spreading_factor='' (show_nat (sf_factor (rc_spreading_factor (cf_radio c))))
         @ setting ''radio.coding_rate='' (show_nat (cr_denominator (rc_coding_rate (cf_radio c))))
         @ setting ''radio.tx_power_dbm='' (show_int (rc_transmit_power_dbm (cf_radio c)))
         @ setting ''radio.duty_cycle_percent='' (show_nat (cf_duty_cycle_percent c))
         @ write_config_lines (cf_regions c)
         @ setting ''repeat='' (repeat_text (cf_repeat_enabled c))
         @ setting ''region.capture='' (bool_text (cf_region_capture c))
         @ setting ''flood.max.unscoped='' (show_nat (cf_flood_max_unscoped_hops c))
         @ setting ''flood.max.advert='' (show_nat (cf_flood_max_advert_hops c))
         @ setting ''advert.interval='' (show_nat (cf_advert_interval_minutes c))
         @ setting ''flood.advert.interval='' (show_nat (cf_flood_advert_interval_hours c))
         @ setting ''path.hash.mode='' (show_nat (cf_path_hash_mode c))
         @ setting ''tier='' (show_nat (cf_tier c))
         @ setting ''loop.detect='' (loop_as_str (cf_loop_detection c))))"

section \<open>What a decoded configuration is\<close>

text \<open>Every field in the range its users rely on.\<close>

definition config_inv :: "'a stored_config_scheme \<Rightarrow> bool" where
  "config_inv c \<longleftrightarrow> acl_inv (cf_acl c) \<and> regions_inv (cf_regions c) \<and> private_key_wf (cf_private_key c)
     \<and> (\<forall>v. cf_latitude_microdegrees c = Some v \<longrightarrow> - 90000000 \<le> v \<and> v \<le> 90000000)
     \<and> (\<forall>v. cf_longitude_microdegrees c = Some v \<longrightarrow> - 180000000 \<le> v \<and> v \<le> 180000000)
     \<and> cf_tier c \<le> 10 \<and> str_len (cf_node_name c) \<le> 31 \<and> cf_node_name c \<noteq> []
     \<and> str_len (cf_owner_info c) \<le> 119 \<and> str_len (cf_remote_cli_password c) \<le> 64
     \<and> cf_flood_max_unscoped_hops c \<le> 63 \<and> cf_flood_max_advert_hops c \<le> 63 \<and> cf_path_hash_mode c \<le> 2
     \<and> cf_advert_interval_minutes c \<notin> {1..59}"

lemma parse_optional_coordinate_range:
  "parse_optional_coordinate s lo hi = Some (Some v) \<Longrightarrow> lo \<le> v \<and> v \<le> hi"
  by (auto simp: parse_optional_coordinate_def Let_def split: if_splits option.splits)

lemma fit_owner_chars_le:
  "str_len out \<le> MAX_OWNER_INFO_LEN \<Longrightarrow> str_len (fit_owner_chars cs out) \<le> MAX_OWNER_INFO_LEN"
proof (induction cs out rule: fit_owner_chars.induct)
  case (2 c cs out)
  have "len_utf8 (if c = 124 then 10 else c) = len_utf8 c" by (simp add: len_utf8_def)
  then show ?case using 2 by (auto simp del: if_split)
qed simp

lemma fit_owner_info_le: "str_len (fit_owner_info s) \<le> 119"
  using fit_owner_chars_le [of "[]" s] by (simp add: fit_owner_info_def MAX_OWNER_INFO_LEN_def)

lemma parse_flood_max_hops_le: "parse_flood_max_hops s = Some n \<Longrightarrow> n \<le> 63"
  by (auto simp: parse_flood_max_hops_def validate_flood_max_hops_def split: option.splits if_splits)

lemma parse_path_hash_mode_le: "parse_path_hash_mode s = Some n \<Longrightarrow> n \<le> 2"
  by (auto simp: parse_path_hash_mode_def validate_path_hash_mode_def split: option.splits if_splits)

lemma if_Some_cases:
  assumes "(if b then x else y) = Some z"
  obtains "b" and "x = Some z" | "\<not> b" and "y = Some z"
  using assms by (cases b) auto

lemma apply_setting_inv:
  assumes "config_inv (fst st)" and "apply_setting source key value st = Some st'"
  shows "config_inv (fst st')"
proof -
  obtain c saw where st: "st = (c, saw)" by (cases st)
  have inv: "config_inv c" using assms(1) st by simp
  have lat: "config_inv (c\<lparr>cf_latitude_microdegrees := v\<rparr>)"
    if "parse_optional_coordinate value MIN_LATITUDE_MICRODEGREES MAX_LATITUDE_MICRODEGREES = Some v" for v
    using inv that parse_optional_coordinate_range by (fastforce simp: config_inv_def coordinate_limits)
  have lon: "config_inv (c\<lparr>cf_longitude_microdegrees := v\<rparr>)"
    if "parse_optional_coordinate value MIN_LONGITUDE_MICRODEGREES MAX_LONGITUDE_MICRODEGREES = Some v" for v
    using inv that parse_optional_coordinate_range by (fastforce simp: config_inv_def coordinate_limits)
  have key: "config_inv (c\<lparr>cf_private_key := k\<rparr>)" if "private_key_from_hex value = Some k" for k
    using inv private_key_from_hex_wf [OF that] by (simp add: config_inv_def)
  have name: "config_inv (c\<lparr>cf_node_name := v\<rparr>)" if "res_ok (fit_node_name value) = Some v" for v
    using inv fit_node_name_OkD(1,2) [OF that [unfolded res_ok_Some_iff]] by (simp add: config_inv_def)
  have owner: "config_inv (c\<lparr>cf_owner_info := fit_owner_info value\<rparr>)"
    using inv fit_owner_info_le by (simp add: config_inv_def)
  have pass: "config_inv (c\<lparr>cf_remote_cli_password := fit_password value\<rparr>)"
    using inv fit_password_bounds by (simp add: config_inv_def)
  have hops1: "config_inv (c\<lparr>cf_flood_max_unscoped_hops := v\<rparr>)" if "parse_flood_max_hops value = Some v" for v
    using inv parse_flood_max_hops_le [OF that] by (simp add: config_inv_def)
  have hops2: "config_inv (c\<lparr>cf_flood_max_advert_hops := v\<rparr>)" if "parse_flood_max_hops value = Some v" for v
    using inv parse_flood_max_hops_le [OF that] by (simp add: config_inv_def)
  have mode: "config_inv (c\<lparr>cf_path_hash_mode := v\<rparr>)" if "parse_path_hash_mode value = Some v" for v
    using inv parse_path_hash_mode_le [OF that] by (simp add: config_inv_def)
  have adv: "config_inv (c\<lparr>cf_advert_interval_minutes := clamp_advert_interval v\<rparr>)" for v
    using inv by (auto simp: config_inv_def clamp_advert_interval_def)
  have acl: "config_inv (c\<lparr>cf_acl := a\<rparr>)" if "acl_set (cf_acl c) k value = Some a" for k a
    using inv acl_set_inv [OF _ that] by (simp add: config_inv_def)
  have reg: "config_inv (c\<lparr>cf_regions := fst (set_region_from_config (cf_regions c) nm al)\<rparr>)" for nm al
    using inv set_region_from_config_inv [of "cf_regions c" nm al] by (simp add: config_inv_def)
  have dreg: "config_inv (c\<lparr>cf_regions := m\<rparr>)"
    if "set_default_from_config (cf_regions c) value = (m, r)" for m r
    using inv set_default_from_config_inv [of "cf_regions c" "value"] that by (simp add: config_inv_def)
  have free: "config_inv (c\<lparr>cf_ntp := a\<rparr>)" "config_inv (c\<lparr>cf_wifi := w\<rparr>)" "config_inv (c\<lparr>cf_radio := r\<rparr>)"
    "config_inv (c\<lparr>cf_duty_cycle_percent := n\<rparr>)" "config_inv (c\<lparr>cf_repeat_enabled := b\<rparr>)"
    "config_inv (c\<lparr>cf_region_capture := b\<rparr>)" "config_inv (c\<lparr>cf_flood_advert_interval_hours := n\<rparr>)"
    "config_inv (c\<lparr>cf_loop_detection := ld\<rparr>)" "n \<le> 10 \<Longrightarrow> config_inv (c\<lparr>cf_tier := n\<rparr>)" for a w r n b ld
    using inv by (simp_all add: config_inv_def)
  note facts = inv lat lon key name owner pass hops1 hops2 mode adv acl reg dreg free
  show ?thesis
    using assms(2) unfolding st apply_setting_def Let_def prod.case
    by (elim if_Some_cases) (auto simp: bind_eq_Some_conv facts split: if_splits prod.splits sum.splits)
qed

end
