(* ===== verification/App_Config.thy ===== *)
theory App_Config
  imports Config_Text
begin

text \<open>
  The configuration in use (\<open>AppConfig\<close> of \<open>app/config.rs\<close>): the stored settings with the identity
  derived from them, the checked setters, resetting one setting to its default, and loading and saving.
  The storage driver is outside the repository's core: a record of its two trait methods over an
  abstract state stands for it.
\<close>

datatype storage_error = StNotAvailable | StNotFound | StBufferTooSmall | StInvalidKey | StCorrupt | StIo

record 's storage_api =
  st_read :: "'s \<Rightarrow> rstr \<Rightarrow> nat \<Rightarrow> (storage_error, bytes) res"
  st_write_atomic :: "'s \<Rightarrow> rstr \<Rightarrow> bytes \<Rightarrow> (storage_error, unit) res \<times> 's"

definition APP_CONFIG_KEY :: rstr where "APP_CONFIG_KEY = lit ''app.conf''"

definition UNPROVISIONED_CONFIG_TEXT :: bytes where
  "UNPROVISIONED_CONFIG_TEXT = str_bytes (lit ''# MCRS app.conf'' @ [10] @ lit ''version=1'' @ [10])"

record app_config = stored_config +
  ac_identity :: identity
  ac_identity_label :: rstr

definition from_stored :: "crypto \<Rightarrow> stored_config \<Rightarrow> rstr \<Rightarrow> app_config" where
  "from_stored C stored label =
     stored_config.extend stored
       (app_config.fields (identity_from_private_key C (cf_private_key stored)) label)"

definition from_app_config :: "app_config \<Rightarrow> stored_config" where
  "from_app_config c =
     (stored_config.truncate c)
       \<lparr>cf_node_name := (case fit_node_name (cf_node_name c) of Inr name \<Rightarrow> name | Inl _ \<Rightarrow> lit ''Repeater''),
        cf_remote_cli_password := fit_password (cf_remote_cli_password c)\<rparr>"

definition location_of :: "app_config \<Rightarrow> (int \<times> int) option" where
  "location_of c =
     do { lat \<leftarrow> cf_latitude_microdegrees c; lon \<leftarrow> cf_longitude_microdegrees c; Some (lat, lon) }"

section \<open>Loading and saving\<close>

definition generated_defaults :: "crypto \<Rightarrow> rstr \<Rightarrow> bytes \<Rightarrow> app_config config_result" where
  "generated_defaults C profile identity_seed =
     and_then (default_with_private_key C profile (Seed identity_seed)) (\<lambda>stored.
       Ok (from_stored C stored (lit ''generated'')))"

definition write_config_file ::
  "crypto \<Rightarrow> rstr \<Rightarrow> 's storage_api \<Rightarrow> 's \<Rightarrow> stored_config \<Rightarrow> (storage_error, unit) res \<times> 's"
where
  "write_config_file C profile api s c =
     (case encode_config_text C profile c of
        Inl _ \<Rightarrow> (Panicked, s)
      | Inr text \<Rightarrow>
          let data = str_bytes text in
          if APP_CONFIG_MAX_LEN < length data then (Err StBufferTooSmall, s)
          else st_write_atomic api s APP_CONFIG_KEY data)"

definition load_config_file ::
  "crypto \<Rightarrow> rstr \<Rightarrow> 's storage_api \<Rightarrow> 's \<Rightarrow> stored_config \<Rightarrow> (stored_config \<times> bool) option config_result"
where
  "load_config_file C profile api s defaults =
     (case st_read api s APP_CONFIG_KEY APP_CONFIG_MAX_LEN of
        Inl Panic \<Rightarrow> Panicked
      | Inl (Fail _) \<Rightarrow> Ok None
      | Inr data \<Rightarrow>
          if APP_CONFIG_MAX_LEN < length data then Ok None
          else case decode_config_text C data defaults of
            None \<Rightarrow> Ok None
          | Some config \<Rightarrow>
              and_then (encode_config_text C profile config) (\<lambda>encoded.
                Ok (Some (config, data \<noteq> str_bytes encoded))))"

definition load_or_create ::
  "crypto \<Rightarrow> rstr \<Rightarrow> 's storage_api \<Rightarrow> 's \<Rightarrow> app_config \<Rightarrow> app_config config_result \<times> 's"
where
  "load_or_create C profile api s defaults =
     (let default_stored = from_app_config defaults in
      case load_config_file C profile api s default_stored of
        Inl e \<Rightarrow> (Inl e, s)
      | Inr (Some (stored, needs_rewrite)) \<Rightarrow>
          let s = (if needs_rewrite then snd (write_config_file C profile api s stored) else s)
          in (Ok (from_stored C stored (lit ''storage'')), s)
      | Inr None \<Rightarrow>
          let s = snd (write_config_file C profile api s default_stored)
          in (Ok (from_stored C default_stored (ac_identity_label defaults)), s))"

definition config_save ::
  "crypto \<Rightarrow> rstr \<Rightarrow> 's storage_api \<Rightarrow> 's \<Rightarrow> app_config \<Rightarrow> (storage_error, unit) res \<times> 's"
where
  "config_save C profile api s c = write_config_file C profile api s (from_app_config c)"

definition save_unprovisioned :: "'s storage_api \<Rightarrow> 's \<Rightarrow> (storage_error, unit) res \<times> 's" where
  "save_unprovisioned api s = st_write_atomic api s APP_CONFIG_KEY UNPROVISIONED_CONFIG_TEXT"

definition export_config :: "crypto \<Rightarrow> rstr \<Rightarrow> app_config \<Rightarrow> bool \<Rightarrow> rstr config_result" where
  "export_config C profile c redact = encode_full_config_text_redacted C profile (from_app_config c) redact"

definition export_config_delta :: "crypto \<Rightarrow> rstr \<Rightarrow> app_config \<Rightarrow> rstr config_result" where
  "export_config_delta C profile c =
     and_then (default_with_private_key C profile (cf_private_key c)) (\<lambda>defaults.
       Ok (encode_sparse_config_text_redacted (from_app_config c) defaults True))"

section \<open>Setters\<close>

definition set_owner_info :: "app_config \<Rightarrow> rstr \<Rightarrow> app_config" where
  "set_owner_info c v = c\<lparr>cf_owner_info := fit_owner_info v\<rparr>"

definition set_ntp :: "app_config \<Rightarrow> rstr \<Rightarrow> app_config config_result" where
  "set_ntp c v = and_then (validate_ntp_host v) (\<lambda>_. Ok (c\<lparr>cf_ntp := v\<rparr>))"

definition set_wifi_ssid :: "app_config \<Rightarrow> rstr \<Rightarrow> app_config config_result" where
  "set_wifi_ssid c v =
     (if MAX_WIFI_SSID_LEN < str_len v then Err CfgInvalidWifiConfig
      else Ok (c\<lparr>cf_wifi := (cf_wifi c)\<lparr>wf_ssid := v\<rparr>\<rparr>))"

definition set_wifi_password :: "app_config \<Rightarrow> rstr \<Rightarrow> app_config config_result" where
  "set_wifi_password c v =
     (if \<not> (v = [] \<or> MIN_WIFI_PASSWORD_LEN \<le> str_len v \<and> str_len v \<le> MAX_WIFI_PASSWORD_LEN)
      then Err CfgInvalidWifiConfig
      else Ok (c\<lparr>cf_wifi := (cf_wifi c)\<lparr>wf_password := v\<rparr>\<rparr>))"

definition set_wifi_telnet :: "app_config \<Rightarrow> bool \<Rightarrow> app_config" where
  "set_wifi_telnet c v = c\<lparr>cf_wifi := (cf_wifi c)\<lparr>wf_telnet := v\<rparr>\<rparr>"

definition set_acl_rule :: "crypto \<Rightarrow> rstr \<Rightarrow> app_config \<Rightarrow> rstr \<Rightarrow> rstr \<Rightarrow> app_config config_result" where
  "set_acl_rule C profile c key role =
     (case acl_set (cf_acl c) key role of
        None \<Rightarrow> Err CfgInvalidAcl
      | Some a \<Rightarrow>
          let c' = c\<lparr>cf_acl := a\<rparr> in
          and_then (encode_config_text C profile (from_app_config c')) (\<lambda>text.
            if APP_CONFIG_MAX_LEN < str_len text then Err CfgInvalidAcl else Ok c'))"

definition set_repeat_enabled :: "app_config \<Rightarrow> bool \<Rightarrow> app_config" where
  "set_repeat_enabled c v = c\<lparr>cf_repeat_enabled := v\<rparr>"

definition set_advert_interval_minutes :: "app_config \<Rightarrow> nat \<Rightarrow> app_config" where
  "set_advert_interval_minutes c v = c\<lparr>cf_advert_interval_minutes := clamp_advert_interval v\<rparr>"

definition set_flood_advert_interval_hours :: "app_config \<Rightarrow> nat \<Rightarrow> app_config" where
  "set_flood_advert_interval_hours c v = c\<lparr>cf_flood_advert_interval_hours := v\<rparr>"

definition set_tier :: "app_config \<Rightarrow> nat \<Rightarrow> app_config config_result" where
  "set_tier c v = (if 10 < v then Err CfgInvalidTier else Ok (c\<lparr>cf_tier := v\<rparr>))"

definition set_loop_detection :: "app_config \<Rightarrow> loop_detection \<Rightarrow> app_config" where
  "set_loop_detection c v = c\<lparr>cf_loop_detection := v\<rparr>"

definition set_node_name :: "app_config \<Rightarrow> rstr \<Rightarrow> app_config config_result" where
  "set_node_name c v = and_then (fit_node_name v) (\<lambda>name. Ok (c\<lparr>cf_node_name := name\<rparr>))"

definition set_remote_cli_password :: "app_config \<Rightarrow> rstr \<Rightarrow> app_config" where
  "set_remote_cli_password c v = c\<lparr>cf_remote_cli_password := fit_password v\<rparr>"

definition set_private_key :: "app_config \<Rightarrow> private_key \<Rightarrow> app_config" where
  "set_private_key c v = c\<lparr>cf_private_key := v\<rparr>"

definition set_latitude_microdegrees :: "app_config \<Rightarrow> int option \<Rightarrow> app_config config_result" where
  "set_latitude_microdegrees c v =
     and_then (case v of None \<Rightarrow> Ok () | Some x \<Rightarrow> validate_latitude x) (\<lambda>_.
       Ok (c\<lparr>cf_latitude_microdegrees := v\<rparr>))"

definition set_longitude_microdegrees :: "app_config \<Rightarrow> int option \<Rightarrow> app_config config_result" where
  "set_longitude_microdegrees c v =
     and_then (case v of None \<Rightarrow> Ok () | Some x \<Rightarrow> validate_longitude x) (\<lambda>_.
       Ok (c\<lparr>cf_longitude_microdegrees := v\<rparr>))"

definition radio_config_error :: "radio_error \<Rightarrow> config_error" where
  "radio_config_error e =
     (case e of RadioInvalidFrequency \<Rightarrow> CfgInvalidFrequency | RadioInvalidTransmitPower \<Rightarrow> CfgInvalidTransmitPower)"

definition check_radio :: "radio_config \<Rightarrow> unit config_result" where
  "check_radio rc =
     (case radio_validate rc of
        Inr u \<Rightarrow> Ok u | Inl Panic \<Rightarrow> Panicked | Inl (Fail e) \<Rightarrow> Err (radio_config_error e))"

definition set_radio :: "app_config \<Rightarrow> radio_config \<Rightarrow> app_config config_result" where
  "set_radio c v = and_then (check_radio v) (\<lambda>_. Ok (c\<lparr>cf_radio := v\<rparr>))"

text \<open>This setter stores the power before it checks it: the changed configuration comes with the
  verdict.\<close>

definition set_transmit_power_dbm :: "app_config \<Rightarrow> int \<Rightarrow> app_config \<times> unit config_result" where
  "set_transmit_power_dbm c v =
     (let c = c\<lparr>cf_radio := (cf_radio c)\<lparr>rc_transmit_power_dbm := v\<rparr>\<rparr> in (c, check_radio (cf_radio c)))"

definition set_duty_cycle_percent :: "app_config \<Rightarrow> nat \<Rightarrow> app_config config_result" where
  "set_duty_cycle_percent c v =
     (if \<not> (1 \<le> v \<and> v \<le> 100) then Err CfgInvalidDutyCycle else Ok (c\<lparr>cf_duty_cycle_percent := v\<rparr>))"

definition lift_region :: "'a region_result \<Rightarrow> 'a config_result" where
  "lift_region r = (case r of Inr x \<Rightarrow> Ok x | Inl Panic \<Rightarrow> Panicked | Inl (Fail e) \<Rightarrow> Err (CfgRegion e))"

definition config_put_region :: "app_config \<Rightarrow> rstr \<Rightarrow> app_config config_result" where
  "config_put_region c name =
     and_then (lift_region (put_region (cf_regions c) name)) (\<lambda>m. Ok (c\<lparr>cf_regions := m\<rparr>))"

definition config_remove_region :: "crypto \<Rightarrow> rstr \<Rightarrow> app_config \<Rightarrow> rstr \<Rightarrow> app_config config_result" where
  "config_remove_region C profile c name =
     and_then (default_with_private_key C profile (cf_private_key c)) (\<lambda>defaults.
       if (case find_by_name_prefix (cf_regions defaults) name of
             None \<Rightarrow> False
           | Some region \<Rightarrow> \<not> region_is_wildcard region
               \<and> region_display_name (re_name region) = strip_hash name)
       then Err CfgInheritedRegion
       else and_then (lift_region (remove_region (cf_regions c) name)) (\<lambda>m. Ok (c\<lparr>cf_regions := m\<rparr>)))"

definition set_region_flood_allowed :: "app_config \<Rightarrow> rstr \<Rightarrow> bool \<Rightarrow> app_config config_result" where
  "set_region_flood_allowed c name allowed =
     and_then (lift_region (set_flood_allowed (cf_regions c) name allowed)) (\<lambda>m. Ok (c\<lparr>cf_regions := m\<rparr>))"

text \<open>A region created for the default stays in the table when setting the default then fails.\<close>

definition set_default_region :: "app_config \<Rightarrow> rstr option \<Rightarrow> app_config \<times> unit config_result" where
  "set_default_region c name =
     (let created =
        (case name of
           None \<Rightarrow> Ok c
         | Some n \<Rightarrow>
             if n \<noteq> lit ''*'' \<and> find_by_name_prefix (cf_regions c) n = None
             then config_put_region c n else Ok c)
      in case created of
           Inl e \<Rightarrow> (c, Inl e)
         | Inr c \<Rightarrow>
             (case lift_region (set_default (cf_regions c) name) of
                Inl e \<Rightarrow> (c, Inl e)
              | Inr m \<Rightarrow> (c\<lparr>cf_regions := m\<rparr>, Ok ())))"

definition set_region_capture :: "app_config \<Rightarrow> bool \<Rightarrow> app_config" where
  "set_region_capture c v = c\<lparr>cf_region_capture := v\<rparr>"

definition set_flood_max_unscoped_hops :: "app_config \<Rightarrow> nat \<Rightarrow> app_config config_result" where
  "set_flood_max_unscoped_hops c v =
     and_then (validate_flood_max_hops v) (\<lambda>_. Ok (c\<lparr>cf_flood_max_unscoped_hops := v\<rparr>))"

definition set_flood_max_advert_hops :: "app_config \<Rightarrow> nat \<Rightarrow> app_config config_result" where
  "set_flood_max_advert_hops c v =
     and_then (validate_flood_max_hops v) (\<lambda>_. Ok (c\<lparr>cf_flood_max_advert_hops := v\<rparr>))"

definition set_path_hash_mode :: "app_config \<Rightarrow> nat \<Rightarrow> app_config config_result" where
  "set_path_hash_mode c v =
     and_then (validate_path_hash_mode v) (\<lambda>_. Ok (c\<lparr>cf_path_hash_mode := v\<rparr>))"

section \<open>Resetting a setting\<close>

definition unset_field :: "app_config \<Rightarrow> stored_config \<Rightarrow> rstr \<Rightarrow> app_config \<times> unit config_result" where
  "unset_field c d name =
     (if name = lit ''name'' then (c\<lparr>cf_node_name := cf_node_name d\<rparr>, Ok ())
      else if name = lit ''owner.info'' then (c\<lparr>cf_owner_info := cf_owner_info d\<rparr>, Ok ())
      else if name = lit ''password'' then (c\<lparr>cf_remote_cli_password := cf_remote_cli_password d\<rparr>, Ok ())
      else if name = lit ''lat'' then (c\<lparr>cf_latitude_microdegrees := cf_latitude_microdegrees d\<rparr>, Ok ())
      else if name = lit ''lon'' then (c\<lparr>cf_longitude_microdegrees := cf_longitude_microdegrees d\<rparr>, Ok ())
      else if name = lit ''ntp'' then (c\<lparr>cf_ntp := cf_ntp d\<rparr>, Ok ())
      else if name = lit ''acl'' then (c\<lparr>cf_acl := cf_acl d\<rparr>, Ok ())
      else if name = lit ''region.default'' then
        set_default_region c (map_option re_name (default_region (cf_regions d)))
      else if name = lit ''region.capture'' then (c\<lparr>cf_region_capture := cf_region_capture d\<rparr>, Ok ())
      else if name = lit ''wifi.ssid'' then
        (c\<lparr>cf_wifi := (cf_wifi c)\<lparr>wf_ssid := wf_ssid (cf_wifi d)\<rparr>\<rparr>, Ok ())
      else if name = lit ''wifi.pass'' then
        (c\<lparr>cf_wifi := (cf_wifi c)\<lparr>wf_password := wf_password (cf_wifi d)\<rparr>\<rparr>, Ok ())
      else if name = lit ''wifi.telnet'' then
        (c\<lparr>cf_wifi := (cf_wifi c)\<lparr>wf_telnet := wf_telnet (cf_wifi d)\<rparr>\<rparr>, Ok ())
      else if name = lit ''radio'' then (c\<lparr>cf_radio := cf_radio d\<rparr>, Ok ())
      else if name = lit ''freq'' then
        (c\<lparr>cf_radio := (cf_radio c)\<lparr>rc_receive_frequency_hz := rc_receive_frequency_hz (cf_radio d)\<rparr>\<rparr>, Ok ())
      else if name = lit ''tx'' then
        (c\<lparr>cf_radio := (cf_radio c)\<lparr>rc_transmit_power_dbm := rc_transmit_power_dbm (cf_radio d)\<rparr>\<rparr>, Ok ())
      else if name = lit ''dutycycle'' then (c\<lparr>cf_duty_cycle_percent := cf_duty_cycle_percent d\<rparr>, Ok ())
      else if name = lit ''flood.max.unscoped'' then
        (c\<lparr>cf_flood_max_unscoped_hops := cf_flood_max_unscoped_hops d\<rparr>, Ok ())
      else if name = lit ''flood.max.advert'' then
        (c\<lparr>cf_flood_max_advert_hops := cf_flood_max_advert_hops d\<rparr>, Ok ())
      else if name = lit ''repeat'' then (c\<lparr>cf_repeat_enabled := cf_repeat_enabled d\<rparr>, Ok ())
      else if name = lit ''advert.interval'' then
        (c\<lparr>cf_advert_interval_minutes := cf_advert_interval_minutes d\<rparr>, Ok ())
      else if name = lit ''flood.advert.interval'' then
        (c\<lparr>cf_flood_advert_interval_hours := cf_flood_advert_interval_hours d\<rparr>, Ok ())
      else if name = lit ''loop.detect'' then (c\<lparr>cf_loop_detection := cf_loop_detection d\<rparr>, Ok ())
      else if name = lit ''path.hash.mode'' then (c\<lparr>cf_path_hash_mode := cf_path_hash_mode d\<rparr>, Ok ())
      else if name = lit ''tier'' then (c\<lparr>cf_tier := cf_tier d\<rparr>, Ok ())
      else (c, Err CfgUnknownSetting))"

definition config_unset :: "crypto \<Rightarrow> rstr \<Rightarrow> app_config \<Rightarrow> rstr \<Rightarrow> app_config \<times> unit config_result" where
  "config_unset C profile c name =
     (case strip_prefix name (lit ''acl '') of
        Some key \<Rightarrow>
          (case set_acl_rule C profile c (trim key) (lit ''unset'') of
             Inr c' \<Rightarrow> (c', Ok ()) | Inl e \<Rightarrow> (c, Inl e))
      | None \<Rightarrow>
          (case default_with_private_key C profile (cf_private_key c) of
             Inl e \<Rightarrow> (c, Inl e) | Inr d \<Rightarrow> unset_field c d name))"

end
