(* ===== verification/Image_Config.thy ===== *)
theory Image_Config
  imports App_Config
begin

text \<open>
  The configuration every image starts from: what \<open>profiles/defaults.conf\<close> decodes to, read by the
  model's own decoder. The development's examples use it as their configuration.
\<close>

section \<open>Plain lines\<close>

text \<open>A line \<open>key=value\<close> of visible characters without escapes is its setting.\<close>

definition plain :: "rstr \<Rightarrow> bool" where
  "plain s \<longleftrightarrow> list_all (\<lambda>c. 33 \<le> c \<and> c < 127 \<and> c \<noteq> 92) s"

lemma plain_trim: "plain s \<Longrightarrow> trim s = s"
  by (rule trim_no_whitespace) (auto simp: plain_def list_all_iff is_whitespace_def)

lemma unescape_plain: "plain s \<Longrightarrow> unescape_chars s False out = Some (out @ s)"
  by (induction s arbitrary: out) (auto simp: plain_def)

lemma decode_plain:
  assumes "plain k" and "plain v" and "k \<noteq> []" and "hd k \<noteq> 35" and "61 \<notin> set k"
  shows "decode_line source (k @ 61 # v) st = apply_setting source k v st"
proof -
  have "plain (k @ 61 # v)" using assms(1,2) by (simp add: plain_def)
  then have "trim (k @ 61 # v) = k @ 61 # v" by (rule plain_trim)
  moreover have "\<not> starts_with (k @ 61 # v) (lit ''#'')"
    using assms(3,4) by (cases k) (auto simp: lit_def)
  ultimately show ?thesis
    using assms by (simp add: decode_line_def Let_def split_once_append plain_trim unescape_value_def unescape_plain)
qed

lemma lines_from_append:
  "10 \<notin> set l \<Longrightarrow> lines_from (l @ 10 # s) acc = strip_cr (acc @ l) # lines_from s []"
  by (induction l arbitrary: acc) auto

lemma str_lines_concat:
  "\<forall>l \<in> set ls. 10 \<notin> set l \<and> 13 \<notin> set l \<Longrightarrow> str_lines (concat (map (\<lambda>l. l @ [10]) ls)) = ls"
proof (induction ls)
  case (Cons l ls)
  then have "13 \<notin> set l" by simp
  then have "l = [] \<or> last l \<noteq> 13" by (metis last_in_set)
  then have "strip_cr l = l" by (auto simp: strip_cr_def)
  with Cons show ?case by (simp add: str_lines_def lines_from_append)
qed (simp add: str_lines_def)

text \<open>Keys and values as the sources write them.\<close>

lemma lit_inject [simp]: "lit s = lit t \<longleftrightarrow> s = t"
  by (simp add: lit_def inj_map_eq_map inj_of_char)

lemma lit_Nil [simp]: "lit [] = []"
  by (simp add: lit_def)

lemma starts_with_lit [simp]: "starts_with (lit s) (lit p) = starts_with s p"
  by (induction s p rule: starts_with.induct) (auto simp: lit_def)

lemma decode_lit:
  assumes "plain (lit k)" and "plain (lit v)" and "k \<noteq> []" and "hd k \<noteq> CHR ''#''" and "CHR ''='' \<notin> set k"
  shows "decode_line source (lit (k @ CHR ''='' # v)) st = apply_setting source (lit k) (lit v) st"
proof -
  have e: "of_char c = (61 :: nat) \<longleftrightarrow> c = CHR ''=''" "of_char c = (35 :: nat) \<longleftrightarrow> c = CHR ''#''" for c
    using of_char_eq_iff [of c "CHR ''=''", where ?'a = nat] of_char_eq_iff [of c "CHR ''#''", where ?'a = nat]
    by simp_all
  show ?thesis
    using decode_plain [OF assms(1,2), of source st] assms(3-5)
    by (fastforce simp: lit_def hd_map e)
qed

section \<open>The embedded defaults\<close>

lemmas value_defs = parse_unsigned_def is_digit_def digits_value_def parse_repeat_def parse_bool_def
  parse_flood_max_hops_def parse_path_hash_mode_def validate_flood_max_hops_def validate_path_hash_mode_def
  plain_trim plain_def lit_def

lemma plain_values:
  "parse_unsigned 255 (lit ''1'') = Some 1" "parse_unsigned 255 (lit ''0'') = Some 0"
  "parse_unsigned 255 (lit ''8'') = Some 8" "parse_unsigned 255 (lit ''6'') = Some 6"
  "parse_unsigned 255 (lit ''10'') = Some 10"
  "parse_unsigned 4294967295 (lit ''869618000'') = Some 869618000"
  "parse_unsigned 4294967295 (lit ''62500'') = Some 62500"
  "parse_unsigned 4294967295 (lit ''240'') = Some 240"
  "parse_unsigned 4294967295 (lit ''0'') = Some 0"
  "parse_i32 (lit ''14'') = Some 14"
  "parse_repeat (lit ''on'') = Some True" "parse_bool (lit ''false'') = Some False"
  "parse_flood_max_hops (lit ''5'') = Some 5" "parse_flood_max_hops (lit ''3'') = Some 3"
  "parse_path_hash_mode (lit ''2'') = Some 2"
  "loop_parse (lit ''minimal'') = Some LoopMinimal"
  "parse_optional_coordinate [] lo hi = Some None"
  "fit_owner_info [] = []" "fit_password (lit ''meshcore'') = lit ''meshcore''"
  "validate_ntp_host (lit ''pool.ntp.org'') = Ok ()"
  "sf_from_factor 8 = Some Sf8" "bw_from_hz 62500 = Some Khz62_5" "cr_from_denominator 6 = Some Cr4_6"
  "clamp_advert_interval 240 = 240"
  by (simp_all add: value_defs loop_parse_def parse_i32_def parse_optional_coordinate_def
      fit_owner_info_def fit_password_def MAX_REMOTE_PASSWORD_LEN_def validate_ntp_host_def
      sf_from_factor_def bw_from_hz_def bw_all_def abs_diff_def cr_from_denominator_def cr_all_def
      clamp_advert_interval_def len_utf8_def char_bytes_def ntp_byte_ok_def)


text \<open>The configuration the image's defaults stand for.\<close>

definition image_config :: "crypto \<Rightarrow> private_key \<Rightarrow> stored_config" where
  "image_config C key = (empty_config C key)
     \<lparr>cf_remote_cli_password := lit ''meshcore'', cf_ntp := lit ''pool.ntp.org'',
      cf_radio := \<lparr>rc_receive_frequency_hz = 869618000, rc_spreading_factor = Sf8, rc_bandwidth = Khz62_5,
                   rc_coding_rate = Cr4_6, rc_transmit_power_dbm = 14\<rparr>,
      cf_duty_cycle_percent := 10, cf_repeat_enabled := True, cf_flood_max_unscoped_hops := 5,
      cf_flood_max_advert_hops := 3, cf_advert_interval_minutes := 240, cf_path_hash_mode := 2\<rparr>"

definition conf_lines :: "(string \<times> string) list" where
  "conf_lines =
     [(''version'', ''1''), (''identity.lat'', []), (''identity.lon'', []), (''owner.info'', []),
      (''remote.password'', ''meshcore''), (''ntp'', ''pool.ntp.org''), (''wifi.ssid'', []), (''wifi.pass'', []),
      (''wifi.telnet'', ''false''), (''radio.frequency_hz'', ''869618000''), (''radio.bandwidth_hz'', ''62500''),
      (''radio.spreading_factor'', ''8''), (''radio.coding_rate'', ''6''), (''radio.tx_power_dbm'', ''14''),
      (''radio.duty_cycle_percent'', ''10''), (''region.capture'', ''false''), (''repeat'', ''on''),
      (''tier'', ''0''), (''flood.max.unscoped'', ''5''), (''flood.max.advert'', ''3''),
      (''advert.interval'', ''240''), (''flood.advert.interval'', ''0''), (''loop.detect'', ''minimal''),
      (''path.hash.mode'', ''2'')]"

definition mqtt_lines :: "(string \<times> string) list" where
  "mqtt_lines = concat (map (\<lambda>n.
     [(''mqtt.'' @ n @ ''.host'', []), (''mqtt.'' @ n @ ''.port'', ''1883''), (''mqtt.'' @ n @ ''.username'', []),
      (''mqtt.'' @ n @ ''.password'', []), (''mqtt.'' @ n @ ''.auth'', ''password''),
      (''mqtt.'' @ n @ ''.auth.audience'', []),
      (''mqtt.'' @ n @ ''.topic.root'', ''meshcore/{IATA}/{PUBLIC_KEY}/packets''),
      (''mqtt.'' @ n @ ''.iata'', ''XXX'')]) [''1'', ''2'', ''3''])"

definition line_of :: "string \<times> string \<Rightarrow> rstr" where
  "line_of kv = lit (fst kv @ CHR ''='' # snd kv)"

definition line_ok :: "string \<times> string \<Rightarrow> bool" where
  "line_ok kv \<longleftrightarrow> plain (lit (fst kv)) \<and> plain (lit (snd kv)) \<and> fst kv \<noteq> []
     \<and> hd (fst kv) \<noteq> CHR ''#'' \<and> CHR ''='' \<notin> set (fst kv)"

lemma decode_line_of:
  "line_ok kv \<Longrightarrow> decode_line source (line_of kv) st = apply_setting source (lit (fst kv)) (lit (snd kv)) st"
  by (simp add: line_ok_def line_of_def decode_lit)

lemma conf_lines_ok: "list_all line_ok conf_lines"
  by (simp add: conf_lines_def line_ok_def plain_def lit_def)

lemma mqtt_lines_ok: "list_all line_ok mqtt_lines"
  by (simp add: mqtt_lines_def line_ok_def plain_def lit_def)

fun apply_settings ::
  "config_source \<Rightarrow> (string \<times> string) list \<Rightarrow> stored_config \<times> bool \<Rightarrow> (stored_config \<times> bool) option"
where
  "apply_settings source [] st = Some st"
| "apply_settings source (kv # kvs) st =
     (case apply_setting source (lit (fst kv)) (lit (snd kv)) st of
        None \<Rightarrow> None | Some st \<Rightarrow> apply_settings source kvs st)"

lemma decode_lines_of:
  "list_all line_ok kvs \<Longrightarrow> decode_lines source (map line_of kvs) st = apply_settings source kvs st"
  by (induction kvs arbitrary: st) (auto simp: decode_line_of split: option.split)

lemma decode_lines_append:
  "decode_lines source (ls @ ls') st
     = (case decode_lines source ls st of None \<Rightarrow> None | Some st \<Rightarrow> decode_lines source ls' st)"
  by (induction ls arbitrary: st) (auto split: option.split)

lemma apply_mqtt: "starts_with k ''mqtt.'' \<Longrightarrow> apply_setting FromDefaults (lit k) v (c, b) = Some (c, b)"
proof -
  assume "starts_with k ''mqtt.''"
  then obtain t where k: "k = CHR ''m'' # CHR ''q'' # CHR ''t'' # CHR ''t'' # CHR ''.'' # t"
    by (auto simp: starts_with_iff)
  show ?thesis unfolding k apply_setting_def by simp
qed

lemma apply_mqtt_lines: "apply_settings FromDefaults mqtt_lines (c, b) = Some (c, b)"
  by (simp add: mqtt_lines_def apply_mqtt)

lemma apply_conf_lines:
  "apply_settings FromDefaults conf_lines (empty_config C key, False) = Some (image_config C key, False)"
  unfolding conf_lines_def image_config_def empty_config_def
  by (simp add: apply_setting_def plain_values APP_CONFIG_TEXT_VERSION_def)


lemma comment_line:
  "\<not> is_whitespace (of_char (last (CHR ''#'' # s))) \<Longrightarrow> decode_line source (lit (CHR ''#'' # s)) st = Some st"
  by (subst decode_line_def, subst trim_id) (auto simp: lit_def is_whitespace_def last_map)

lemma blank_line: "decode_line source [] st = Some st"
  by (simp add: decode_line_def trim_def trim_start_def trim_end_def)

definition conf_head :: "rstr list" where
  "conf_head =
     [lit ''# MCRS base image defaults. Network files use the same keys and override these.'',
      lit ''# The identity and its derived node name are generated separately per device.'']"

definition conf_mid :: "rstr list" where
  "conf_mid = [[], lit ''# MQTT defaults are ignored in builds without MQTT support.'']"

lemma defaults_conf_lines:
  "defaults_conf = concat (map (\<lambda>l. l @ [10])
     (conf_head @ map line_of conf_lines @ conf_mid @ map line_of mqtt_lines))"
  by (simp add: defaults_conf_def conf_head_def conf_mid_def conf_lines_def mqtt_lines_def line_of_def)

lemma str_lines_defaults:
  "str_lines defaults_conf = conf_head @ map line_of conf_lines @ conf_mid @ map line_of mqtt_lines"
proof -
  have "10 \<notin> set (line_of kv) \<and> 13 \<notin> set (line_of kv)" if "line_ok kv" for kv
    using that by (auto simp: line_of_def line_ok_def plain_def list_all_iff lit_def)
  then have "\<forall>l \<in> set (map line_of conf_lines @ map line_of mqtt_lines). 10 \<notin> set l \<and> 13 \<notin> set l"
    using conf_lines_ok mqtt_lines_ok by (auto simp: list_all_iff)
  moreover have "\<forall>l \<in> set (conf_head @ conf_mid). 10 \<notin> set l \<and> 13 \<notin> set l"
    by (simp add: conf_head_def conf_mid_def lit_def)
  ultimately show ?thesis
    unfolding defaults_conf_lines by (intro str_lines_concat) auto
qed

lemma decode_conf_head: "decode_lines source conf_head st = Some st"
  unfolding conf_head_def by (simp add: comment_line is_whitespace_def)

lemma decode_conf_mid: "decode_lines source conf_mid st = Some st"
  unfolding conf_mid_def by (simp add: comment_line blank_line is_whitespace_def)

lemma decode_defaults:
  "decode_lines FromDefaults (str_lines defaults_conf) (empty_config C key, False)
     = Some (image_config C key, False)"
  unfolding str_lines_defaults
  by (simp add: decode_lines_append decode_conf_head decode_conf_mid decode_lines_of conf_lines_ok
      mqtt_lines_ok apply_conf_lines apply_mqtt_lines)


lemma of_char_lt [simp]:
  "of_char c < (2048 :: nat)" "of_char c < (55296 :: nat)"
  by (rule less_trans [OF nat_of_char_less_256], simp)+

lemma valid_str_lit [simp]: "valid_str (lit s)"
  by (simp add: lit_def valid_str_def list_all_iff is_scalar_def)

lemma str_len_lit: "str_len (lit s) \<le> 2 * length s"
proof (induction s)
  case (Cons c s)
  have "len_utf8 (of_char c) \<le> 2" by (simp add: len_utf8_def)
  with Cons show ?case by (simp add: lit_def)
qed simp

lemma valid_defaults: "valid_str defaults_conf"
  by (simp add: defaults_conf_def) (simp add: is_scalar_def)

lemma defaults_length: "length (str_bytes defaults_conf) \<le> APP_CONFIG_MAX_LEN"
proof -
  have "str_len (concat (map (\<lambda>l. lit l @ [10]) ls)) \<le> sum_list (map (\<lambda>l. 2 * length l + 1) ls)" for ls
  proof (induction ls)
    case (Cons l ls)
    then show ?case using str_len_lit [of l] by (simp add: len_utf8_def)
  qed simp
  then show ?thesis
    unfolding defaults_conf_def str_len_def [symmetric] APP_CONFIG_MAX_LEN_def by (rule order_trans) simp
qed

lemma settings_valid_image: "settings_valid (image_config C key)"
  by (simp add: settings_valid_def image_config_def empty_config_def radio_validate_def
      validate_flood_max_hops_def validate_path_hash_mode_def validate_wifi_config_def)

lemma decode_config_layer_defaults:
  "decode_config_layer C (str_bytes defaults_conf) (empty_config C key) FromDefaults = Some (image_config C key)"
proof -
  have "cf_private_key (image_config C key) = cf_private_key (empty_config C key)"
    by (simp add: image_config_def)
  then show ?thesis
    using settings_valid_image [of C key] defaults_length
    by (simp add: decode_config_layer_def valid_defaults decode_defaults)
qed

lemma decode_no_overlay:
  "decode_config_layer C (str_bytes []) (image_config C key) FromProfile = Some (image_config C key)"
  using settings_valid_image [of C key]
  by (simp add: decode_config_layer_def str_bytes_def str_lines_def from_utf8_def)

lemma image_defaults:
  "with_defaults_text C key [] = Some (image_config C key)"
  "default_with_private_key C [] key = Ok (image_config C key)"
  by (simp_all add: with_defaults_text_def default_with_private_key_def decode_config_layer_defaults decode_no_overlay
      del: str_bytes_simps)

section \<open>A node with these settings\<close>

definition image_node :: app_config where
  "image_node = from_stored toy_crypto (image_config toy_crypto (Seed (replicate 32 1))) (lit ''generated'')"

lemma image_node_simps [simp]:
  "cf_repeat_enabled image_node" "\<not> cf_region_capture image_node" "cf_regions image_node = regions_new"
  "cf_loop_detection image_node = LoopMinimal" "cf_flood_max_advert_hops image_node = 3"
  "cf_flood_max_unscoped_hops image_node = 5" "cf_duty_cycle_percent image_node = 10" "cf_tier image_node = 0"
  by (simp_all add: image_node_def from_stored_def image_config_def empty_config_def
      stored_config.defs app_config.defs)

section \<open>Properties\<close>

text \<open>Without a profile, the configuration is the one the image's defaults file states, whatever the key.\<close>

lemma embedded_defaults_valid:
  "with_defaults_text C key [] = Some (image_config C key)
     \<and> default_with_private_key C [] key = Ok (image_config C key)
     \<and> settings_valid (image_config C key)"
  by (simp add: image_defaults settings_valid_image)

end
