(* ===== verification/Outbound.thy ===== *)
theory Outbound
  imports Rust_Num Rust_List
begin

text \<open>
  The transmit queue (\<open>SortedOutboundChannel\<close> of \<open>app/mod.rs\<close>): packets in the order in which they
  become eligible, a place reserved for the packet being transmitted, and the retry of a failed one.
  The \<open>Signal\<close> that wakes the radio loop is the flag \<open>oc_changed\<close>. The mutex makes each operation
  atomic, so an operation is a function from one channel to the next.
\<close>

definition OUTBOUND_QUEUE_CAPACITY :: nat where "OUTBOUND_QUEUE_CAPACITY = 16"
definition OUTBOUND_MAX_ATTEMPTS :: u8 where "OUTBOUND_MAX_ATTEMPTS = 5"

record queued_transmit =
  qt_eligible_at_ms :: u64
  qt_attempts :: u8
  qt_packet :: bytes
  qt_dedup_signature :: "bytes option"
  qt_reboot_after_tx :: bool

record next_outbound =
  no_is_forward :: bool
  no_eligible_at_ms :: u64
  no_packet_len :: nat

record outbound_channel =
  oc_queue :: "queued_transmit list"
  oc_changed :: bool
  oc_capacity :: nat
  oc_active :: u8

datatype outbound_error = OutboundQueueFull

definition outbound_new :: "nat \<Rightarrow> outbound_channel" where
  "outbound_new configured_capacity =
     \<lparr>oc_queue = [], oc_changed = False, oc_capacity = min configured_capacity OUTBOUND_QUEUE_CAPACITY,
      oc_active = 0\<rparr>"

definition outbound_len :: "outbound_channel \<Rightarrow> nat" where
  "outbound_len ch = length (oc_queue ch) + unat (oc_active ch)"

definition outbound_try_send :: "outbound_channel \<Rightarrow> queued_transmit \<Rightarrow> (outbound_error, outbound_channel) res" where
  "outbound_try_send ch queued =
     (if oc_capacity ch \<le> outbound_len ch then Err OutboundQueueFull
      else Ok (ch\<lparr>oc_queue := insert_by_key qt_eligible_at_ms queued (oc_queue ch), oc_changed := True\<rparr>))"

definition outbound_next :: "outbound_channel \<Rightarrow> next_outbound option" where
  "outbound_next ch =
     (case oc_queue ch of
        [] \<Rightarrow> None
      | queued # _ \<Rightarrow> Some \<lparr>no_is_forward = qt_dedup_signature queued \<noteq> None,
                           no_eligible_at_ms = qt_eligible_at_ms queued,
                           no_packet_len = length (qt_packet queued)\<rparr>)"

definition outbound_next_after_reset :: "outbound_channel \<Rightarrow> next_outbound option \<times> outbound_channel" where
  "outbound_next_after_reset ch = (let ch = ch\<lparr>oc_changed := False\<rparr> in (outbound_next ch, ch))"

definition outbound_take_first :: "outbound_channel \<Rightarrow> queued_transmit option \<times> outbound_channel" where
  "outbound_take_first ch =
     (case oc_queue ch of
        [] \<Rightarrow> (None, ch)
      | queued # rest \<Rightarrow> (Some queued, ch\<lparr>oc_queue := rest, oc_active := 1\<rparr>))"

text \<open>The clock is read inside; the packet comes back to the caller's hands only in the queue.\<close>

definition outbound_retry_current ::
  "outbound_channel \<Rightarrow> u64 \<Rightarrow> queued_transmit \<Rightarrow> u32 \<Rightarrow> u32 option \<times> outbound_channel"
where
  "outbound_retry_current ch now_ms queued retry_delay_ms =
     (let queued = queued\<lparr>qt_attempts := sat_add (qt_attempts queued) 1\<rparr> in
      if OUTBOUND_MAX_ATTEMPTS \<le> qt_attempts queued then (None, ch)
      else let queued = queued\<lparr>qt_eligible_at_ms := sat_add now_ms (ucast retry_delay_ms)\<rparr>
        in (Some retry_delay_ms,
            ch\<lparr>oc_queue := insert_by_key qt_eligible_at_ms queued (oc_queue ch), oc_active := 0,
               oc_changed := True\<rparr>))"

text \<open>Debug builds check that a packet was being transmitted.\<close>

definition outbound_complete_current :: "outbound_channel \<Rightarrow> (outbound_error, outbound_channel) res" where
  "outbound_complete_current ch = (if oc_active ch = 1 then Ok (ch\<lparr>oc_active := 0\<rparr>) else Panicked)"

section \<open>Invariant\<close>

text \<open>\<open>busy\<close> says whether the radio loop holds a packet it took from the queue.\<close>

definition outbound_inv :: "bool \<Rightarrow> outbound_channel \<Rightarrow> bool" where
  "outbound_inv busy ch \<longleftrightarrow> sorted (map qt_eligible_at_ms (oc_queue ch))
     \<and> outbound_len ch \<le> oc_capacity ch \<and> oc_capacity ch \<le> 16
     \<and> oc_active ch = (if busy then 1 else 0)
     \<and> (\<forall>q \<in> set (oc_queue ch). qt_attempts q < OUTBOUND_MAX_ATTEMPTS)"

lemma outbound_inv_new: "outbound_inv False (outbound_new n)"
  by (simp add: outbound_inv_def outbound_new_def outbound_len_def OUTBOUND_QUEUE_CAPACITY_def)

lemma outbound_try_send_inv:
  assumes "outbound_inv busy ch" and "outbound_try_send ch q = Ok ch'" and "qt_attempts q < OUTBOUND_MAX_ATTEMPTS"
  shows "outbound_inv busy ch'"
  using assms sorted_insert_by_key [of qt_eligible_at_ms "oc_queue ch" q]
  by (auto simp: outbound_inv_def outbound_try_send_def outbound_len_def split: if_splits)

lemma outbound_take_first_inv:
  assumes "outbound_inv False ch" and "outbound_take_first ch = (Some q, ch')"
  shows "outbound_inv True ch'" and "qt_attempts q < OUTBOUND_MAX_ATTEMPTS"
    and "\<forall>p \<in> set (oc_queue ch'). qt_eligible_at_ms q \<le> qt_eligible_at_ms p"
  using assms by (auto simp: outbound_inv_def outbound_take_first_def outbound_len_def split: list.splits)

lemma attempts_succ:
  assumes "a < OUTBOUND_MAX_ATTEMPTS"
  shows "unat (sat_add a 1) = Suc (unat a)"
  using assms by (simp add: unat_sat_add OUTBOUND_MAX_ATTEMPTS_def word_less_nat_alt)

lemma outbound_retry_inv:
  assumes inv: "outbound_inv True ch" and q: "qt_attempts q < OUTBOUND_MAX_ATTEMPTS"
    and r: "outbound_retry_current ch now q delay = (r, ch')"
  shows "outbound_inv (r = None) ch'"
    and "r = None \<longleftrightarrow> unat (qt_attempts q) = 4"
proof -
  let ?q = "q\<lparr>qt_attempts := sat_add (qt_attempts q) 1\<rparr>"
  let ?q' = "?q\<lparr>qt_eligible_at_ms := sat_add now (ucast delay)\<rparr>"
  have r_iff: "r = None \<longleftrightarrow> OUTBOUND_MAX_ATTEMPTS \<le> qt_attempts ?q"
    using r by (auto simp: outbound_retry_current_def Let_def split: if_splits)
  then show "r = None \<longleftrightarrow> unat (qt_attempts q) = 4"
    using q attempts_succ [OF q] by (auto simp: OUTBOUND_MAX_ATTEMPTS_def word_le_nat_alt word_less_nat_alt)
  show "outbound_inv (r = None) ch'"
  proof (cases "r = None")
    case True
    then have "ch' = ch" using r r_iff by (simp add: outbound_retry_current_def Let_def)
    with inv True show ?thesis by simp
  next
    case False
    then have "ch' = ch\<lparr>oc_queue := insert_by_key qt_eligible_at_ms ?q' (oc_queue ch), oc_active := 0,
               oc_changed := True\<rparr>"
      using r r_iff by (auto simp: outbound_retry_current_def Let_def)
    then show ?thesis
      using inv False r_iff sorted_insert_by_key [of qt_eligible_at_ms "oc_queue ch" ?q']
      by (auto simp: outbound_inv_def outbound_len_def)
  qed
qed

lemma outbound_complete_inv:
  assumes "outbound_inv True ch"
  shows "\<exists>ch'. outbound_complete_current ch = Ok ch' \<and> outbound_inv False ch' \<and> oc_queue ch' = oc_queue ch"
  using assms by (auto simp: outbound_inv_def outbound_complete_current_def outbound_len_def)

section \<open>The contract of a transmit queue\<close>

text \<open>
  What the radio and handler loops rely on: sending, taking and requeueing neither lose nor duplicate a
  packet, taking yields the packet eligible first, and a requeued packet keeps its identity. The packets
  held are those queued and the one taken.
\<close>

locale transmit_queue =
  fixes items :: "'q \<Rightarrow> queued_transmit list"
    and send :: "'q \<Rightarrow> queued_transmit \<Rightarrow> (outbound_error, 'q) res"
    and take_one :: "'q \<Rightarrow> queued_transmit option \<times> 'q"
    and requeue :: "'q \<Rightarrow> u64 \<Rightarrow> queued_transmit \<Rightarrow> u32 \<Rightarrow> u32 option \<times> 'q"
  assumes send_items: "send q x = Ok q' \<Longrightarrow> mset (items q') = add_mset x (mset (items q))"
    and take_items: "take_one q = (Some x, q') \<Longrightarrow> mset (items q) = add_mset x (mset (items q'))"
    and take_empty: "take_one q = (None, q') \<longleftrightarrow> items q = [] \<and> q' = q"
    and requeue_items: "requeue q now x delay = (Some d, q') \<Longrightarrow>
      \<exists>y. mset (items q') = add_mset y (mset (items q))
        \<and> qt_dedup_signature y = qt_dedup_signature x \<and> qt_packet y = qt_packet x
        \<and> qt_reboot_after_tx y = qt_reboot_after_tx x"
    and requeue_refused: "requeue q now x delay = (None, q') \<Longrightarrow> q' = q"
begin

definition signatures :: "'q \<Rightarrow> queued_transmit option \<Rightarrow> bytes multiset" where
  "signatures q flight =
     mset (List.map_filter qt_dedup_signature (items q))
     + (case flight of None \<Rightarrow> {#} | Some x \<Rightarrow> (case qt_dedup_signature x of None \<Rightarrow> {#} | Some s \<Rightarrow> {#s#}))"

lemma signatures_of_mset:
  "mset (items q') = add_mset x (mset (items q)) \<Longrightarrow>
     mset (List.map_filter qt_dedup_signature (items q'))
       = mset (List.map_filter qt_dedup_signature (items q))
         + (case qt_dedup_signature x of None \<Rightarrow> {#} | Some s \<Rightarrow> {#s#})"
proof -
  have img: "mset (List.map_filter f xs) = image_mset (the \<circ> f) (filter_mset (\<lambda>x. f x \<noteq> None) (mset xs))"
    for f :: "queued_transmit \<Rightarrow> bytes option" and xs
    by (simp add: List.map_filter_def mset_filter)
  assume "mset (items q') = add_mset x (mset (items q))"
  then show ?thesis unfolding img by (auto split: option.split)
qed

lemma send_signatures:
  "send q x = Ok q' \<Longrightarrow> signatures q' flight
     = signatures q flight + (case qt_dedup_signature x of None \<Rightarrow> {#} | Some s \<Rightarrow> {#s#})"
  by (simp add: signatures_def signatures_of_mset [OF send_items])

lemma take_signatures: "take_one q = (Some x, q') \<Longrightarrow> signatures q' (Some x) = signatures q None"
  by (simp add: signatures_def signatures_of_mset [OF take_items])

lemma requeue_signatures:
  "requeue q now x delay = (Some d, q') \<Longrightarrow> signatures q' None = signatures q (Some x)"
proof -
  assume "requeue q now x delay = (Some d, q')"
  then obtain y where "mset (items q') = add_mset y (mset (items q))" "qt_dedup_signature y = qt_dedup_signature x"
    using requeue_items by blast
  then show ?thesis by (simp add: signatures_def signatures_of_mset)
qed

lemma finish_signatures:
  "signatures q None = signatures q (Some x) - (case qt_dedup_signature x of None \<Rightarrow> {#} | Some s \<Rightarrow> {#s#})"
  by (simp add: signatures_def)

end

lemma retry_items:
  "outbound_retry_current ch now x delay = (Some d, ch') \<Longrightarrow>
     \<exists>y. mset (oc_queue ch') = add_mset y (mset (oc_queue ch))
        \<and> qt_dedup_signature y = qt_dedup_signature x \<and> qt_packet y = qt_packet x
        \<and> qt_reboot_after_tx y = qt_reboot_after_tx x"
  by (rule exI [of _ "x\<lparr>qt_attempts := sat_add (qt_attempts x) 1, qt_eligible_at_ms := sat_add now (ucast delay)\<rparr>"])
    (auto simp: outbound_retry_current_def Let_def split: if_splits)

interpretation oq: transmit_queue oc_queue outbound_try_send outbound_take_first outbound_retry_current
proof unfold_locales
  fix ch x ch'
  show "outbound_try_send ch x = Ok ch' \<Longrightarrow> mset (oc_queue ch') = add_mset x (mset (oc_queue ch))"
    by (auto simp: outbound_try_send_def split: if_splits)
  show "outbound_take_first ch = (Some x, ch') \<Longrightarrow> mset (oc_queue ch) = add_mset x (mset (oc_queue ch'))"
    by (auto simp: outbound_take_first_def split: list.splits)
  show "outbound_take_first ch = (None, ch') \<longleftrightarrow> oc_queue ch = [] \<and> ch' = ch"
    by (auto simp: outbound_take_first_def split: list.splits)
next
  fix ch now x delay d ch'
  show "outbound_retry_current ch now x delay = (Some d, ch') \<Longrightarrow>
     \<exists>y. mset (oc_queue ch') = add_mset y (mset (oc_queue ch))
        \<and> qt_dedup_signature y = qt_dedup_signature x \<and> qt_packet y = qt_packet x
        \<and> qt_reboot_after_tx y = qt_reboot_after_tx x"
    by (rule retry_items)
  show "outbound_retry_current ch now x delay = (None, ch') \<Longrightarrow> ch' = ch"
    by (auto simp: outbound_retry_current_def Let_def split: if_splits)
qed

end
