(* ===== verification/Seen_Cache.thy ===== *)
theory Seen_Cache
  imports Packets
begin

text \<open>
  The cache of recently seen packet signatures (\<open>seen_packet_cache.rs\<close>): a queue of signatures with
  the tick they were last seen, oldest first, bounded in age and in number.
\<close>

type_synonym signature = bytes

record seen_cache =
  sc_ttl_ticks :: u64
  sc_max_entries :: nat
  sc_entries :: "(signature \<times> u64) list"

definition DEFAULT_MAX_ENTRIES :: nat where "DEFAULT_MAX_ENTRIES = 256"

definition seen_new_with_capacity :: "u64 \<Rightarrow> nat \<Rightarrow> seen_cache" where
  "seen_new_with_capacity ttl_ticks max_entries =
     \<lparr>sc_ttl_ticks = ttl_ticks, sc_max_entries = max_entries, sc_entries = []\<rparr>"

definition seen_new :: "u64 \<Rightarrow> seen_cache" where
  "seen_new ttl_ticks = seen_new_with_capacity ttl_ticks DEFAULT_MAX_ENTRIES"

fun prune_entries :: "u64 \<Rightarrow> u64 \<Rightarrow> (signature \<times> u64) list \<Rightarrow> (signature \<times> u64) list" where
  "prune_entries ttl now [] = []"
| "prune_entries ttl now ((s, inserted) # rest) =
     (if sat_sub now inserted \<le> ttl then (s, inserted) # rest else prune_entries ttl now rest)"

definition seen_prune :: "seen_cache \<Rightarrow> u64 \<Rightarrow> seen_cache" where
  "seen_prune c now = c\<lparr>sc_entries := prune_entries (sc_ttl_ticks c) now (sc_entries c)\<rparr>"

definition seen_contains :: "seen_cache \<Rightarrow> signature \<Rightarrow> u64 \<Rightarrow> bool \<times> seen_cache" where
  "seen_contains c signature now =
     (let c = seen_prune c now in (list_ex (\<lambda>(s, _). s = signature) (sc_entries c), c))"

text \<open>\<open>touch\<close> drops the first entry of the signature, then pops from the front until there is room.\<close>

fun remove_signature :: "signature \<Rightarrow> (signature \<times> u64) list \<Rightarrow> (signature \<times> u64) list" where
  "remove_signature sig [] = []"
| "remove_signature sig ((s, t) # rest) =
     (if s = sig then rest else (s, t) # remove_signature sig rest)"

fun pop_while_full :: "nat \<Rightarrow> 'a list \<Rightarrow> 'a list" where
  "pop_while_full max_entries [] = []"
| "pop_while_full max_entries (e # es) =
     (if max_entries \<le> length (e # es) then pop_while_full max_entries es else e # es)"

definition seen_touch :: "seen_cache \<Rightarrow> signature \<Rightarrow> u64 \<Rightarrow> seen_cache" where
  "seen_touch c signature now =
     (let entries = remove_signature signature (sc_entries c) in
      if sc_max_entries c = 0 then c\<lparr>sc_entries := entries\<rparr>
      else c\<lparr>sc_entries := pop_while_full (sc_max_entries c) entries @ [(signature, now)]\<rparr>)"

definition seen_check_and_insert :: "seen_cache \<Rightarrow> signature \<Rightarrow> u64 \<Rightarrow> bool \<times> seen_cache" where
  "seen_check_and_insert c signature now =
     (let (found, c) = seen_contains c signature now in
      if found then (False, c) else (True, seen_touch c signature now))"

section \<open>Invariant\<close>

lemma pop_while_full_eq_drop: "pop_while_full n es = drop (length es - (n - 1)) es"
  by (induction es) (auto simp: Suc_diff_le not_le)

text \<open>Signatures are distinct, ages fall along the queue, no entry is newer than the clock, and the
  capacity holds. \<open>now\<close> is the last tick any operation was given.\<close>

definition seen_inv :: "seen_cache \<Rightarrow> u64 \<Rightarrow> bool" where
  "seen_inv c now \<longleftrightarrow> distinct (map fst (sc_entries c)) \<and> sorted (map snd (sc_entries c))
     \<and> (\<forall>(s, t) \<in> set (sc_entries c). t \<le> now) \<and> length (sc_entries c) \<le> sc_max_entries c"

lemma seen_inv_new: "seen_inv (seen_new_with_capacity ttl n) now"
  by (simp add: seen_inv_def seen_new_with_capacity_def)

lemma sat_sub_antimono: "b \<le> a \<Longrightarrow> sat_sub n a \<le> sat_sub n (b :: u64)"
  by (simp add: word_le_nat_alt unat_sat_sub)

text \<open>On a sorted queue, pruning from the front removes exactly the entries past their age.\<close>

lemma prune_entries_eq_filter:
  "sorted (map snd es) \<Longrightarrow> prune_entries ttl now es = filter (\<lambda>(s, t). sat_sub now t \<le> ttl) es"
proof (induction es)
  case (Cons e es)
  obtain s t where e: "e = (s, t)" by (cases e)
  show ?case
  proof (cases "sat_sub now t \<le> ttl")
    case True
    have "\<forall>(s', t') \<in> set es. sat_sub now t' \<le> ttl"
      using Cons.prems True by (force simp: e intro: order_trans [OF sat_sub_antimono])
    then have "filter (\<lambda>(s, t). sat_sub now t \<le> ttl) es = es" by (simp add: filter_id_conv)
    with True show ?thesis by (simp add: e)
  next
    case False
    with Cons show ?thesis by (simp add: e)
  qed
qed simp

lemma remove_signature_eq_filter:
  "distinct (map fst es) \<Longrightarrow> remove_signature sig es = filter (\<lambda>(s, t). s \<noteq> sig) es"
proof (induction es)
  case (Cons e es)
  obtain s t where e: "e = (s, t)" by (cases e)
  have "s \<notin> fst ` set es \<Longrightarrow> filter (\<lambda>(s', t). s' \<noteq> s) es = es"
    by (force simp: filter_id_conv)
  with Cons show ?case by (auto simp: e)
qed simp

lemma sorted_map_filter_gen: "sorted (map f xs) \<Longrightarrow> sorted (map f (filter P xs))"
  by (induction xs) auto

lemma distinct_map_filter_gen: "distinct (map f xs) \<Longrightarrow> distinct (map f (filter P xs))"
  by (induction xs) auto

lemma seen_prune_inv:
  assumes "seen_inv c t0" and "t0 \<le> now"
  shows "seen_inv (seen_prune c now) now"
  using assms
  by (auto simp: seen_inv_def seen_prune_def prune_entries_eq_filter sorted_map_filter_gen
      distinct_map_filter_gen intro: order_trans le_trans [OF length_filter_le])

lemma seen_touch_inv:
  assumes inv: "seen_inv c t0" and le: "t0 \<le> now"
  shows "seen_inv (seen_touch c sig now) now"
proof -
  let ?es = "filter (\<lambda>(s, t). s \<noteq> sig) (sc_entries c)"
  let ?k = "length ?es - (sc_max_entries c - 1)"
  have D: "distinct (map fst ?es)" and S: "sorted (map snd ?es)"
    and L: "\<forall>(s, t) \<in> set ?es. t \<le> now" and N: "sig \<notin> fst ` set ?es"
    using inv le by (auto simp: seen_inv_def sorted_map_filter_gen distinct_map_filter_gen)
  have len: "length ?es \<le> sc_max_entries c"
    using inv by (auto simp: seen_inv_def intro: le_trans [OF length_filter_le])
  have sub: "set (drop ?k ?es) \<subseteq> set ?es" by (rule set_drop_subset)
  have r: "remove_signature sig (sc_entries c) = ?es"
    using inv by (simp add: seen_inv_def remove_signature_eq_filter)
  have "distinct (map fst (drop ?k ?es))" and "sorted (map snd (drop ?k ?es))"
    using D S by (simp_all only: drop_map [symmetric] distinct_drop sorted_wrt_drop)
  with sub L N len show ?thesis
    by (auto simp: seen_inv_def seen_touch_def r Let_def sorted_append pop_while_full_eq_drop D S
        intro: le_trans [OF length_filter_le])
qed

lemma seen_contains_inv:
  "seen_inv c t0 \<Longrightarrow> t0 \<le> now \<Longrightarrow> seen_inv (snd (seen_contains c sig now)) now"
  by (simp add: seen_contains_def Let_def seen_prune_inv)

lemma seen_check_and_insert_inv:
  "seen_inv c t0 \<Longrightarrow> t0 \<le> now \<Longrightarrow> seen_inv (snd (seen_check_and_insert c sig now)) now"
  using seen_contains_inv [of c t0 now sig] seen_touch_inv [of "snd (seen_contains c sig now)" now now sig]
  by (cases "seen_contains c sig now") (simp add: seen_check_and_insert_def)

section \<open>Meaning\<close>

text \<open>A signature is recognised exactly while the cache holds it with a tick no more than the lifetime ago.\<close>

lemma seen_contains_iff:
  assumes "seen_inv c t0"
  shows "fst (seen_contains c sig now) \<longleftrightarrow>
     (\<exists>t. (sig, t) \<in> set (sc_entries c) \<and> sat_sub now t \<le> sc_ttl_ticks c)"
  using assms
  by (force simp: seen_contains_def Let_def seen_prune_def list_ex_iff seen_inv_def prune_entries_eq_filter)

lemma seen_touch_ttl [simp]:
  "sc_ttl_ticks (seen_touch c sig now) = sc_ttl_ticks c"
  "sc_max_entries (seen_touch c sig now) = sc_max_entries c"
  by (simp_all add: seen_touch_def Let_def)

lemma seen_prune_ttl [simp]:
  "sc_ttl_ticks (seen_prune c now) = sc_ttl_ticks c"
  "sc_max_entries (seen_prune c now) = sc_max_entries c"
  by (simp_all add: seen_prune_def)

lemma seen_check_ttl [simp]:
  "sc_ttl_ticks (snd (seen_check_and_insert c sig now)) = sc_ttl_ticks c"
  "sc_max_entries (snd (seen_check_and_insert c sig now)) = sc_max_entries c"
  by (simp_all add: seen_check_and_insert_def seen_contains_def Let_def)

text \<open>How many entries are newer than a signature: what a later touch can push it out by.\<close>

fun entries_after :: "signature \<Rightarrow> (signature \<times> u64) list \<Rightarrow> nat" where
  "entries_after sig [] = 0"
| "entries_after sig ((s, t) # es) = (if s = sig then length es else entries_after sig es)"

lemma entries_after_filter_le:
  "distinct (map fst es) \<Longrightarrow> (sig, t) \<in> set es \<Longrightarrow> P (sig, t) \<Longrightarrow>
     entries_after sig (filter P es) \<le> entries_after sig es"
  by (induction sig es rule: entries_after.induct) (force intro: le_trans [OF length_filter_le])+

lemma entries_after_less: "(sig, t) \<in> set es \<Longrightarrow> entries_after sig es < length es"
  by (induction sig es rule: entries_after.induct) (auto simp: less_Suc_eq)

lemma entries_after_drop:
  "k \<le> length es - Suc (entries_after sig es) \<Longrightarrow> (sig, t) \<in> set es \<Longrightarrow> distinct (map fst es) \<Longrightarrow>
     (sig, t) \<in> set (drop k es) \<and> entries_after sig (drop k es) = entries_after sig es"
proof (induction k arbitrary: es)
  case (Suc k)
  obtain s u es' where es: "es = (s, u) # es'" using Suc.prems(2) by (cases es) auto
  have "s \<noteq> sig"
  proof
    assume "s = sig"
    then have "length es - Suc (entries_after sig es) = 0" by (simp add: es)
    with Suc.prems(1) show False by simp
  qed
  with Suc show ?case by (auto simp: es)
qed simp

lemma entries_after_snoc:
  "(sig, t) \<in> set es \<Longrightarrow> entries_after sig (es @ xs) = entries_after sig es + length xs"
  by (induction sig es rule: entries_after.induct) auto

text \<open>A remembered signature survives the insertion of another one while fewer than
  \<open>max_entries\<close> entries would follow it and it is young enough.\<close>

lemma seen_prune_keeps:
  assumes inv: "seen_inv c t0" and le: "t0 \<le> now"
    and mem: "(sig, t) \<in> set (sc_entries c)" and young: "sat_sub now t \<le> sc_ttl_ticks c"
  shows "(sig, t) \<in> set (sc_entries (seen_prune c now))
    \<and> entries_after sig (sc_entries (seen_prune c now)) \<le> entries_after sig (sc_entries c)"
  using assms
  by (auto simp: seen_prune_def seen_inv_def prune_entries_eq_filter intro!: entries_after_filter_le)

lemma seen_touch_keeps:
  assumes inv: "seen_inv c t0" and mem: "(sig, t) \<in> set (sc_entries c)" and neq: "sig' \<noteq> sig"
    and room: "Suc (entries_after sig (sc_entries c)) < sc_max_entries c"
  shows "(sig, t) \<in> set (sc_entries (seen_touch c sig' now))
    \<and> entries_after sig (sc_entries (seen_touch c sig' now)) \<le> Suc (entries_after sig (sc_entries c))"
proof -
  let ?es = "filter (\<lambda>(s, t). s \<noteq> sig') (sc_entries c)"
  let ?k = "length ?es - (sc_max_entries c - 1)"
  have D: "distinct (map fst ?es)" and m: "(sig, t) \<in> set ?es"
    using inv mem neq by (auto simp: seen_inv_def distinct_map_filter_gen)
  have le: "entries_after sig ?es \<le> entries_after sig (sc_entries c)"
    using inv mem neq by (intro entries_after_filter_le) (auto simp: seen_inv_def)
  have "?k \<le> length ?es - Suc (entries_after sig ?es)" using le room by linarith
  note K = entries_after_drop [OF this m D]
  have "sc_entries (seen_touch c sig' now) = drop ?k ?es @ [(sig', now)]"
    using inv room by (simp add: seen_touch_def Let_def remove_signature_eq_filter
        pop_while_full_eq_drop seen_inv_def)
  with K le show ?thesis by (auto simp: entries_after_snoc)
qed

lemma seen_check_keeps:
  assumes inv: "seen_inv c t0" and le: "t0 \<le> now"
    and mem: "(sig, t) \<in> set (sc_entries c)" and young: "sat_sub now t \<le> sc_ttl_ticks c"
    and room: "Suc (entries_after sig (sc_entries c)) < sc_max_entries c"
  shows "(sig, t) \<in> set (sc_entries (snd (seen_check_and_insert c sig' now)))
    \<and> entries_after sig (sc_entries (snd (seen_check_and_insert c sig' now)))
        \<le> Suc (entries_after sig (sc_entries c))"
proof -
  let ?c = "seen_prune c now"
  note P = seen_prune_keeps [OF inv le mem young]
  show ?thesis
  proof (cases "list_ex (\<lambda>(s, _). s = sig') (sc_entries ?c)")
    case True
    with P show ?thesis by (simp add: seen_check_and_insert_def seen_contains_def Let_def)
  next
    case False
    with P have "sig' \<noteq> sig" by (auto simp: list_ex_iff)
    moreover have "Suc (entries_after sig (sc_entries ?c)) < sc_max_entries ?c" using P room by simp
    ultimately have "(sig, t) \<in> set (sc_entries (seen_touch ?c sig' now))
        \<and> entries_after sig (sc_entries (seen_touch ?c sig' now)) \<le> Suc (entries_after sig (sc_entries ?c))"
      using seen_touch_keeps [OF seen_prune_inv [OF inv le], of sig t sig' now] P by blast
    with False P show ?thesis by (simp add: seen_check_and_insert_def seen_contains_def Let_def)
  qed
qed

text \<open>A run of receptions, each a signature at a tick.\<close>

fun seen_run :: "seen_cache \<Rightarrow> (signature \<times> u64) list \<Rightarrow> seen_cache" where
  "seen_run c [] = c"
| "seen_run c ((s, now) # ops) = seen_run (snd (seen_check_and_insert c s now)) ops"

lemma seen_run_inv:
  "seen_inv c t0 \<Longrightarrow> sorted (t0 # map snd ops) \<Longrightarrow> seen_inv (seen_run c ops) (last (t0 # map snd ops))"
proof (induction c ops arbitrary: t0 rule: seen_run.induct)
  case (2 c s now ops)
  then show ?case using seen_check_and_insert_inv [of c t0 now s] by auto
qed simp

lemma entries_after_last: "sig \<notin> fst ` set es \<Longrightarrow> entries_after sig (es @ [(sig, t)]) = 0"
  by (induction es) auto

lemma entries_after_touch:
  assumes "seen_inv c t0" and "0 < sc_max_entries c"
  shows "(sig, t) \<in> set (sc_entries (seen_touch c sig t))
    \<and> entries_after sig (sc_entries (seen_touch c sig t)) = 0"
proof -
  let ?es = "pop_while_full (sc_max_entries c) (remove_signature sig (sc_entries c))"
  have "distinct (map fst (sc_entries c))" using assms(1) by (simp add: seen_inv_def)
  then have "sig \<notin> fst ` set (remove_signature sig (sc_entries c))"
    by (auto simp: remove_signature_eq_filter)
  then have "sig \<notin> fst ` set ?es"
    unfolding pop_while_full_eq_drop using set_drop_subset by fastforce
  then show ?thesis using assms(2) by (simp add: seen_touch_def Let_def entries_after_last)
qed

lemma seen_run_keeps:
  assumes "seen_inv c t0" and "sorted (t0 # map snd ops)" and "(sig, t) \<in> set (sc_entries c)"
    and "\<forall>(s, now) \<in> set ops. sat_sub now t \<le> sc_ttl_ticks c"
    and "entries_after sig (sc_entries c) + length ops < sc_max_entries c"
  shows "(sig, t) \<in> set (sc_entries (seen_run c ops))"
  using assms
proof (induction c ops arbitrary: t0 rule: seen_run.induct)
  case (2 c s now ops)
  let ?c = "snd (seen_check_and_insert c s now)"
  have K: "(sig, t) \<in> set (sc_entries ?c)"
    "entries_after sig (sc_entries ?c) \<le> Suc (entries_after sig (sc_entries c))"
    using seen_check_keeps [of c t0 now sig t s] 2(2-) by auto
  have "seen_inv ?c now" using seen_check_and_insert_inv [of c t0 now s] 2(2,3) by simp
  then show ?case using 2(1) [of now] 2(2-) K by simp
qed simp

lemma seen_run_ttl [simp]:
  "sc_ttl_ticks (seen_run c ops) = sc_ttl_ticks c" "sc_max_entries (seen_run c ops) = sc_max_entries c"
  by (induction c ops rule: seen_run.induct) simp_all

section \<open>The history\<close>

text \<open>What has been recorded, newest first, as a function of the operations. A checked insertion records what
  the history so far does not remember.\<close>

datatype seen_op = TouchOp signature u64 | LookupOp signature u64 | CheckOp signature u64

fun op_tick :: "seen_op \<Rightarrow> u64" where
  "op_tick (TouchOp s t) = t"
| "op_tick (LookupOp s t) = t"
| "op_tick (CheckOp s t) = t"

definition remembered :: "u64 \<Rightarrow> nat \<Rightarrow> (signature \<times> u64) list \<Rightarrow> signature \<Rightarrow> u64 \<Rightarrow> bool" where
  "remembered ttl capacity history sig now \<longleftrightarrow>
     (\<exists>t. map_of history sig = Some t \<and> sat_sub now t \<le> ttl)
     \<and> card (fst ` set (takeWhile (\<lambda>r. fst r \<noteq> sig) history)) < capacity"

fun recorded :: "u64 \<Rightarrow> nat \<Rightarrow> (signature \<times> u64) list \<Rightarrow> seen_op list \<Rightarrow> (signature \<times> u64) list" where
  "recorded ttl capacity history [] = history"
| "recorded ttl capacity history (TouchOp s t # ops) = recorded ttl capacity ((s, t) # history) ops"
| "recorded ttl capacity history (LookupOp s t # ops) = recorded ttl capacity history ops"
| "recorded ttl capacity history (CheckOp s t # ops) =
     recorded ttl capacity (if remembered ttl capacity history s t then history else (s, t) # history) ops"

fun run_op :: "seen_cache \<Rightarrow> seen_op \<Rightarrow> seen_cache" where
  "run_op c (TouchOp s t) = seen_touch c s t"
| "run_op c (LookupOp s t) = snd (seen_contains c s t)"
| "run_op c (CheckOp s t) = snd (seen_check_and_insert c s t)"

definition run_ops :: "seen_cache \<Rightarrow> seen_op list \<Rightarrow> seen_cache" where
  "run_ops c ops = foldl run_op c ops"

text \<open>The last recording of each signature, newest first.\<close>

fun latest :: "(signature \<times> u64) list \<Rightarrow> (signature \<times> u64) list" where
  "latest [] = []"
| "latest ((s, t) # history) = (s, t) # filter (\<lambda>r. fst r \<noteq> s) (latest history)"

definition newer :: "signature \<Rightarrow> (signature \<times> u64) list \<Rightarrow> (signature \<times> u64) list" where
  "newer sig es = takeWhile (\<lambda>r. fst r \<noteq> sig) es"

lemma newer_simps [simp]:
  "newer sig [] = []" "newer sig (r # es) = (if fst r = sig then [] else r # newer sig es)"
  by (simp_all add: newer_def)

lemma newer_filter: "s \<noteq> sig \<Longrightarrow> newer sig (filter (\<lambda>r. fst r \<noteq> s) es) = filter (\<lambda>r. fst r \<noteq> s) (newer sig es)"
  by (induction es) auto

lemma map_of_filter_key: "s \<noteq> sig \<Longrightarrow> map_of (filter (\<lambda>r. fst r \<noteq> s) es) sig = map_of es sig"
  by (induction es) auto

lemma distinct_latest: "distinct (map fst (latest history))"
  by (induction history rule: latest.induct) (auto simp: distinct_map_filter_gen)

lemma latest_facts:
  "map_of (latest history) sig = map_of history sig
   \<and> fst ` set (newer sig (latest history)) = fst ` set (newer sig history)"
proof (induction history rule: latest.induct)
  case (2 s t history)
  then show ?case by (cases "s = sig") (auto simp: map_of_filter_key newer_filter)
qed simp

lemma distinct_newer: "distinct (map fst es) \<Longrightarrow> distinct (map fst (newer sig es))"
  by (induction es) (auto simp: newer_def dest: set_takeWhileD)

lemma remembered_latest:
  "remembered ttl capacity history sig now \<longleftrightarrow>
     (\<exists>t. map_of (latest history) sig = Some t \<and> sat_sub now t \<le> ttl) \<and> length (newer sig (latest history)) < capacity"
proof -
  have "card (fst ` set (newer sig history)) = length (newer sig (latest history))"
    using latest_facts [of history sig] distinct_card [OF distinct_newer [OF distinct_latest], of sig history]
    by (metis length_map set_map)
  then show ?thesis using latest_facts [of history sig] by (simp add: remembered_def newer_def)
qed

text \<open>The cache holds the newest of the last recordings, oldest first. What it dropped is past its age or has
  a full cache of newer signatures behind it.\<close>

definition mirrors :: "seen_cache \<Rightarrow> (signature \<times> u64) list \<Rightarrow> u64 \<Rightarrow> bool" where
  "mirrors c history now \<longleftrightarrow> seen_inv c now \<and> (\<exists>gone. latest history = rev (sc_entries c) @ gone
     \<and> (\<forall>(s, t) \<in> set gone. \<not> sat_sub now t \<le> sc_ttl_ticks c \<or> sc_max_entries c \<le> length (newer s (latest history))))"

lemma mirrors_new: "mirrors (seen_new_with_capacity ttl n) [] now"
  by (simp add: mirrors_def seen_inv_new) (simp add: seen_new_with_capacity_def)

lemma sat_sub_mono: "(a :: u64) \<le> b \<Longrightarrow> sat_sub a t \<le> sat_sub b t"
  by (simp add: word_le_nat_alt unat_sat_sub)

lemma age_mono: "t0 \<le> now \<Longrightarrow> sat_sub now t \<le> (ttl :: u64) \<Longrightarrow> sat_sub t0 t \<le> ttl"
  using sat_sub_mono order_trans by blast

lemma newer_prefix_length: "r \<in> set es \<Longrightarrow> length (newer (fst r) (es @ es')) < length es"
  by (induction es) auto

lemma mirrors_contains:
  assumes "mirrors c history t0" and "t0 \<le> now"
  shows "fst (seen_contains c sig now) \<longleftrightarrow> remembered (sc_ttl_ticks c) (sc_max_entries c) history sig now"
proof -
  obtain gone where g: "latest history = rev (sc_entries c) @ gone"
    "\<forall>(s, t) \<in> set gone. \<not> sat_sub t0 t \<le> sc_ttl_ticks c \<or> sc_max_entries c \<le> length (newer s (latest history))"
    and inv: "seen_inv c t0"
    using assms(1) by (auto simp: mirrors_def)
  have mem: "map_of (latest history) sig = Some t \<longleftrightarrow> (sig, t) \<in> set (sc_entries c) \<or> (sig, t) \<in> set gone" for t
    using distinct_latest [of history] by (subst map_of_eq_Some_iff) (auto simp: g(1))
  have short: "length (newer sig (latest history)) < sc_max_entries c" if "(sig, t) \<in> set (sc_entries c)" for t
    using newer_prefix_length [of "(sig, t)" "rev (sc_entries c)" gone] that inv by (auto simp: g(1) seen_inv_def)
  have old: "\<not> sat_sub now t \<le> sc_ttl_ticks c" if "(sig, t) \<in> set gone" "length (newer sig (latest history)) < sc_max_entries c" for t
    using g(2) that by (auto dest: age_mono [OF assms(2)])
  show ?thesis
    unfolding seen_contains_iff [OF inv] remembered_latest using mem short old by blast
qed

lemma prune_entries_drops:
  "\<exists>d. es = d @ prune_entries ttl now es \<and> (\<forall>(s, t) \<in> set d. \<not> sat_sub now t \<le> ttl)"
proof (induction es)
  case (Cons e es)
  obtain s t where e: "e = (s, t)" by (cases e)
  show ?case
  proof (cases "sat_sub now t \<le> ttl")
    case False
    obtain d where "es = d @ prune_entries ttl now es" "\<forall>(s, t) \<in> set d. \<not> sat_sub now t \<le> ttl" using Cons by blast
    then show ?thesis using False by (intro exI [of _ "e # d"]) (simp add: e)
  qed (simp add: e)
qed simp

lemma mirrors_prune:
  assumes "mirrors c history t0" and "t0 \<le> now"
  shows "mirrors (seen_prune c now) history now"
proof -
  obtain gone where g: "latest history = rev (sc_entries c) @ gone"
    "\<forall>(s, t) \<in> set gone. \<not> sat_sub t0 t \<le> sc_ttl_ticks c \<or> sc_max_entries c \<le> length (newer s (latest history))"
    and inv: "seen_inv c t0"
    using assms(1) by (auto simp: mirrors_def)
  obtain d where d: "sc_entries c = d @ sc_entries (seen_prune c now)" "\<forall>(s, t) \<in> set d. \<not> sat_sub now t \<le> sc_ttl_ticks c"
    using prune_entries_drops [of "sc_entries c" "sc_ttl_ticks c" now] by (auto simp: seen_prune_def)
  have "latest history = rev (sc_entries (seen_prune c now)) @ rev d @ gone"
    using g(1) d(1) by (metis append_assoc rev_append)
  moreover have "\<forall>(s, t) \<in> set (rev d @ gone). \<not> sat_sub now t \<le> sc_ttl_ticks c
      \<or> sc_max_entries c \<le> length (newer s (latest history))"
    using g(2) d(2) by (auto dest: age_mono [OF assms(2)])
  ultimately show ?thesis
    using seen_prune_inv [OF inv assms(2)] unfolding mirrors_def by auto
qed

lemma newer_touched:
  "distinct (map fst es) \<Longrightarrow> s \<noteq> x \<Longrightarrow> length (newer x es) \<le> length (newer x ((s, t) # filter (\<lambda>r. fst r \<noteq> s) es))"
proof -
  assume d: "distinct (map fst es)" and x: "s \<noteq> x"
  have "length ns \<le> Suc (length (filter (\<lambda>r. fst r \<noteq> s) ns))" if "distinct (map fst ns)" for ns :: "(signature \<times> u64) list"
    using that
  proof (induction ns)
    case (Cons n ns)
    have "fst n = s \<Longrightarrow> filter (\<lambda>r. fst r \<noteq> s) ns = ns" using Cons.prems by (auto simp: filter_id_conv rev_image_eqI)
    then show ?case using Cons by auto
  qed simp
  then show ?thesis using distinct_newer [OF d, of x] x by (simp add: newer_filter)
qed

lemma newer_append: "x \<notin> fst ` set as \<Longrightarrow> newer x (as @ bs) = as @ newer x bs"
  by (induction as) auto

lemma mirrors_touch:
  assumes "mirrors c history t0" and "t0 \<le> now"
  shows "mirrors (seen_touch c sig now) ((sig, now) # history) now"
proof -
  obtain gone where g: "latest history = rev (sc_entries c) @ gone"
    "\<forall>(s, t) \<in> set gone. \<not> sat_sub t0 t \<le> sc_ttl_ticks c \<or> sc_max_entries c \<le> length (newer s (latest history))"
    and inv: "seen_inv c t0"
    using assms(1) by (auto simp: mirrors_def)
  let ?keep = "filter (\<lambda>r. fst r \<noteq> sig)"
  let ?es = "?keep (sc_entries c)" and ?L = "latest ((sig, now) # history)"
  let ?k = "length ?es - (sc_max_entries c - 1)"
  have L: "?L = (sig, now) # rev ?es @ ?keep gone" by (simp add: g(1) rev_filter)
  have rm: "remove_signature sig (sc_entries c) = ?es"
    using inv by (simp add: seen_inv_def remove_signature_eq_filter case_prod_unfold)
  have stays: "\<not> sat_sub now t \<le> sc_ttl_ticks c \<or> sc_max_entries c \<le> length (newer s ?L)"
    if "(s, t) \<in> set (?keep gone)" for s t
  proof -
    have m: "(s, t) \<in> set gone" "sig \<noteq> s" using that by auto
    have "length (newer s (latest history)) \<le> length (newer s ?L)"
      using newer_touched [OF distinct_latest m(2)] by simp
    then show ?thesis using g(2) m(1) age_mono [OF assms(2)] by fastforce
  qed
  have "\<exists>gone'. ?L = rev (sc_entries (seen_touch c sig now)) @ gone'
      \<and> (\<forall>(s, t) \<in> set gone'. \<not> sat_sub now t \<le> sc_ttl_ticks c \<or> sc_max_entries c \<le> length (newer s ?L))"
  proof (cases "sc_max_entries c = 0")
    case True
    then show ?thesis using inv by (simp add: seen_touch_def Let_def rm seen_inv_def)
  next
    case False
    have e: "sc_entries (seen_touch c sig now) = drop ?k ?es @ [(sig, now)]"
      using False by (simp add: seen_touch_def Let_def rm pop_while_full_eq_drop)
    have parts: "rev ?es = rev (drop ?k ?es) @ rev (take ?k ?es)" by (metis append_take_drop_id rev_append)
    have crowded: "sc_max_entries c \<le> length (newer s ?L)" if m: "(s, t) \<in> set (take ?k ?es)" for s t
    proof -
      have D: "distinct (map fst (take ?k ?es @ drop ?k ?es))"
        using inv by (simp add: seen_inv_def distinct_map_filter_gen)
      have "(s, t) \<in> set ?es" using m by (rule in_set_takeD)
      then have "s \<noteq> sig" by simp
      moreover have "s \<notin> fst ` set (drop ?k ?es)"
        using D m unfolding map_append distinct_append set_map by force
      moreover have "sc_max_entries c - 1 \<le> length (drop ?k ?es)" using m by (cases "?k = 0") auto
      ultimately have "newer s ?L = (sig, now) # rev (drop ?k ?es) @ newer s (rev (take ?k ?es) @ ?keep gone)"
        unfolding L parts by (simp add: newer_append)
      then show ?thesis using \<open>sc_max_entries c - 1 \<le> length (drop ?k ?es)\<close> by simp
    qed
    have "?L = rev (sc_entries (seen_touch c sig now)) @ rev (take ?k ?es) @ ?keep gone"
      unfolding e L using parts by simp
    moreover have "\<forall>(s, t) \<in> set (rev (take ?k ?es) @ ?keep gone).
        \<not> sat_sub now t \<le> sc_ttl_ticks c \<or> sc_max_entries c \<le> length (newer s ?L)"
      using stays crowded by (simp only: set_append set_rev ball_Un) blast
    ultimately show ?thesis by blast
  qed
  then show ?thesis using seen_touch_inv [OF inv assms(2)] by (simp add: mirrors_def del: latest.simps)
qed

lemma run_op_mirrors:
  assumes "mirrors c history t0" and "t0 \<le> op_tick op"
  shows "mirrors (run_op c op) (recorded (sc_ttl_ticks c) (sc_max_entries c) history [op]) (op_tick op)"
proof (cases op)
  case (TouchOp s t)
  then show ?thesis using mirrors_touch [OF assms(1)] assms(2) by simp
next
  case (LookupOp s t)
  then show ?thesis using mirrors_prune [OF assms(1)] assms(2) by (simp add: seen_contains_def Let_def)
next
  case (CheckOp s t)
  have t: "t0 \<le> t" using assms(2) by (simp add: CheckOp)
  note p = mirrors_prune [OF assms(1) t]
  have c: "seen_contains c s t = (remembered (sc_ttl_ticks c) (sc_max_entries c) history s t, seen_prune c t)"
    using mirrors_contains [OF assms(1) t, of s] by (simp add: seen_contains_def Let_def)
  show ?thesis
    using p mirrors_touch [OF p order_refl, of s] by (simp add: CheckOp seen_check_and_insert_def c)
qed

lemma run_op_ttl [simp]:
  "sc_ttl_ticks (run_op c op) = sc_ttl_ticks c" "sc_max_entries (run_op c op) = sc_max_entries c"
  by (cases op; simp add: seen_contains_def Let_def)+

lemma recorded_Cons: "recorded ttl n history (op # ops) = recorded ttl n (recorded ttl n history [op]) ops"
  by (cases op) simp_all

lemma run_ops_mirrors:
  "mirrors c history t0 \<Longrightarrow> sorted (t0 # map op_tick ops) \<Longrightarrow>
     mirrors (run_ops c ops) (recorded (sc_ttl_ticks c) (sc_max_entries c) history ops) (last (t0 # map op_tick ops))
     \<and> sc_ttl_ticks (run_ops c ops) = sc_ttl_ticks c \<and> sc_max_entries (run_ops c ops) = sc_max_entries c"
proof (induction ops arbitrary: c history t0)
  case (Cons op ops)
  have "mirrors (run_op c op) (recorded (sc_ttl_ticks c) (sc_max_entries c) history [op]) (op_tick op)"
    using run_op_mirrors [OF Cons.prems(1)] Cons.prems(2) by simp
  moreover have "run_ops c (op # ops) = run_ops (run_op c op) ops" by (simp add: run_ops_def)
  ultimately show ?case
    using Cons.IH [of "run_op c op" _ "op_tick op"] Cons.prems(2) unfolding recorded_Cons [of _ _ _ op ops] by simp
qed (simp add: run_ops_def)

section \<open>Properties\<close>

text \<open>C20: The cache implements its history. After any sequence of touches, lookups and checked insertions
  at ticks that do not go back, a signature is recognised exactly when its last recording is no older than the
  lifetime and fewer different signatures than the capacity were recorded since; a checked insertion reports a
  signature as new exactly when it is not. What was recorded is a function of the operations alone.\<close>

theorem seen_recognised_iff:
  fixes ttl now :: u64 and capacity :: nat
  assumes "sorted (map op_tick ops)" and "\<forall>op \<in> set ops. op_tick op \<le> now"
  defines "c \<equiv> run_ops (seen_new_with_capacity ttl capacity) ops"
    and "history \<equiv> recorded ttl capacity [] ops"
  shows "(fst (seen_contains c sig now) \<longleftrightarrow> remembered ttl capacity history sig now)
    \<and> (fst (seen_check_and_insert c sig now) \<longleftrightarrow> \<not> remembered ttl capacity history sig now)
    \<and> length (sc_entries c) \<le> capacity"
proof -
  let ?t = "last (0 # map op_tick ops)"
  have "sorted (0 # map op_tick ops)" using assms(1) by simp
  then have m: "mirrors c history ?t" "sc_ttl_ticks c = ttl" "sc_max_entries c = capacity"
    using run_ops_mirrors [OF mirrors_new, of 0 ops ttl capacity] unfolding c_def history_def
    by (simp_all add: seen_new_with_capacity_def)
  have t: "?t \<le> now" using assms(2) by (cases ops rule: rev_cases) simp_all
  have "fst (seen_contains c sig now) \<longleftrightarrow> remembered ttl capacity history sig now"
    using mirrors_contains [OF m(1) t] m(2,3) by simp
  moreover have "length (sc_entries c) \<le> capacity" using m(1,3) by (simp add: mirrors_def seen_inv_def)
  ultimately show ?thesis
    by (cases "seen_contains c sig now") (simp add: seen_check_and_insert_def)
qed

theorem seen_recognised_iff_witness:
  "fst (seen_contains (run_ops (seen_new_with_capacity 100 2) [TouchOp [1] 5, CheckOp [2] 6, LookupOp [1] 7]) [1] 105)"
proof -
  let ?ops = "[TouchOp [1] 5, CheckOp [2] 6, LookupOp [1] 7]"
  have "remembered 100 2 (recorded 100 2 [] ?ops) [1] 105"
    by (simp add: remembered_def sat_sub_def)
  then show ?thesis using seen_recognised_iff [of ?ops 105 100 2 "[1]"] by simp
qed

text \<open>C21: Retention: a signature recorded at time \<open>t\<close> is still recognised after any sequence of
  insertions at times within the lifetime, as long as they are fewer than the cache's capacity.\<close>

theorem seen_retained:
  assumes inv: "seen_inv c t0" and le: "t0 \<le> t" and ops: "sorted (t # map snd ops)"
    and young: "\<forall>(s, now) \<in> set ops. sat_sub now t \<le> sc_ttl_ticks c"
    and few: "length ops < sc_max_entries c"
    and now: "sat_sub now t \<le> sc_ttl_ticks c"
  shows "fst (seen_contains (seen_run (seen_touch c sig t) ops) sig now)"
proof -
  let ?c = "seen_touch c sig t" and ?d = "seen_run (seen_touch c sig t) ops"
  have invc: "seen_inv ?c t" by (rule seen_touch_inv [OF inv le])
  have "0 < sc_max_entries c" using few by simp
  then have mem: "(sig, t) \<in> set (sc_entries ?c)" and last: "entries_after sig (sc_entries ?c) = 0"
    using entries_after_touch [OF inv] by blast+
  have "(sig, t) \<in> set (sc_entries ?d)"
    by (rule seen_run_keeps [OF invc ops mem]) (use young few last in simp_all)
  moreover have invd: "seen_inv ?d (last (t # map snd ops))" by (rule seen_run_inv [OF invc ops])
  ultimately show ?thesis using now by (auto simp: seen_contains_iff [OF invd])
qed

theorem seen_retained_witness:
  "fst (seen_contains (seen_run (seen_touch (seen_new_with_capacity 100 3) [1] 5) [([2], 6), ([3], 7)]) [1] 105)"
  by (rule seen_retained [of _ 0])
     (simp_all add: seen_inv_new, simp_all add: seen_new_with_capacity_def sat_sub_def)

end
