(* ===== verification/Neighbours.thy ===== *)
theory Neighbours
  imports Plaintexts Rust_List Hex
begin

text \<open>
  The table of directly heard repeaters (\<open>app/neighbours.rs\<close>): bounded, one entry per public key,
  the longest unheard entry replaced when it is full; and the sorted, paged binary listing a remote
  client can request.
\<close>

definition MAX_NEIGHBOUR_HASH_LEN :: nat where "MAX_NEIGHBOUR_HASH_LEN = 4"
definition MAX_NEIGHBOUR_RESULTS_BYTES :: nat where "MAX_NEIGHBOUR_RESULTS_BYTES = 130"

record neighbour =
  nb_public_key :: bytes
  nb_last_seen_ms :: u64
  nb_last_rssi :: i16
  nb_last_snr_quarters :: i16
  nb_packet_count :: u32

record neighbour_table =
  nt_entries :: "neighbour list"
  nt_capacity :: nat

definition neighbours_new :: "nat \<Rightarrow> neighbour_table" where
  "neighbours_new capacity = \<lparr>nt_entries = [], nt_capacity = capacity\<rparr>"

section \<open>Observations\<close>

definition public_key_matches_hash :: "bytes \<Rightarrow> bytes \<Rightarrow> bool" where
  "public_key_matches_hash public_key hash =
     (let own_hash = node_hash MAX_NEIGHBOUR_HASH_LEN public_key in
      length own_hash \<le> length hash \<and> take (length own_hash) hash = own_hash)"

text \<open>A packet proves a neighbour when it is a signed repeater advert that no other node relayed.\<close>

definition immediate_neighbour :: "crypto \<Rightarrow> packet \<Rightarrow> bytes option" where
  "immediate_neighbour C packet =
     (case packet_path packet of
        TraceRoute _ \<Rightarrow> None
      | Normal path \<Rightarrow>
          if \<not> (is_flood (route_type packet) \<or> is_direct (route_type packet)) \<or> hop_count path \<noteq> 0
          then None
          else (case packet_payload packet of
                  PAdvert advert \<Rightarrow>
                    (case av_app_data advert of
                       None \<Rightarrow> None
                     | Some app_data \<Rightarrow>
                         if ad_node_type app_data \<noteq> NodeRepeater then None
                         else if \<not> verify_signature C advert then None
                         else Some (av_public_key advert))
                | _ \<Rightarrow> None))"

definition find_neighbour :: "neighbour_table \<Rightarrow> bytes \<Rightarrow> nat option" where
  "find_neighbour t public_key = position (\<lambda>n. nb_public_key n = public_key) (nt_entries t)"

text \<open>The scan for the entry unheard the longest: index, best index and its tick so far.\<close>

fun oldest_scan :: "neighbour list \<Rightarrow> nat \<Rightarrow> nat \<Rightarrow> u64 \<Rightarrow> nat" where
  "oldest_scan [] index oldest_index oldest_seen = oldest_index"
| "oldest_scan (n # ns) index oldest_index oldest_seen =
     (if nb_last_seen_ms n < oldest_seen
      then oldest_scan ns (Suc index) index (nb_last_seen_ms n)
      else oldest_scan ns (Suc index) oldest_index oldest_seen)"

definition oldest_index :: "neighbour_table \<Rightarrow> nat" where
  "oldest_index t = oldest_scan (nt_entries t) 0 0 (- 1)"

definition observe_public_key ::
  "neighbour_table \<Rightarrow> bytes \<Rightarrow> i16 \<Rightarrow> i16 \<Rightarrow> u64 \<Rightarrow> bytes \<Rightarrow> neighbour_table"
where
  "observe_public_key t public_key rssi snr_quarters now_ms local_node_hash =
     (if public_key_matches_hash public_key local_node_hash then t
      else case find_neighbour t public_key of
        Some index \<Rightarrow>
          let neighbour = nt_entries t ! index in
          t\<lparr>nt_entries := (nt_entries t)[index := neighbour
              \<lparr>nb_last_seen_ms := now_ms, nb_last_rssi := rssi, nb_last_snr_quarters := snr_quarters,
               nb_packet_count := sat_add (nb_packet_count neighbour) 1\<rparr>]\<rparr>
      | None \<Rightarrow>
          if nt_capacity t = 0 then t
          else let neighbour = \<lparr>nb_public_key = public_key, nb_last_seen_ms = now_ms,
                   nb_last_rssi = rssi, nb_last_snr_quarters = snr_quarters, nb_packet_count = 1\<rparr>
            in if length (nt_entries t) < nt_capacity t
               then t\<lparr>nt_entries := nt_entries t @ [neighbour]\<rparr>
               else t\<lparr>nt_entries := (nt_entries t)[oldest_index t := neighbour]\<rparr>)"

definition observe_packet ::
  "crypto \<Rightarrow> neighbour_table \<Rightarrow> packet \<Rightarrow> i16 \<Rightarrow> i16 \<Rightarrow> u64 \<Rightarrow> bytes \<Rightarrow> neighbour_table"
where
  "observe_packet C t packet rssi snr_quarters now_ms local_node_hash =
     (case immediate_neighbour C packet of
        None \<Rightarrow> t
      | Some public_key \<Rightarrow>
          if public_key_matches_hash public_key local_node_hash then t
          else observe_public_key t public_key rssi snr_quarters now_ms local_node_hash)"

section \<open>The listing\<close>

definition neighbour_precedes :: "neighbour \<Rightarrow> neighbour \<Rightarrow> u8 \<Rightarrow> bool" where
  "neighbour_precedes left right order_by =
     (if order_by = 1 then nb_last_seen_ms left < nb_last_seen_ms right
      else if order_by = 2 then sint (nb_last_snr_quarters right) < sint (nb_last_snr_quarters left)
      else if order_by = 3 then sint (nb_last_snr_quarters left) < sint (nb_last_snr_quarters right)
      else nb_last_seen_ms right < nb_last_seen_ms left)"

definition select_step :: "u8 \<Rightarrow> neighbour list \<Rightarrow> nat \<Rightarrow> nat \<Rightarrow> nat" where
  "select_step order_by ns j selected =
     (if neighbour_precedes (ns ! j) (ns ! selected) order_by then j else selected)"

definition swap_at :: "'a list \<Rightarrow> nat \<Rightarrow> nat \<Rightarrow> 'a list" where
  "swap_at xs i j = xs[i := xs ! j, j := xs ! i]"

definition sort_step :: "u8 \<Rightarrow> nat \<Rightarrow> neighbour list \<Rightarrow> neighbour list" where
  "sort_step order_by i ns =
     swap_at ns i (fold (select_step order_by ns) [i + 1..<length ns] i)"

definition sort_neighbours :: "neighbour list \<Rightarrow> u8 \<Rightarrow> neighbour list" where
  "sort_neighbours ns order_by = fold (sort_step order_by) [0..<length ns] ns"

definition neighbour_entry :: "nat \<Rightarrow> u64 \<Rightarrow> neighbour \<Rightarrow> bytes" where
  "neighbour_entry prefix_len now_ms n =
     take prefix_len (nb_public_key n)
     @ u32_to_le (word_of_nat (min (unat (sat_sub now_ms (nb_last_seen_ms n)) div 1000) (2 ^ 32 - 1)))
     @ [clamp_i16_i8 (nb_last_snr_quarters n)]"

fun write_results ::
  "nat \<Rightarrow> u64 \<Rightarrow> neighbour list \<Rightarrow> u16 \<Rightarrow> nat \<Rightarrow> bytes \<Rightarrow> u16 \<times> bytes"
where
  "write_results prefix_len now_ms [] results_count results_bytes out = (results_count, out)"
| "write_results prefix_len now_ms (n # ns) results_count results_bytes out =
     (let entry_len = prefix_len + 4 + 1 in
      if MAX_NEIGHBOUR_RESULTS_BYTES < results_bytes + entry_len then (results_count, out)
      else write_results prefix_len now_ms ns (sat_add results_count 1) (results_bytes + entry_len)
             (out @ neighbour_entry prefix_len now_ms n))"

text \<open>The answer appended to the output: total, number of results, results; the count is patched in
  after the loop. None when the request is not a listing request.\<close>

definition encode_binary_response :: "neighbour_table \<Rightarrow> bytes \<Rightarrow> u64 \<Rightarrow> bytes option" where
  "encode_binary_response t request now_ms =
     (if length request < 7 \<or> request ! 0 \<noteq> 0x06 \<or> request ! 1 \<noteq> 0 then None
      else let
        count = unat (request ! 2);
        offset = unat (u16_of_le [request ! 3, request ! 4]);
        order_by = request ! 5;
        prefix_len = min (unat (request ! 6)) PUB_KEY_SIZE;
        neighbours = sort_neighbours (nt_entries t) order_by;
        total = (word_of_nat (min (length neighbours) 65535) :: u16);
        (results_count, results) =
          write_results prefix_len now_ms (take count (drop offset neighbours)) 0 0 []
      in Some (u16_to_le total @ u16_to_le results_count @ results))"

text \<open>\<open>SnrDb\<close> of \<open>radio_metrics.rs\<close>: quarters of a decibel with two decimals.\<close>

definition snr_text :: "i16 \<Rightarrow> rstr" where
  "snr_text quarters =
     (let magnitude = nat \<bar>sint quarters\<bar>; cents = magnitude mod 4 * 25
      in (if sint quarters < 0 then lit ''-'' else []) @ show_nat (magnitude div 4) @ lit ''.''
         @ replicate (2 - length (show_nat cents)) 48 @ show_nat cents)"

definition neighbour_line :: "neighbour \<Rightarrow> rstr" where
  "neighbour_line n =
     lit ''Neighbour: hash='' @ hex_bytes (node_hash MAX_NEIGHBOUR_HASH_LEN (nb_public_key n))
     @ lit '' rssi='' @ (if sint (nb_last_rssi n) < 0 then lit ''-'' else [])
     @ show_nat (nat \<bar>sint (nb_last_rssi n)\<bar>) @ lit '' snr='' @ snr_text (nb_last_snr_quarters n)
     @ lit '' packets='' @ show_nat (unat (nb_packet_count n)) @ [10]"

definition write_summary :: "neighbour_table \<Rightarrow> rstr" where
  "write_summary t =
     lit ''Neighbours: count='' @ show_nat (length (nt_entries t)) @ [10]
     @ concat (map neighbour_line (nt_entries t))"

section \<open>The table\<close>

definition neighbours_inv :: "bytes \<Rightarrow> neighbour_table \<Rightarrow> bool" where
  "neighbours_inv local_hash t \<longleftrightarrow> length (nt_entries t) \<le> nt_capacity t
     \<and> distinct (map nb_public_key (nt_entries t))
     \<and> (\<forall>n \<in> set (nt_entries t). length (nb_public_key n) = 32
          \<and> \<not> public_key_matches_hash (nb_public_key n) local_hash)"

lemma neighbours_inv_new: "neighbours_inv h (neighbours_new capacity)"
  by (simp add: neighbours_inv_def neighbours_new_def)

lemma oldest_scan_less:
  "b < i \<or> i = 0 \<and> b = 0 \<and> ns \<noteq> [] \<Longrightarrow> oldest_scan ns i b seen < i + length ns"
proof (induction ns arbitrary: i b seen)
  case (Cons n ns)
  show ?case using Cons.IH [of i "Suc i"] Cons.IH [of b "Suc i"] Cons.prems by auto
qed simp

lemma oldest_index_less: "nt_entries t \<noteq> [] \<Longrightarrow> oldest_index t < length (nt_entries t)"
  using oldest_scan_less [of 0 0 "nt_entries t" "- 1"] by (simp add: oldest_index_def)

text \<open>The scan ends at an entry heard no later than any other.\<close>

lemma oldest_scan_minimal:
  assumes "best < length pre" "nb_last_seen_ms (pre ! best) = seen"
    and "\<forall>n \<in> set pre. seen \<le> nb_last_seen_ms n"
  shows "\<forall>n \<in> set (pre @ ns).
    nb_last_seen_ms ((pre @ ns) ! oldest_scan ns (length pre) best seen) \<le> nb_last_seen_ms n"
  using assms
proof (induction ns arbitrary: pre best seen)
  case Nil
  then show ?case by simp
next
  case (Cons n ns)
  show ?case
  proof (cases "nb_last_seen_ms n < seen")
    case True
    have "\<forall>m \<in> set (pre @ [n]). nb_last_seen_ms n \<le> nb_last_seen_ms m"
      using Cons.prems True by auto
    with Cons.IH [of "length pre" "pre @ [n]" "nb_last_seen_ms n"] True show ?thesis by simp
  next
    case False
    with Cons.IH [of best "pre @ [n]" seen] Cons.prems show ?thesis by (simp add: nth_append)
  qed
qed

lemma oldest_index_minimal:
  assumes "n \<in> set (nt_entries t)"
  shows "nb_last_seen_ms (nt_entries t ! oldest_index t) \<le> nb_last_seen_ms n"
proof -
  obtain m ms where e: "nt_entries t = m # ms" using assms by (cases "nt_entries t") auto
  have "oldest_scan (m # ms) 0 0 (- 1) = oldest_scan ms 1 0 (nb_last_seen_ms m)"
    by (cases "nb_last_seen_ms m = - 1") (auto simp: word_order.not_eq_extremum)
  then show ?thesis
    using oldest_scan_minimal [of 0 "[m]" "nb_last_seen_ms m" ms] assms
    by (auto simp: oldest_index_def e)
qed

lemma find_neighbour_SomeD:
  "find_neighbour t k = Some i \<Longrightarrow> i < length (nt_entries t) \<and> nb_public_key (nt_entries t ! i) = k"
  by (auto simp: find_neighbour_def dest: position_SomeD)

lemma find_neighbour_NoneD: "find_neighbour t k = None \<Longrightarrow> k \<notin> nb_public_key ` set (nt_entries t)"
  by (force simp: find_neighbour_def)

lemma distinct_list_update_fresh:
  "distinct xs \<Longrightarrow> x \<notin> set xs \<Longrightarrow> distinct (xs[i := x])"
  by (cases "i < length xs") (auto simp: distinct_list_update)

lemma observe_public_key_inv:
  assumes inv: "neighbours_inv h t" and len: "length key = 32"
  shows "neighbours_inv h (observe_public_key t key rssi snr now h)"
proof (cases "public_key_matches_hash key h \<or> (find_neighbour t key = None \<and> nt_capacity t = 0)")
  case True
  with inv show ?thesis by (auto simp: observe_public_key_def)
next
  case False
  note ok = False
  show ?thesis
  proof (cases "find_neighbour t key")
    case (Some i)
    note D = find_neighbour_SomeD [OF Some]
    let ?n = "(nt_entries t ! i)\<lparr>nb_last_seen_ms := now, nb_last_rssi := rssi,
        nb_last_snr_quarters := snr, nb_packet_count := sat_add (nb_packet_count (nt_entries t ! i)) 1\<rparr>"
    have "map nb_public_key ((nt_entries t)[i := ?n]) = map nb_public_key (nt_entries t)"
      using D by (simp add: map_update list_update_same_conv)
    moreover have "\<forall>n \<in> set ((nt_entries t)[i := ?n]). length (nb_public_key n) = 32
        \<and> \<not> public_key_matches_hash (nb_public_key n) h"
      using inv D len ok set_update_subset_insert [of "nt_entries t" i ?n]
      by (auto simp: neighbours_inv_def)
    ultimately show ?thesis
      using inv ok Some by (simp add: observe_public_key_def neighbours_inv_def Let_def)
  next
    case None
    note fresh = find_neighbour_NoneD [OF None]
    let ?n = "\<lparr>nb_public_key = key, nb_last_seen_ms = now, nb_last_rssi = rssi,
        nb_last_snr_quarters = snr, nb_packet_count = 1\<rparr>"
    have "distinct (map nb_public_key ((nt_entries t)[oldest_index t := ?n]))"
      using inv fresh by (simp add: map_update neighbours_inv_def distinct_list_update_fresh)
    moreover have "\<forall>n \<in> set ((nt_entries t)[oldest_index t := ?n]). length (nb_public_key n) = 32
        \<and> \<not> public_key_matches_hash (nb_public_key n) h"
      using inv len ok set_update_subset_insert [of "nt_entries t" "oldest_index t" ?n]
      by (auto simp: neighbours_inv_def)
    ultimately show ?thesis
      using inv ok None fresh len
      by (auto simp: observe_public_key_def neighbours_inv_def Let_def)
  qed
qed

lemma immediate_neighbour_key_length:
  "packet_wf p \<Longrightarrow> immediate_neighbour C p = Some key \<Longrightarrow> length key = 32"
  by (auto simp: immediate_neighbour_def packet_wf_def advert_wf_def
      split: route_path.splits payload.splits option.splits if_splits)

lemma observe_packet_inv:
  "neighbours_inv h t \<Longrightarrow> packet_wf p \<Longrightarrow> neighbours_inv h (observe_packet C t p rssi snr now h)"
  by (auto simp: observe_packet_def immediate_neighbour_key_length intro: observe_public_key_inv
      split: option.split)

text \<open>What an observation leaves: the neighbour is there with the new reading, and every other entry
  is either kept or was the one unheard longest in a full table.\<close>

lemma observe_public_key_present:
  assumes "neighbours_inv h t" and "\<not> public_key_matches_hash key h" and "0 < nt_capacity t"
  shows "\<exists>n \<in> set (nt_entries (observe_public_key t key rssi snr now h)).
    nb_public_key n = key \<and> nb_last_seen_ms n = now \<and> nb_last_rssi n = rssi
    \<and> nb_last_snr_quarters n = snr"
proof (cases "find_neighbour t key")
  case (Some i)
  then show ?thesis
    using assms by (auto simp: observe_public_key_def Let_def set_update_memI dest!: find_neighbour_SomeD
        intro!: bexI [OF _ set_update_memI])
next
  case None
  have "nt_entries t \<noteq> []" if "\<not> length (nt_entries t) < nt_capacity t" using that assms(3) by auto
  then show ?thesis
    using None assms oldest_index_less [of t]
    by (auto simp: observe_public_key_def Let_def intro!: bexI [OF _ set_update_memI])
qed

lemma observe_public_key_keeps:
  assumes inv: "neighbours_inv h t" and n: "n \<in> set (nt_entries t)" "nb_public_key n \<noteq> key"
    and gone: "n \<notin> set (nt_entries (observe_public_key t key rssi snr now h))"
  shows "length (nt_entries t) = nt_capacity t \<and> n = nt_entries t ! oldest_index t"
proof -
  have upd: "x \<in> set (xs[i := y])" if "x \<in> set xs" "x \<noteq> xs ! i" for x :: neighbour and xs i y
    using that by (metis in_set_conv_nth length_list_update nth_list_update_neq)
  show ?thesis
  proof (cases "find_neighbour t key")
    case (Some i)
    then have "n \<noteq> nt_entries t ! i" using n(2) by (auto dest: find_neighbour_SomeD)
    with gone n Some upd show ?thesis
      by (auto simp: observe_public_key_def Let_def split: if_splits)
  next
    case None
    with gone n have "\<not> length (nt_entries t) < nt_capacity t" "n = nt_entries t ! oldest_index t"
      using upd [of n "nt_entries t" "oldest_index t"]
      by (auto simp: observe_public_key_def Let_def split: if_splits)
    with inv show ?thesis by (simp add: neighbours_inv_def)
  qed
qed

section \<open>The sort\<close>

text \<open>Each order is a key.\<close>

definition neighbour_key :: "u8 \<Rightarrow> neighbour \<Rightarrow> int" where
  "neighbour_key order_by n =
     (if order_by = 1 then uint (nb_last_seen_ms n)
      else if order_by = 2 then - sint (nb_last_snr_quarters n)
      else if order_by = 3 then sint (nb_last_snr_quarters n)
      else - uint (nb_last_seen_ms n))"

lemma neighbour_precedes_key:
  "neighbour_precedes a b order_by \<longleftrightarrow> neighbour_key order_by a < neighbour_key order_by b"
  by (simp add: neighbour_precedes_def neighbour_key_def word_less_def)

lemma select_fold:
  "i \<le> sel \<Longrightarrow> sel < j \<Longrightarrow> j \<le> m \<Longrightarrow> (\<forall>k. i \<le> k \<and> k < j \<longrightarrow> f (ns ! sel) \<le> (f (ns ! k) :: int)) \<Longrightarrow>
   (let r = fold (\<lambda>k s. if f (ns ! k) < f (ns ! s) then k else s) [j..<m] sel in
      i \<le> r \<and> r < m \<and> (\<forall>k. i \<le> k \<and> k < m \<longrightarrow> f (ns ! r) \<le> f (ns ! k)))"
proof (induction "m - j" arbitrary: j sel)
  case (Suc d)
  then have lt: "j < m" by simp
  let ?s = "if f (ns ! j) < f (ns ! sel) then j else sel"
  have "\<forall>k. i \<le> k \<and> k < Suc j \<longrightarrow> f (ns ! ?s) \<le> f (ns ! k)"
    using Suc.prems(4) by (fastforce simp: less_Suc_eq)
  moreover have "i \<le> ?s" "?s < Suc j" using Suc.prems by auto
  ultimately show ?case
    using Suc.hyps(1) [of "Suc j" ?s] Suc.hyps(2) lt by (simp add: upt_conv_Cons)
qed simp

lemma select_minimum:
  fixes ns :: "neighbour list" and order_by :: u8
  assumes "i < length ns"
  defines "r \<equiv> fold (select_step order_by ns) [i + 1..<length ns] i"
  shows "i \<le> r" and "r < length ns"
    and "\<forall>k. i \<le> k \<and> k < length ns \<longrightarrow>
      neighbour_key order_by (ns ! r) \<le> neighbour_key order_by (ns ! k)"
proof -
  have "select_step order_by ns =
      (\<lambda>k s. if neighbour_key order_by (ns ! k) < neighbour_key order_by (ns ! s) then k else s)"
    by (simp add: select_step_def neighbour_precedes_key fun_eq_iff)
  moreover have "\<forall>k. i \<le> k \<and> k < i + 1 \<longrightarrow> neighbour_key order_by (ns ! i) \<le> neighbour_key order_by (ns ! k)"
  proof (intro allI impI)
    fix k assume "i \<le> k \<and> k < i + 1"
    then have "k = i" by simp
    then show "neighbour_key order_by (ns ! i) \<le> neighbour_key order_by (ns ! k)" by simp
  qed
  ultimately show "i \<le> r" "r < length ns" "\<forall>k. i \<le> k \<and> k < length ns \<longrightarrow>
      neighbour_key order_by (ns ! r) \<le> neighbour_key order_by (ns ! k)"
    using select_fold [of i i "i + 1" "length ns" "neighbour_key order_by" ns] assms(1)
    by (simp_all add: r_def Let_def)
qed

lemma mset_swap_at: "i < length xs \<Longrightarrow> j < length xs \<Longrightarrow> mset (swap_at xs i j) = mset xs"
  unfolding swap_at_def by (rule mset_swap)

lemma length_swap_at [simp]: "length (swap_at xs i j) = length xs"
  by (simp add: swap_at_def)

lemma sort_prefix:
  fixes ns :: "neighbour list" and order_by :: u8
  assumes "m \<le> length ns"
  defines "out \<equiv> fold (sort_step order_by) [0..<m] ns"
  shows "mset out = mset ns \<and> length out = length ns
    \<and> (\<forall>a b. a < m \<and> a < b \<and> b < length ns \<longrightarrow>
         neighbour_key order_by (out ! a) \<le> neighbour_key order_by (out ! b))"
  using assms(1) unfolding out_def
proof (induction m)
  case (Suc m)
  define xs where "xs = fold (sort_step order_by) [0..<m] ns"
  define r where "r = fold (select_step order_by xs) [m + 1..<length xs] m"
  have IH: "mset xs = mset ns" "length xs = length ns"
    "\<And>a b. a < m \<Longrightarrow> a < b \<Longrightarrow> b < length ns \<Longrightarrow>
       neighbour_key order_by (xs ! a) \<le> neighbour_key order_by (xs ! b)"
    using Suc by (auto simp: xs_def)
  have m: "m < length xs" using Suc.prems IH(2) by simp
  note sel = select_minimum [OF m, of order_by, folded r_def]
  have step: "fold (sort_step order_by) [0..<Suc m] ns = swap_at xs m r"
    by (simp add: sort_step_def xs_def r_def)
  have ms: "mset (swap_at xs m r) = mset ns"
    using mset_swap_at [OF m sel(2)] IH(1) by simp
  have nth: "swap_at xs m r ! k = (if k = r then xs ! m else if k = m then xs ! r else xs ! k)"
    if "k < length ns" for k
    using that m sel(2) IH(2) by (simp add: swap_at_def nth_list_update)
  have ord: "neighbour_key order_by (swap_at xs m r ! a) \<le> neighbour_key order_by (swap_at xs m r ! b)"
    if "a < Suc m" "a < b" "b < length ns" for a b
  proof (cases "a = m")
    case True
    with that have "swap_at xs m r ! a = xs ! r" by (auto simp: nth)
    moreover have "\<exists>k \<ge> m. k < length xs \<and> swap_at xs m r ! b = xs ! k"
      using that True IH(2) m by (intro exI [of _ "if b = r then m else b"]) (auto simp: nth)
    ultimately show ?thesis using sel(3) by auto
  next
    case False
    with that sel IH(2,3) m show ?thesis by (auto simp: nth)
  qed
  show ?case unfolding step using ms ord IH(2) by simp
qed simp

lemma sort_neighbours_sorts:
  "mset (sort_neighbours ns order_by) = mset ns"
  "sorted (map (neighbour_key order_by) (sort_neighbours ns order_by))"
  using sort_prefix [of "length ns" ns order_by]
  by (auto simp: sort_neighbours_def sorted_iff_nth_mono_less)

section \<open>The response\<close>

lemma sat_add_word_of_nat: "k < 65535 \<Longrightarrow> sat_add (word_of_nat k) 1 = (word_of_nat (Suc k) :: u16)"
  by (simp add: sat_add_def unat_word_of_nat_id)

text \<open>The loop writes the longest prefix of the page that fits the byte budget.\<close>

lemma write_results_eq:
  assumes "k * (prefix_len + 5) \<le> 130"
  shows "write_results prefix_len now ns (word_of_nat k) (k * (prefix_len + 5)) out =
    (let j = min (length ns) (130 div (prefix_len + 5) - k)
     in (word_of_nat (k + j), out @ concat (map (neighbour_entry prefix_len now) (take j ns))))"
  using assms
proof (induction ns arbitrary: k out)
  case (Cons n ns)
  let ?e = "prefix_len + 5"
  have k: "k \<le> 130 div ?e" using Cons.prems by (simp add: less_eq_div_iff_mult_less_eq)
  have k26: "k \<le> 26"
  proof -
    have "k * 5 \<le> k * ?e" by simp
    with Cons.prems show ?thesis by linarith
  qed
  have room: "130 < k * ?e + ?e \<longleftrightarrow> k = 130 div ?e"
  proof -
    have "Suc k \<le> 130 div ?e \<longleftrightarrow> Suc k * ?e \<le> 130" by (simp add: less_eq_div_iff_mult_less_eq)
    then have "Suc k \<le> 130 div ?e \<longleftrightarrow> k * ?e + ?e \<le> 130" by (simp add: add_ac)
    with k show ?thesis by linarith
  qed
  show ?case
  proof (cases "k = 130 div ?e")
    case True
    then show ?thesis using room by (simp add: MAX_NEIGHBOUR_RESULTS_BYTES_def Let_def)
  next
    case False
    then have le: "Suc k * ?e \<le> 130" using room by simp
    have j: "min (length (n # ns)) (130 div ?e - k) = Suc (min (length ns) (130 div ?e - Suc k))"
      using False k by (auto simp: min_def)
    have "write_results prefix_len now (n # ns) (word_of_nat k) (k * ?e) out =
        write_results prefix_len now ns (word_of_nat (Suc k)) (Suc k * ?e)
          (out @ neighbour_entry prefix_len now n)"
      using False room k26
      by (simp add: MAX_NEIGHBOUR_RESULTS_BYTES_def Let_def sat_add_word_of_nat add_ac del: of_nat_Suc)
    also have "\<dots> = (let j = min (length (n # ns)) (130 div ?e - k)
       in (word_of_nat (k + j), out @ concat (map (neighbour_entry prefix_len now) (take j (n # ns)))))"
      unfolding Cons.IH [OF le] j by (simp add: Let_def)
    finally show ?thesis .
  qed
qed simp

lemma neighbour_entry_length:
  "length (nb_public_key n) = 32 \<Longrightarrow> prefix_len \<le> 32 \<Longrightarrow>
     length (neighbour_entry prefix_len now n) = prefix_len + 5"
  by (simp add: neighbour_entry_def)

text \<open>The whole answer: total, count, and the fitting prefix of the requested page of the sorted
  table.\<close>

lemma encode_binary_response_eq:
  fixes t :: neighbour_table and request :: bytes
  assumes "7 \<le> length request" and "request ! 0 = 0x06" and "request ! 1 = 0"
  defines "prefix_len \<equiv> min (unat (request ! 6)) 32"
    and "page \<equiv> take (unat (request ! 2)) (drop (unat (u16_of_le [request ! 3, request ! 4]))
                  (sort_neighbours (nt_entries t) (request ! 5)))"
  shows "encode_binary_response t request now =
    (let j = min (length page) (130 div (prefix_len + 5)) in
     Some (u16_to_le (word_of_nat (min (length (nt_entries t)) 65535)) @ u16_to_le (word_of_nat j)
           @ concat (map (neighbour_entry prefix_len now) (take j page))))"
proof -
  have len: "length (sort_neighbours (nt_entries t) (request ! 5)) = length (nt_entries t)"
    using sort_neighbours_sorts(1) by (rule mset_eq_length)
  show ?thesis
    using assms(1-3) write_results_eq [of 0 prefix_len now page "[]"]
    unfolding prefix_len_def page_def
    by (simp add: encode_binary_response_def Let_def PUB_KEY_SIZE_def len)
qed

lemma encode_binary_response_length:
  assumes inv: "neighbours_inv h t" and resp: "encode_binary_response t request now = Some out"
  shows "length out \<le> 134"
proof -
  have req: "7 \<le> length request" "request ! 0 = 0x06" "request ! 1 = 0"
    using resp by (auto simp: encode_binary_response_def split: if_splits)
  define prefix_len where "prefix_len = min (unat (request ! 6)) 32"
  define page where "page = take (unat (request ! 2)) (drop (unat (u16_of_le [request ! 3, request ! 4]))
                  (sort_neighbours (nt_entries t) (request ! 5)))"
  define shown where "shown = take (min (length page) (130 div (prefix_len + 5))) page"
  obtain x y where out: "out = u16_to_le x @ u16_to_le y @ concat (map (neighbour_entry prefix_len now) shown)"
    using resp encode_binary_response_eq [OF req, of t now, folded prefix_len_def page_def]
    unfolding Let_def shown_def by (metis option.inject)
  have "set page \<subseteq> set_mset (mset (sort_neighbours (nt_entries t) (request ! 5)))"
    unfolding page_def by (auto dest: in_set_takeD in_set_dropD)
  then have "set page \<subseteq> set (nt_entries t)" by (simp only: sort_neighbours_sorts(1) set_mset_mset)
  with set_take_subset have "set shown \<subseteq> set (nt_entries t)" unfolding shown_def by (rule subset_trans)
  then have "\<forall>n \<in> set shown. length (nb_public_key n) = 32"
    using inv unfolding neighbours_inv_def by blast
  moreover have "prefix_len \<le> 32" by (simp add: prefix_len_def)
  ultimately have "\<forall>c \<in> set (map (neighbour_entry prefix_len now) shown). length c = prefix_len + 5"
    by (simp add: neighbour_entry_length)
  note c = length_concat_const [OF this]
  have "(prefix_len + 5) * length shown \<le> (prefix_len + 5) * (130 div (prefix_len + 5))"
    by (rule mult_le_mono2) (simp add: shown_def)
  also have "\<dots> \<le> 130" by (rule times_div_less_eq_dividend)
  finally show ?thesis unfolding out length_append c by simp
qed

section \<open>Properties\<close>

text \<open>C27: Observing a packet or a key keeps the neighbour table within its capacity, without duplicates
  and without the node itself, and an observed key is in the table with the values observed.\<close>

theorem observe_neighbour_correct:
  assumes "neighbours_inv h t" and "length key = 32" and "0 < nt_capacity t"
    and "\<not> public_key_matches_hash key h"
  shows "neighbours_inv h (observe_public_key t key rssi snr now h)
    \<and> (\<exists>n \<in> set (nt_entries (observe_public_key t key rssi snr now h)).
         nb_public_key n = key \<and> nb_last_seen_ms n = now \<and> nb_last_rssi n = rssi
         \<and> nb_last_snr_quarters n = snr)
    \<and> (\<forall>p. packet_wf p \<longrightarrow> neighbours_inv h (observe_packet C t p rssi snr now h))"
  using assms observe_public_key_inv observe_public_key_present observe_packet_inv by simp

theorem observe_neighbour_correct_witness:
  "neighbours_inv [9] (observe_public_key (neighbours_new 2) (replicate 32 1) 5 6 7 [9])"
proof -
  have "\<not> public_key_matches_hash (replicate 32 1) [9]" by code_simp
  then show ?thesis
    using observe_neighbour_correct [OF neighbours_inv_new [of "[9]" 2], of "replicate 32 1" 5 6 7]
    by (simp add: neighbours_new_def)
qed

text \<open>C28: A neighbour other than the observed one leaves the table only when the table is full and none
  has been unseen for longer.\<close>

theorem evicted_neighbour_is_oldest:
  assumes "neighbours_inv h t" and "n \<in> set (nt_entries t)" and "nb_public_key n \<noteq> key"
    and "n \<notin> set (nt_entries (observe_public_key t key rssi snr now h))"
  shows "length (nt_entries t) = nt_capacity t
    \<and> (\<forall>m \<in> set (nt_entries t). nb_last_seen_ms n \<le> nb_last_seen_ms m)"
  using observe_public_key_keeps [OF assms] oldest_index_minimal by blast

theorem evicted_neighbour_is_oldest_witness:
  "length [\<lparr>nb_public_key = replicate 32 1, nb_last_seen_ms = 3, nb_last_rssi = 0,
      nb_last_snr_quarters = 0, nb_packet_count = 1\<rparr>] = (1 :: nat) \<and> (3 :: u64) \<le> 3"
proof -
  let ?n = "\<lparr>nb_public_key = replicate 32 1, nb_last_seen_ms = 3, nb_last_rssi = 0,
      nb_last_snr_quarters = 0, nb_packet_count = 1\<rparr>"
  let ?t = "\<lparr>nt_entries = [?n], nt_capacity = 1\<rparr>"
  have k: "public_key_matches_hash (replicate 32 1) [9] = False"
    "public_key_matches_hash (replicate 32 2) [9] = False" by code_simp+
  have ne: "replicate 32 (1 :: u8) \<noteq> replicate 32 2" by simp
  have gone: "?n \<notin> set (nt_entries (observe_public_key ?t (replicate 32 2) 0 0 8 [9]))"
    using k(2) ne by (simp add: observe_public_key_def find_neighbour_def oldest_index_def Let_def)
  have inv: "neighbours_inv [9] ?t" using k(1) by (simp add: neighbours_inv_def)
  show ?thesis using evicted_neighbour_is_oldest [OF inv _ _ gone] ne by simp
qed

text \<open>C29: The answer to a neighbour request: the number of neighbours, then as many entries of the
  requested page of the sorted table as fit 130 bytes; the table is sorted by the requested key without
  losing or inventing an entry, and the answer never exceeds 134 bytes.\<close>

theorem neighbour_response_correct:
  fixes t :: neighbour_table and request :: bytes
  assumes inv: "neighbours_inv h t"
    and req: "7 \<le> length request" "request ! 0 = 0x06" "request ! 1 = 0"
  defines "prefix_len \<equiv> min (unat (request ! 6)) 32"
    and "table \<equiv> sort_neighbours (nt_entries t) (request ! 5)"
  shows "\<exists>out page. encode_binary_response t request now = Some out \<and> length out \<le> 134
    \<and> page = take (unat (request ! 2)) (drop (unat (u16_of_le [request ! 3, request ! 4])) table)
    \<and> mset table = mset (nt_entries t) \<and> sorted (map (neighbour_key (request ! 5)) table)
    \<and> (let j = min (length page) (130 div (prefix_len + 5)) in
         out = u16_to_le (word_of_nat (min (length (nt_entries t)) 65535)) @ u16_to_le (word_of_nat j)
               @ concat (map (neighbour_entry prefix_len now) (take j page)))"
  using encode_binary_response_eq [OF req, of t now] encode_binary_response_length [OF inv, of request now]
  by (simp add: table_def prefix_len_def sort_neighbours_sorts Let_def)

theorem neighbour_response_correct_witness:
  "\<exists>out. encode_binary_response (neighbours_new 4) [0x06, 0, 10, 0, 0, 0, 6] 1000 = Some out \<and> length out \<le> 134"
  using neighbour_response_correct [OF neighbours_inv_new [of "[]" 4], of "[0x06, 0, 10, 0, 0, 0, 6]" 1000]
  by (auto simp: Let_def)

end
