(* ===== verification/Remote_Logins.thy ===== *)
theory Remote_Logins
  imports Acl Plaintexts
begin

text \<open>
  The sessions of remote clients (\<open>app/remote.rs\<close>): four administrator and four guest slots, a
  session expiring ten minutes after it was last used, and the replay guard on its timestamps.
\<close>

definition MAX_REMOTE_LOGINS :: nat where "MAX_REMOTE_LOGINS = 4"
definition MAX_REMOTE_SESSIONS :: nat where "MAX_REMOTE_SESSIONS = MAX_REMOTE_LOGINS * 2"
definition REMOTE_LOGIN_TTL_MS :: u64 where "REMOTE_LOGIN_TTL_MS = 10 * 60 * 1000"

datatype remote_privilege = Guest | Admin

record remote_login =
  rl_public_key :: bytes
  rl_shared_secret :: bytes
  rl_last_seen_ms :: u64
  rl_last_timestamp :: u32
  rl_reply_path :: path

record remote_session =
  rs_public_key :: bytes
  rs_shared_secret :: bytes
  rs_privilege :: remote_privilege
  rs_reply_path :: path

type_synonym login_entries = "remote_login option list"

record remote_login_table =
  admin_entries :: login_entries
  guest_entries :: login_entries

definition logins_new :: remote_login_table where
  "logins_new = \<lparr>admin_entries = replicate MAX_REMOTE_LOGINS None,
                 guest_entries = replicate MAX_REMOTE_LOGINS None\<rparr>"

section \<open>Slots\<close>

definition login_expired :: "u64 \<Rightarrow> remote_login \<Rightarrow> bool" where
  "login_expired now_ms l \<longleftrightarrow> REMOTE_LOGIN_TTL_MS < sat_sub now_ms (rl_last_seen_ms l)"

definition prune_logins :: "u64 \<Rightarrow> login_entries \<Rightarrow> login_entries" where
  "prune_logins now_ms es =
     map (\<lambda>e. case e of Some l \<Rightarrow> if login_expired now_ms l then None else Some l | None \<Rightarrow> None) es"

definition has_key :: "bytes \<Rightarrow> remote_login option \<Rightarrow> bool" where
  "has_key key e = (case e of None \<Rightarrow> False | Some l \<Rightarrow> rl_public_key l = key)"

definition find_login :: "login_entries \<Rightarrow> bytes \<Rightarrow> nat option" where
  "find_login es key = position (has_key key) es"

definition remove_login :: "login_entries \<Rightarrow> bytes \<Rightarrow> login_entries" where
  "remove_login es key = (case find_login es key of Some i \<Rightarrow> es[i := None] | None \<Rightarrow> es)"

definition first_empty_index :: "login_entries \<Rightarrow> nat option" where
  "first_empty_index es = position (\<lambda>e. e = None) es"

fun oldest_login_scan :: "login_entries \<Rightarrow> nat \<Rightarrow> nat \<Rightarrow> u64 \<Rightarrow> nat" where
  "oldest_login_scan [] index best seen = best"
| "oldest_login_scan (None # es) index best seen = index"
| "oldest_login_scan (Some l # es) index best seen =
     (if rl_last_seen_ms l < seen
      then oldest_login_scan es (Suc index) index (rl_last_seen_ms l)
      else oldest_login_scan es (Suc index) best seen)"

definition oldest_login_index :: "login_entries \<Rightarrow> nat" where
  "oldest_login_index es = oldest_login_scan es 0 0 (- 1)"

section \<open>The table\<close>

definition logins_prune :: "remote_login_table \<Rightarrow> u64 \<Rightarrow> remote_login_table" where
  "logins_prune t now_ms =
     \<lparr>admin_entries = prune_logins now_ms (admin_entries t),
      guest_entries = prune_logins now_ms (guest_entries t)\<rparr>"

definition entries_of :: "remote_login_table \<Rightarrow> remote_privilege \<Rightarrow> login_entries" where
  "entries_of t privilege = (case privilege of Admin \<Rightarrow> admin_entries t | Guest \<Rightarrow> guest_entries t)"

definition put_entries ::
  "remote_login_table \<Rightarrow> remote_privilege \<Rightarrow> login_entries \<Rightarrow> remote_login_table"
where
  "put_entries t privilege es =
     (case privilege of Admin \<Rightarrow> t\<lparr>admin_entries := es\<rparr> | Guest \<Rightarrow> t\<lparr>guest_entries := es\<rparr>)"

definition logins_remove :: "remote_login_table \<Rightarrow> bytes \<Rightarrow> remote_login_table" where
  "logins_remove t key =
     \<lparr>admin_entries = remove_login (admin_entries t) key,
      guest_entries = remove_login (guest_entries t) key\<rparr>"

definition authenticate ::
  "remote_login_table \<Rightarrow> bytes \<Rightarrow> bytes \<Rightarrow> remote_privilege \<Rightarrow> u32 \<Rightarrow> u64 \<Rightarrow> path \<Rightarrow>
   remote_login_table"
where
  "authenticate t key shared_secret privilege last_timestamp now_ms reply_path =
     (let t = logins_prune t now_ms;
          t = logins_remove t key;
          entries = entries_of t privilege;
          index = (case first_empty_index entries of Some i \<Rightarrow> i | None \<Rightarrow> oldest_login_index entries)
      in put_entries t privilege (entries[index := Some
           \<lparr>rl_public_key = key, rl_shared_secret = shared_secret, rl_last_seen_ms = now_ms,
            rl_last_timestamp = last_timestamp, rl_reply_path = reply_path\<rparr>]))"

definition touch_login :: "u64 \<Rightarrow> remote_login option \<Rightarrow> remote_login option" where
  "touch_login now_ms e = map_option (\<lambda>l. l\<lparr>rl_last_seen_ms := now_ms\<rparr>) e"

definition privilege_for ::
  "remote_login_table \<Rightarrow> bytes \<Rightarrow> u64 \<Rightarrow> remote_privilege option \<times> remote_login_table"
where
  "privilege_for t key now_ms =
     (let t = logins_prune t now_ms in
      case find_login (admin_entries t) key of
        Some i \<Rightarrow> (Some Admin, t\<lparr>admin_entries := (admin_entries t)[i := touch_login now_ms (admin_entries t ! i)]\<rparr>)
      | None \<Rightarrow>
          (case find_login (guest_entries t) key of
             Some i \<Rightarrow> (Some Guest, t\<lparr>guest_entries := (guest_entries t)[i := touch_login now_ms (guest_entries t ! i)]\<rparr>)
           | None \<Rightarrow> (None, t)))"

definition login_session :: "remote_privilege \<Rightarrow> remote_login \<Rightarrow> remote_session" where
  "login_session privilege l =
     \<lparr>rs_public_key = rl_public_key l, rs_shared_secret = rl_shared_secret l,
      rs_privilege = privilege, rs_reply_path = rl_reply_path l\<rparr>"

fun append_matching ::
  "u8 \<Rightarrow> remote_privilege \<Rightarrow> login_entries \<Rightarrow> remote_session option list \<times> nat \<Rightarrow>
   (unit, remote_session option list \<times> nat) res"
where
  "append_matching source_hash privilege [] (out, index) = Ok (out, index)"
| "append_matching source_hash privilege (None # es) (out, index) =
     append_matching source_hash privilege es (out, index)"
| "append_matching source_hash privilege (Some l # es) (out, index) =
     (if rl_public_key l ! 0 = source_hash
      then if index < length out
           then append_matching source_hash privilege es
                  (out[index := Some (login_session privilege l)], index + 1)
           else Panicked
      else append_matching source_hash privilege es (out, index))"

definition sessions_matching ::
  "remote_login_table \<Rightarrow> u8 \<Rightarrow> u64 \<Rightarrow> (unit, remote_session option list) res \<times> remote_login_table"
where
  "sessions_matching t source_hash now_ms =
     (let t = logins_prune t now_ms in
      (and_then (append_matching source_hash Admin (admin_entries t)
                   (replicate MAX_REMOTE_SESSIONS None, 0)) (\<lambda>st.
       and_then (append_matching source_hash Guest (guest_entries t) st) (\<lambda>(out, _). Ok out)), t))"

definition accept_newer_timestamp ::
  "remote_login_table \<Rightarrow> bytes \<Rightarrow> remote_privilege \<Rightarrow> u32 \<Rightarrow> u64 \<Rightarrow> bool \<times> remote_login_table"
where
  "accept_newer_timestamp t key privilege timestamp now_ms =
     (let t = logins_prune t now_ms; es = entries_of t privilege in
      case find_login es key of
        None \<Rightarrow> (False, t)
      | Some i \<Rightarrow>
          (case es ! i of
             None \<Rightarrow> (False, t)
           | Some l \<Rightarrow>
               if timestamp \<le> rl_last_timestamp l then (False, t)
               else (True, put_entries t privilege
                       (es[i := Some (l\<lparr>rl_last_timestamp := timestamp, rl_last_seen_ms := now_ms\<rparr>)]))))"

definition login_privilege :: "rstr \<Rightarrow> rstr \<Rightarrow> role option \<Rightarrow> remote_privilege option" where
  "login_privilege body password acl =
     (if acl = Some RoleDeny then None
      else if acl = Some RoleAdmin
        \<and> (body = [] \<or> body = lit ''login'' \<or> starts_with body (lit ''login '') \<or> body = password)
        then Some Admin
      else if body = [] \<or> body = lit ''login'' then Some Guest
      else if body = password then Some Admin
      else case strip_prefix body (lit ''login '') of
        None \<Rightarrow> None
      | Some rest \<Rightarrow>
          let candidate = trim rest in
          if candidate = [] then Some Guest
          else if candidate = password then Some Admin
          else None)"

section \<open>One session per key\<close>

fun flatten :: "'a option list \<Rightarrow> 'a list" where
  "flatten [] = []"
| "flatten (None # es) = flatten es"
| "flatten (Some x # es) = x # flatten es"

lemma flatten_append [simp]: "flatten (es @ fs) = flatten es @ flatten fs"
  by (induction es rule: flatten.induct) simp_all

definition entry_keys :: "login_entries \<Rightarrow> bytes list" where
  "entry_keys es = map rl_public_key (flatten es)"

definition logins_inv :: "remote_login_table \<Rightarrow> bool" where
  "logins_inv t \<longleftrightarrow> length (admin_entries t) = 4 \<and> length (guest_entries t) = 4
     \<and> distinct (entry_keys (admin_entries t) @ entry_keys (guest_entries t))"

lemma entry_keys_simps [simp]:
  "entry_keys [] = []" "entry_keys (None # es) = entry_keys es"
  "entry_keys (Some l # es) = rl_public_key l # entry_keys es"
  "entry_keys (es @ fs) = entry_keys es @ entry_keys fs"
  by (simp_all add: entry_keys_def)

lemma logins_inv_new: "logins_inv logins_new"
  by (simp add: logins_inv_def logins_new_def MAX_REMOTE_LOGINS_def numeral_eq_Suc)

lemma length_prune_logins [simp]: "length (prune_logins now es) = length es"
  by (simp add: prune_logins_def)

lemma prune_logins_simps [simp]:
  "prune_logins now [] = []" "prune_logins now (None # es) = None # prune_logins now es"
  "prune_logins now (Some l # es) = (if login_expired now l then None else Some l) # prune_logins now es"
  by (simp_all add: prune_logins_def)

lemma prune_keys_subset: "set (entry_keys (prune_logins now es)) \<subseteq> set (entry_keys es)"
proof (induction es)
  case (Cons e es)
  then show ?case by (cases e) auto
qed simp

lemma prune_keys_distinct: "distinct (entry_keys es) \<Longrightarrow> distinct (entry_keys (prune_logins now es))"
proof (induction es)
  case (Cons e es)
  then show ?case using prune_keys_subset [of now es] by (cases e) auto
qed simp

lemma find_login_None_iff: "find_login es key = None \<longleftrightarrow> key \<notin> set (entry_keys es)"
proof (induction es)
  case (Cons e es)
  then show ?case by (cases e) (auto simp: find_login_def has_key_def)
qed (simp add: find_login_def)

lemma find_login_SomeD:
  "find_login es key = Some i \<Longrightarrow> i < length es \<and> (\<exists>l. es ! i = Some l \<and> rl_public_key l = key)"
  by (auto simp: find_login_def has_key_def dest!: position_SomeD split: option.splits)

lemma entry_keys_decompose:
  assumes "i < length es"
  shows "entry_keys (es[i := e]) = entry_keys (take i es) @ entry_keys [e] @ entry_keys (drop (Suc i) es)"
    and "entry_keys es = entry_keys (take i es) @ entry_keys [es ! i] @ entry_keys (drop (Suc i) es)"
proof -
  have "es[i := e] = take i es @ [e] @ drop (Suc i) es" using assms by (simp add: upd_conv_take_nth_drop)
  then show "entry_keys (es[i := e]) = entry_keys (take i es) @ entry_keys [e] @ entry_keys (drop (Suc i) es)"
    by (metis entry_keys_simps(4))
  have "es = take i es @ [es ! i] @ drop (Suc i) es" using assms by (simp add: id_take_nth_drop)
  then show "entry_keys es = entry_keys (take i es) @ entry_keys [es ! i] @ entry_keys (drop (Suc i) es)"
    by (metis entry_keys_simps(4))
qed

lemma remove_login_keys:
  assumes "distinct (entry_keys es)"
  shows "set (entry_keys (remove_login es key)) = set (entry_keys es) - {key}"
    and "distinct (entry_keys (remove_login es key))"
    and "length (remove_login es key) = length es"
proof -
  have "set (entry_keys (remove_login es key)) = set (entry_keys es) - {key}
    \<and> distinct (entry_keys (remove_login es key))"
  proof (cases "find_login es key")
    case None
    moreover have "key \<notin> set (entry_keys es)" using None by (simp add: find_login_None_iff)
    ultimately show ?thesis using assms by (simp add: remove_login_def)
  next
    case (Some i)
    then obtain l where i: "i < length es" "es ! i = Some l" "rl_public_key l = key"
      using find_login_SomeD by blast
    show ?thesis
      using assms entry_keys_decompose(1) [OF i(1), of None] entry_keys_decompose(2) [OF i(1)] i Some
      by (auto simp: remove_login_def)
  qed
  then show "set (entry_keys (remove_login es key)) = set (entry_keys es) - {key}"
    "distinct (entry_keys (remove_login es key))" by blast+
  show "length (remove_login es key) = length es" by (simp add: remove_login_def split: option.split)
qed

lemma insert_login_keys:
  assumes "i < length es" and "distinct (entry_keys es)" and "rl_public_key l \<notin> set (entry_keys es)"
  shows "distinct (entry_keys (es[i := Some l]))"
    and "set (entry_keys (es[i := Some l])) \<subseteq> insert (rl_public_key l) (set (entry_keys es))"
    and "rl_public_key l \<in> set (entry_keys (es[i := Some l]))"
  using assms entry_keys_decompose(1) [OF assms(1), of "Some l"] entry_keys_decompose(2) [OF assms(1)]
  by auto

lemma replace_login_keys:
  assumes "i < length es" and "es ! i = Some l" and "rl_public_key l' = rl_public_key l"
  shows "entry_keys (es[i := Some l']) = entry_keys es"
  using assms entry_keys_decompose(1) [OF assms(1), of "Some l'"] entry_keys_decompose(2) [OF assms(1)]
  by simp

lemma logins_prune_inv: "logins_inv t \<Longrightarrow> logins_inv (logins_prune t now)"
  using prune_keys_subset [of now "admin_entries t"] prune_keys_subset [of now "guest_entries t"]
  by (auto simp: logins_inv_def logins_prune_def prune_keys_distinct)

lemma logins_remove_inv:
  assumes "logins_inv t"
  shows "logins_inv (logins_remove t key)"
    and "key \<notin> set (entry_keys (admin_entries (logins_remove t key)))
      \<and> key \<notin> set (entry_keys (guest_entries (logins_remove t key)))"
proof -
  have d: "distinct (entry_keys (admin_entries t))" "distinct (entry_keys (guest_entries t))"
    and dis: "set (entry_keys (admin_entries t)) \<inter> set (entry_keys (guest_entries t)) = {}"
    using assms by (simp_all add: logins_inv_def)
  note a = remove_login_keys [OF d(1), of key] and g = remove_login_keys [OF d(2), of key]
  show "logins_inv (logins_remove t key)"
    using assms a g dis by (simp add: logins_inv_def logins_remove_def) blast
  show "key \<notin> set (entry_keys (admin_entries (logins_remove t key)))
      \<and> key \<notin> set (entry_keys (guest_entries (logins_remove t key)))"
    using a g by (simp add: logins_remove_def)
qed

lemma oldest_login_less:
  "best < index \<or> index = 0 \<and> best = 0 \<and> es \<noteq> [] \<Longrightarrow> oldest_login_scan es index best seen < index + length es"
proof (induction es arbitrary: index best seen)
  case (Cons e es)
  show ?case
    using Cons.IH [of index "Suc index"] Cons.IH [of best "Suc index"] Cons.prems by (cases e) auto
qed simp

lemma slot_index_less:
  assumes "length es = 4"
  shows "(case first_empty_index es of Some i \<Rightarrow> i | None \<Rightarrow> oldest_login_index es) < length es"
  using assms oldest_login_less [of 0 0 es "- 1"] length_0_conv [of es]
  by (auto simp: first_empty_index_def oldest_login_index_def split: option.split dest: position_SomeD)

lemma authenticate_inv:
  assumes "logins_inv t"
  shows "logins_inv (authenticate t key secret privilege ts now path)"
proof -
  let ?t = "logins_remove (logins_prune t now) key"
  have inv: "logins_inv ?t"
    and fresh: "key \<notin> set (entry_keys (admin_entries ?t))" "key \<notin> set (entry_keys (guest_entries ?t))"
    using logins_remove_inv [OF logins_prune_inv [OF assms]] by auto
  let ?l = "\<lparr>rl_public_key = key, rl_shared_secret = secret, rl_last_seen_ms = now,
            rl_last_timestamp = ts, rl_reply_path = path\<rparr>"
  show ?thesis
  proof (cases privilege)
    case Admin
    let ?i = "case first_empty_index (admin_entries ?t) of Some i \<Rightarrow> i | None \<Rightarrow> oldest_login_index (admin_entries ?t)"
    have i: "?i < length (admin_entries ?t)" using inv by (intro slot_index_less) (simp add: logins_inv_def)
    show ?thesis
      using inv fresh Admin insert_login_keys [OF i, of ?l]
      by (auto simp: authenticate_def Let_def entries_of_def put_entries_def logins_inv_def)
  next
    case Guest
    let ?i = "case first_empty_index (guest_entries ?t) of Some i \<Rightarrow> i | None \<Rightarrow> oldest_login_index (guest_entries ?t)"
    have i: "?i < length (guest_entries ?t)" using inv by (intro slot_index_less) (simp add: logins_inv_def)
    show ?thesis
      using inv fresh Guest insert_login_keys [OF i, of ?l]
      by (auto simp: authenticate_def Let_def entries_of_def put_entries_def logins_inv_def)
  qed
qed

lemma privilege_for_inv:
  assumes "logins_inv t"
  shows "logins_inv (snd (privilege_for t key now))"
proof -
  have inv: "logins_inv (logins_prune t now)" using assms by (rule logins_prune_inv)
  have touch: "entry_keys (es[i := touch_login now (es ! i)]) = entry_keys es"
    if f: "find_login es key = Some i" for es i
  proof -
    obtain l where "i < length es" "es ! i = Some l" using find_login_SomeD [OF f] by blast
    then show ?thesis
      using replace_login_keys [of i es l "l\<lparr>rl_last_seen_ms := now\<rparr>"] by (simp add: touch_login_def)
  qed
  show ?thesis
    using inv by (auto simp: privilege_for_def Let_def logins_inv_def touch split: option.split)
qed

lemma accept_newer_timestamp_inv:
  assumes "logins_inv t"
  shows "logins_inv (snd (accept_newer_timestamp t key privilege ts now))"
proof -
  have inv: "logins_inv (logins_prune t now)" using assms by (rule logins_prune_inv)
  have upd: "entry_keys (es[i := Some (l\<lparr>rl_last_timestamp := ts, rl_last_seen_ms := now\<rparr>)]) = entry_keys es"
    if "i < length es" "es ! i = Some l" for es i l
    using that by (intro replace_login_keys) simp_all
  show ?thesis
    using inv
    by (cases privilege)
      (auto simp: accept_newer_timestamp_def Let_def logins_inv_def entries_of_def put_entries_def
        upd dest!: find_login_SomeD split: option.split)
qed

section \<open>What a session is\<close>

text \<open>The session of a key in a table: its privilege and its slot's contents.\<close>

definition session_of :: "remote_login_table \<Rightarrow> bytes \<Rightarrow> (remote_privilege \<times> remote_login) option" where
  "session_of t key =
     (case find (has_key key) (admin_entries t) of
        Some (Some l) \<Rightarrow> Some (Admin, l)
      | _ \<Rightarrow> (case find (has_key key) (guest_entries t) of
                Some (Some l) \<Rightarrow> Some (Guest, l) | _ \<Rightarrow> None))"

lemma find_position:
  "find P xs = (case position P xs of None \<Rightarrow> None | Some i \<Rightarrow> Some (xs ! i))"
  by (induction xs) (auto simp del: position_None_iff split: option.splits)

lemma privilege_for_session:
  "fst (privilege_for t key now) = map_option fst (session_of (logins_prune t now) key)"
  by (auto simp: privilege_for_def Let_def session_of_def find_position find_login_def has_key_def
      split: option.splits dest!: position_SomeD)

text \<open>Under the invariant a session is characterised by membership of its slot.\<close>

lemma entry_keys_mem: "Some l \<in> set es \<Longrightarrow> rl_public_key l \<in> set (entry_keys es)"
proof (induction es)
  case (Cons e es)
  then show ?case by (cases e) auto
qed simp

lemma entry_keys_memD: "key \<in> set (entry_keys es) \<Longrightarrow> \<exists>l. Some l \<in> set es \<and> rl_public_key l = key"
proof (induction es)
  case (Cons e es)
  then show ?case by (cases e) auto
qed simp

lemma entry_keys_unique:
  "distinct (entry_keys es) \<Longrightarrow> Some l \<in> set es \<Longrightarrow> Some l' \<in> set es \<Longrightarrow>
     rl_public_key l = rl_public_key l' \<Longrightarrow> l = l'"
proof (induction es)
  case (Cons e es)
  show ?case
  proof (cases e)
    case None
    then show ?thesis using Cons by simp
  next
    case (Some k)
    have k: "rl_public_key k \<notin> set (entry_keys es)" and d: "distinct (entry_keys es)"
      using Cons.prems(1) Some by simp_all
    have ne: "rl_public_key m \<noteq> rl_public_key k" if "Some m \<in> set es" for m
      using k entry_keys_mem [OF that] by metis
    show ?thesis
    proof (cases "Some l \<in> set es \<and> Some l' \<in> set es")
      case True
      then show ?thesis using Cons.IH [OF d] Cons.prems(4) by blast
    next
      case False
      then have "l = k \<or> l' = k" using Cons.prems(2,3) Some by auto
      then show ?thesis using ne Cons.prems(2-4) Some by (metis option.inject set_ConsD)
    qed
  qed
qed simp

lemma find_has_keyD:
  "find (has_key key) es = Some e \<Longrightarrow> \<exists>l. e = Some l \<and> Some l \<in> set es \<and> rl_public_key l = key"
proof (induction es)
  case (Cons e' es)
  then show ?case by (cases e') (auto simp: has_key_def split: if_splits)
qed simp

lemma find_has_key_None: "find (has_key key) es = None \<longleftrightarrow> key \<notin> set (entry_keys es)"
proof (induction es)
  case (Cons e es)
  then show ?case by (cases e) (auto simp: has_key_def)
qed simp

lemma session_of_iff:
  assumes "logins_inv t"
  shows "session_of t key = Some (p, l) \<longleftrightarrow> Some l \<in> set (entries_of t p) \<and> rl_public_key l = key"
proof -
  have d: "distinct (entry_keys (admin_entries t))" "distinct (entry_keys (guest_entries t))"
    and dis: "set (entry_keys (admin_entries t)) \<inter> set (entry_keys (guest_entries t)) = {}"
    using assms by (auto simp: logins_inv_def)
  show ?thesis
  proof (cases "find (has_key key) (admin_entries t)")
    case None
    then have na: "key \<notin> set (entry_keys (admin_entries t))" by (simp add: find_has_key_None)
    show ?thesis
    proof (cases "find (has_key key) (guest_entries t)")
      case None
      then have "key \<notin> set (entry_keys (guest_entries t))" by (simp add: find_has_key_None)
      with na None \<open>find (has_key key) (admin_entries t) = None\<close> show ?thesis
        using entry_keys_mem [of l "admin_entries t"] entry_keys_mem [of l "guest_entries t"]
        by (cases p) (auto simp: session_of_def entries_of_def)
    next
      case (Some e)
      then obtain l' where l': "e = Some l'" "Some l' \<in> set (guest_entries t)" "rl_public_key l' = key"
        using find_has_keyD by blast
      with None Some na show ?thesis
        using entry_keys_mem [of l "admin_entries t"] entry_keys_unique [OF d(2), of l l']
        by (cases p) (auto simp: session_of_def entries_of_def)
    qed
  next
    case (Some e)
    then obtain l' where l': "e = Some l'" "Some l' \<in> set (admin_entries t)" "rl_public_key l' = key"
      using find_has_keyD by blast
    have "key \<notin> set (entry_keys (guest_entries t))"
      using l' dis entry_keys_mem [OF l'(2)] by auto
    with Some l' show ?thesis
      using entry_keys_mem [of l "guest_entries t"] entry_keys_unique [OF d(1), of l l']
      by (cases p) (auto simp: session_of_def entries_of_def)
  qed
qed

text \<open>Logging in: the key has the granted privilege and nothing else; every other session is either
  untouched or gone.\<close>

lemma authenticate_session:
  assumes inv: "logins_inv t"
  shows "session_of (authenticate t key secret p ts now path) key =
    Some (p, \<lparr>rl_public_key = key, rl_shared_secret = secret, rl_last_seen_ms = now,
              rl_last_timestamp = ts, rl_reply_path = path\<rparr>)"
proof -
  let ?t = "logins_remove (logins_prune t now) key"
  have inv': "logins_inv ?t" using inv logins_prune_inv logins_remove_inv by blast
  have len: "length (entries_of ?t p) = 4" using inv' by (cases p) (simp_all add: logins_inv_def entries_of_def)
  have get: "entries_of (put_entries u p es) p = es" for u es
    by (cases p) (simp_all add: put_entries_def entries_of_def)
  show ?thesis
    unfolding session_of_iff [OF authenticate_inv [OF inv]]
    using set_update_memI [OF slot_index_less [OF len]]
    by (simp add: authenticate_def Let_def get)
qed

lemma set_list_update_subset_mem: "x \<in> set (xs[i := y]) \<Longrightarrow> x = y \<or> x \<in> set xs"
  using set_update_subset_insert by fastforce

lemma remove_login_mem: "e \<in> set (remove_login es key) \<Longrightarrow> e \<noteq> None \<Longrightarrow> e \<in> set es"
  by (auto simp: remove_login_def dest: set_list_update_subset_mem split: option.splits)

lemma prune_logins_mem: "Some l \<in> set (prune_logins now es) \<longleftrightarrow> Some l \<in> set es \<and> \<not> login_expired now l"
proof (induction es)
  case (Cons e es)
  then show ?case by (cases e) auto
qed simp

lemma authenticate_other_sessions:
  assumes inv: "logins_inv t" and "key' \<noteq> key"
    and s: "session_of (authenticate t key secret p ts now path) key' = Some (q, l)"
  shows "session_of t key' = Some (q, l) \<and> \<not> login_expired now l"
proof -
  have m: "Some l \<in> set (entries_of (authenticate t key secret p ts now path) q)"
    and k: "rl_public_key l = key'"
    using s session_of_iff [OF authenticate_inv [OF inv]] by auto
  have "Some l \<in> set (entries_of (logins_prune t now) q)"
    using m k assms(2)
    by (cases p; cases q)
      (auto simp: authenticate_def Let_def put_entries_def entries_of_def logins_remove_def
        dest!: set_list_update_subset_mem dest: remove_login_mem)
  then have "Some l \<in> set (entries_of t q) \<and> \<not> login_expired now l"
    by (cases q) (auto simp: entries_of_def logins_prune_def prune_logins_mem)
  with k show ?thesis by (simp add: session_of_iff [OF inv])
qed

section \<open>The replay guard\<close>

text \<open>A timestamp is accepted exactly when the key has a live session of the privilege that has seen
  only older ones, and the session then remembers it.\<close>

lemma accept_newer_timestamp_iff:
  assumes inv: "logins_inv t"
  shows "fst (accept_newer_timestamp t key p ts now) \<longleftrightarrow>
    (\<exists>l. session_of t key = Some (p, l) \<and> \<not> login_expired now l \<and> rl_last_timestamp l < ts)"
proof -
  let ?es = "entries_of (logins_prune t now) p"
  have inv': "logins_inv (logins_prune t now)" using inv by (rule logins_prune_inv)
  have d: "distinct (entry_keys ?es)" using inv' by (cases p) (auto simp: logins_inv_def entries_of_def)
  have mem: "session_of t key = Some (p, l) \<and> \<not> login_expired now l \<longleftrightarrow>
    Some l \<in> set ?es \<and> rl_public_key l = key" for l
    unfolding session_of_iff [OF inv]
    by (cases p) (auto simp: entries_of_def logins_prune_def prune_logins_mem)
  show ?thesis
  proof (cases "find_login ?es key")
    case None
    then have "key \<notin> set (entry_keys ?es)" by (simp add: find_login_None_iff)
    then have "\<not> (Some l \<in> set ?es \<and> rl_public_key l = key)" for l using entry_keys_mem by blast
    then have "\<not> (session_of t key = Some (p, l) \<and> \<not> login_expired now l)" for l using mem by blast
    moreover have "\<not> fst (accept_newer_timestamp t key p ts now)"
      using None by (simp add: accept_newer_timestamp_def Let_def)
    ultimately show ?thesis by blast
  next
    case (Some i)
    then obtain l where i: "i < length ?es" "?es ! i = Some l" "rl_public_key l = key"
      using find_login_SomeD by blast
    then have ml: "Some l \<in> set ?es" by (metis nth_mem)
    have u: "l' = l" if "Some l' \<in> set ?es" "rl_public_key l' = key" for l'
      using entry_keys_unique [OF d that(1) ml] that(2) i(3) by simp
    have "fst (accept_newer_timestamp t key p ts now) \<longleftrightarrow> rl_last_timestamp l < ts"
      using Some i(2) by (auto simp: accept_newer_timestamp_def Let_def not_le)
    then show ?thesis using mem u ml i(3) by blast
  qed
qed

lemma accept_newer_timestamp_remembers:
  assumes inv: "logins_inv t" and acc: "fst (accept_newer_timestamp t key p ts now)"
  shows "\<exists>l. session_of (snd (accept_newer_timestamp t key p ts now)) key = Some (p, l)
    \<and> rl_last_timestamp l = ts \<and> rl_last_seen_ms l = now"
proof -
  let ?es = "entries_of (logins_prune t now) p"
  obtain i l where f: "find_login ?es key = Some i" "?es ! i = Some l" "\<not> ts \<le> rl_last_timestamp l"
    using acc by (auto simp: accept_newer_timestamp_def Let_def split: option.splits if_splits)
  have i: "i < length ?es" "rl_public_key l = key" using find_login_SomeD [OF f(1)] f(2) by auto
  let ?l = "l\<lparr>rl_last_timestamp := ts, rl_last_seen_ms := now\<rparr>"
  have get: "entries_of (put_entries u p es) p = es" for u es
    by (cases p) (simp_all add: put_entries_def entries_of_def)
  have "snd (accept_newer_timestamp t key p ts now) =
      put_entries (logins_prune t now) p (?es[i := Some ?l])"
    using f by (simp add: accept_newer_timestamp_def Let_def)
  then have "Some ?l \<in> set (entries_of (snd (accept_newer_timestamp t key p ts now)) p)"
    using i(1) by (simp add: get set_update_memI)
  with i(2) show ?thesis
    by (intro exI [of _ ?l]) (simp add: session_of_iff [OF accept_newer_timestamp_inv [OF inv]])
qed

lemma accept_newer_timestamp_refused:
  "\<not> fst (accept_newer_timestamp t key p ts now) \<Longrightarrow>
     snd (accept_newer_timestamp t key p ts now) = logins_prune t now"
  by (auto simp: accept_newer_timestamp_def Let_def split: option.split)

text \<open>A timestamp that was accepted is never accepted again in that session: a replay is refused.\<close>

lemma accept_newer_timestamp_no_replay:
  assumes inv: "logins_inv t" and acc: "fst (accept_newer_timestamp t key p ts now)" and "ts' \<le> ts"
  shows "\<not> fst (accept_newer_timestamp (snd (accept_newer_timestamp t key p ts now)) key q ts' now')"
proof -
  let ?t = "snd (accept_newer_timestamp t key p ts now)"
  obtain l where l: "session_of ?t key = Some (p, l)" "rl_last_timestamp l = ts"
    using accept_newer_timestamp_remembers [OF inv acc] by blast
  show ?thesis
    unfolding accept_newer_timestamp_iff [OF accept_newer_timestamp_inv [OF inv]]
    using l \<open>ts' \<le> ts\<close> by auto
qed

section \<open>Finding the sessions a packet may come from\<close>

lemma append_matching_fits:
  "length es \<le> length out - index \<Longrightarrow> index \<le> length out \<Longrightarrow>
   \<exists>out' index'. append_matching h p es (out, index) = Ok (out', index')
     \<and> length out' = length out \<and> index \<le> index' \<and> index' \<le> index + length es
     \<and> take index' out' = take index out
         @ map Some (map (login_session p) (filter (\<lambda>l. rl_public_key l ! 0 = h) (flatten es)))
     \<and> drop index' out' = drop index' out"
proof (induction es arbitrary: out index)
  case (Cons e es)
  show ?case
  proof (cases e)
    case None
    have "length es \<le> length out - index" using Cons.prems by simp
    from Cons.IH [OF this Cons.prems(2)] None show ?thesis
      by (auto intro: le_SucI)
  next
    case (Some l)
    show ?thesis
    proof (cases "rl_public_key l ! 0 = h")
      case False
      have "length es \<le> length out - index" using Cons.prems by simp
      from Cons.IH [OF this Cons.prems(2)] Some False show ?thesis
        by (auto intro: le_SucI)
    next
      case True
      let ?out = "out[index := Some (login_session p l)]"
      have i: "index < length out" using Cons.prems by simp
      have "length es \<le> length ?out - Suc index" "Suc index \<le> length ?out" using Cons.prems by simp_all
      from Cons.IH [OF this] obtain out' index' where r:
        "append_matching h p es (?out, Suc index) = Ok (out', index')" "length out' = length out"
        "Suc index \<le> index'" "index' \<le> Suc index + length es"
        "take index' out' = take (Suc index) ?out
          @ map Some (map (login_session p) (filter (\<lambda>l. rl_public_key l ! 0 = h) (flatten es)))"
        "drop index' out' = drop index' ?out"
        by auto
      have "take (Suc index) ?out = take index out @ [Some (login_session p l)]"
        using i by (simp add: take_Suc_conv_app_nth)
      with r True Some i show ?thesis by simp
    qed
  qed
qed simp

lemma sessions_matching_eq:
  fixes h :: u8 and now :: u64
  assumes inv: "logins_inv t"
  defines "live \<equiv> \<lambda>p. filter (\<lambda>l. rl_public_key l ! 0 = h)
    (flatten (entries_of (logins_prune t now) p))"
  shows "\<exists>n. sessions_matching t h now =
    (Ok (map Some (map (login_session Admin) (live Admin) @ map (login_session Guest) (live Guest))
         @ replicate n None), logins_prune t now)"
proof -
  let ?t = "logins_prune t now"
  have len: "length (admin_entries ?t) = 4" "length (guest_entries ?t) = 4"
    using logins_prune_inv [OF inv] by (simp_all add: logins_inv_def)
  let ?empty = "replicate MAX_REMOTE_SESSIONS (None :: remote_session option)"
  have m: "MAX_REMOTE_SESSIONS = 8" by (simp add: MAX_REMOTE_SESSIONS_def MAX_REMOTE_LOGINS_def)
  obtain o1 i1 where r1: "append_matching h Admin (admin_entries ?t) (?empty, 0) = Ok (o1, i1)"
    "length o1 = 8" "i1 \<le> 4" "take i1 o1 = map Some (map (login_session Admin) (live Admin))"
    "drop i1 o1 = drop i1 ?empty"
    using append_matching_fits [of "admin_entries ?t" ?empty 0 h Admin] len m
    by (auto simp: live_def entries_of_def)
  obtain o2 i2 where r2: "append_matching h Guest (guest_entries ?t) (o1, i1) = Ok (o2, i2)"
    "i1 \<le> i2" "take i2 o2 = take i1 o1 @ map Some (map (login_session Guest) (live Guest))"
    "drop i2 o2 = drop i2 o1"
  proof -
    have "length (guest_entries ?t) \<le> length o1 - i1" "i1 \<le> length o1" using len r1(2,3) by simp_all
    from append_matching_fits [OF this, of h Guest] show thesis
      by (elim exE conjE) (rule that, assumption+, simp_all add: live_def entries_of_def)
  qed
  have "drop i2 o1 = drop (i2 - i1) (drop i1 o1)" using r2(2) by simp
  then have "drop i2 o2 = replicate (8 - i2) None" using r2(2,4) r1(5) by (simp add: m)
  moreover have "o2 = take i2 o2 @ drop i2 o2" by simp
  ultimately have "o2 = map Some (map (login_session Admin) (live Admin) @ map (login_session Guest) (live Guest))
      @ replicate (8 - i2) None"
    using r1(4) r2(3) by simp
  then show ?thesis using r1(1) r2(1) by (intro exI [of _ "8 - i2"]) (simp add: sessions_matching_def Let_def)
qed

section \<open>Who may log in\<close>

lemma login_privilege_deny: "login_privilege body password (Some RoleDeny) = None"
  by (simp add: login_privilege_def)

text \<open>Without an entry of the access list, administrator privilege needs the password.\<close>

lemma login_privilege_admin_needs_password:
  "login_privilege body password None = Some Admin \<longleftrightarrow>
     body \<noteq> [] \<and> body \<noteq> lit ''login'' \<and>
     (body = password \<or>
      (\<exists>rest. strip_prefix body (lit ''login '') = Some rest \<and> trim rest \<noteq> [] \<and> trim rest = password))"
  by (auto simp: login_privilege_def Let_def split: option.split)

section \<open>Properties\<close>

text \<open>C35: Logging in gives the key exactly one session, of the granted privilege; every other session the
  table still holds was there before and had not expired.\<close>

theorem login_session_unique:
  assumes "logins_inv t"
  shows "logins_inv (authenticate t key secret p ts now path)
    \<and> session_of (authenticate t key secret p ts now path) key =
        Some (p, \<lparr>rl_public_key = key, rl_shared_secret = secret, rl_last_seen_ms = now,
                  rl_last_timestamp = ts, rl_reply_path = path\<rparr>)
    \<and> (\<forall>key' q l. key' \<noteq> key
         \<and> session_of (authenticate t key secret p ts now path) key' = Some (q, l)
         \<longrightarrow> session_of t key' = Some (q, l) \<and> \<not> login_expired now l)"
proof (intro conjI allI impI)
  fix key' q l
  assume "key' \<noteq> key \<and> session_of (authenticate t key secret p ts now path) key' = Some (q, l)"
  then show "session_of t key' = Some (q, l)" and "\<not> login_expired now l"
    using authenticate_other_sessions [OF assms] by blast+
qed (simp_all add: authenticate_inv [OF assms] authenticate_session [OF assms])

theorem login_session_unique_witness:
  "session_of (authenticate logins_new [1] [2] Guest 5 10 path_empty) [1] =
     Some (Guest, \<lparr>rl_public_key = [1], rl_shared_secret = [2], rl_last_seen_ms = 10,
                   rl_last_timestamp = 5, rl_reply_path = path_empty\<rparr>)"
  using login_session_unique [OF logins_inv_new] by blast

text \<open>C36: Replay protection: a timestamp is accepted only in a live session of the privilege asked for,
  when it is newer than every one accepted before, and once accepted neither it nor an older one is
  accepted again in that session, under any privilege.\<close>

theorem replay_refused:
  assumes "logins_inv t"
  shows "(fst (accept_newer_timestamp t key p ts now) \<longleftrightarrow>
            (\<exists>l. session_of t key = Some (p, l) \<and> \<not> login_expired now l \<and> rl_last_timestamp l < ts))
    \<and> (fst (accept_newer_timestamp t key p ts now) \<and> ts' \<le> ts \<longrightarrow>
         \<not> fst (accept_newer_timestamp (snd (accept_newer_timestamp t key p ts now)) key q ts' now'))
    \<and> logins_inv (snd (accept_newer_timestamp t key p ts now))"
  using accept_newer_timestamp_iff [OF assms] accept_newer_timestamp_no_replay [OF assms]
    accept_newer_timestamp_inv [OF assms] by blast

theorem replay_refused_witness:
  "\<not> fst (accept_newer_timestamp (snd (accept_newer_timestamp
       (authenticate logins_new [1] [2] Admin 5 10 path_empty) [1] Admin 6 11)) [1] Admin 6 12)"
proof -
  let ?t = "authenticate logins_new [1] [2] Admin 5 10 path_empty"
  have "fst (accept_newer_timestamp ?t [1] Admin 6 11)" by code_simp
  then show ?thesis
    using replay_refused [OF authenticate_inv [OF logins_inv_new], of "[1]" "[2]" Admin 5 10 path_empty
        "[1]" Admin 6 11 6 Admin 12] by simp
qed

text \<open>C37: A key the access list denies cannot log in whatever it sends, and a key the list does not name
  becomes administrator only by sending the password.\<close>

theorem login_needs_permission:
  "login_privilege body password (Some RoleDeny) = None
   \<and> (login_privilege body password None = Some Admin \<longleftrightarrow>
        body \<noteq> [] \<and> body \<noteq> lit ''login''
        \<and> (body = password
           \<or> (\<exists>rest. strip_prefix body (lit ''login '') = Some rest \<and> trim rest \<noteq> [] \<and> trim rest = password)))"
  using login_privilege_deny login_privilege_admin_needs_password by blast

text \<open>C38: The sessions a packet may come from are listed without overrunning the eight slots: the live
  administrators with that hash, then the guests, then nothing.\<close>

theorem matching_sessions_listed:
  assumes "logins_inv t"
  shows "\<exists>n. sessions_matching t h now =
    (Ok (map Some
          (map (login_session Admin) (filter (\<lambda>l. rl_public_key l ! 0 = h)
             (flatten (entries_of (logins_prune t now) Admin)))
           @ map (login_session Guest) (filter (\<lambda>l. rl_public_key l ! 0 = h)
             (flatten (entries_of (logins_prune t now) Guest))))
         @ replicate n None), logins_prune t now)"
  using sessions_matching_eq [OF assms] .

theorem matching_sessions_listed_witness:
  "\<exists>n. fst (sessions_matching logins_new 3 9) = Ok (replicate n None)"
  using matching_sessions_listed [OF logins_inv_new, of 3 9]
  by (auto simp: logins_new_def logins_prune_def entries_of_def prune_logins_def MAX_REMOTE_LOGINS_def numeral_eq_Suc)

end
