(* ===== verification/App_Context.thy ===== *)
theory App_Context
  imports Outbound App_Config Seen_Cache Neighbours Remote_Logins
begin

text \<open>
  The state the repeater's tasks share (\<open>AppContext\<close> of \<open>app/mod.rs\<close>), and its operations. Every task
  reaches it through mutexes and cells, so an operation is a function from one context to the next;
  the platform's clock readings are arguments, one for each place the code reads the clock. The MQTT
  queue belongs to an optional feature and is left out.
\<close>

definition RECEIVE_BUFFER_LEN :: nat where "RECEIVE_BUFFER_LEN = 255"
definition INBOUND_QUEUE_CAPACITY :: nat where "INBOUND_QUEUE_CAPACITY = 8"
definition SEEN_PACKET_TTL_MS :: u64 where "SEEN_PACKET_TTL_MS = 15000"
definition BATTERY_LEVEL_UNKNOWN :: u8 where "BATTERY_LEVEL_UNKNOWN = - 1"
definition BATTERY_MILLIVOLTS_UNKNOWN :: u16 where "BATTERY_MILLIVOLTS_UNKNOWN = - 1"
definition DISCOVER_NEIGHBOURS_TTL_MS :: u64 where "DISCOVER_NEIGHBOURS_TTL_MS = 60000"

record memory_profile =
  mp_heap_size :: nat
  mp_inbound_queue_len :: nat
  mp_outbound_queue_len :: nat
  mp_max_neighbours :: nat
  mp_seen_packet_cache_len :: nat

record rx_event =
  rx_payload :: bytes
  rx_rssi :: i16
  rx_snr_quarters :: i16
  rx_received_at_ms :: u64

record pending_discover =
  pd_tag :: u32
  pd_expires_at_ms :: u64

record app_context =
  cx_config :: app_config
  cx_memory :: memory_profile
  cx_neighbours :: neighbour_table
  cx_remote_logins :: remote_login_table
  cx_inbound :: "rx_event list"
  cx_outbound :: outbound_channel
  cx_reboot_after_next_remote_reply :: bool
  cx_seen_packets :: seen_cache
  cx_pending_forwards :: "bytes list"
  cx_pending_discover :: "pending_discover option"
  cx_started_at_ms :: u64
  cx_sent_direct :: u32
  cx_sent_flood :: u32
  cx_received_direct :: u32
  cx_received_flood :: u32
  cx_duplicates_direct :: u32
  cx_duplicates_flood :: u32
  cx_packets_received :: u32
  cx_packets_sent :: u32
  cx_tx_airtime_ms :: u32
  cx_packet_errors :: u32
  cx_battery_level_percent :: u8
  cx_battery_millivolts :: u16
  cx_last_rssi :: i16
  cx_last_snr_quarters :: i16

definition context_new :: "memory_profile \<Rightarrow> app_config \<Rightarrow> u64 \<Rightarrow> app_context" where
  "context_new memory config now_ms =
     \<lparr>cx_config = config, cx_memory = memory,
      cx_neighbours = neighbours_new (mp_max_neighbours memory), cx_remote_logins = logins_new,
      cx_inbound = [], cx_outbound = outbound_new (mp_outbound_queue_len memory),
      cx_reboot_after_next_remote_reply = False,
      cx_seen_packets = seen_new_with_capacity SEEN_PACKET_TTL_MS (mp_seen_packet_cache_len memory),
      cx_pending_forwards = [], cx_pending_discover = None, cx_started_at_ms = now_ms,
      cx_sent_direct = 0, cx_sent_flood = 0, cx_received_direct = 0, cx_received_flood = 0,
      cx_duplicates_direct = 0, cx_duplicates_flood = 0, cx_packets_received = 0, cx_packets_sent = 0,
      cx_tx_airtime_ms = 0, cx_packet_errors = 0, cx_battery_level_percent = BATTERY_LEVEL_UNKNOWN,
      cx_battery_millivolts = BATTERY_MILLIVOLTS_UNKNOWN, cx_last_rssi = 0, cx_last_snr_quarters = 0\<rparr>"

section \<open>Configuration, neighbours, logins\<close>

definition context_public_key :: "app_context \<Rightarrow> bytes" where
  "context_public_key ctx = id_public_key (ac_identity (cx_config ctx))"

definition context_node_hash :: "app_context \<Rightarrow> bytes" where
  "context_node_hash ctx = id_node_hash (ac_identity (cx_config ctx))"

datatype config_update_error = UpdateInvalid config_error | UpdateStorage storage_error

text \<open>The update works on the configuration in place, so what it changed before failing stays. After a
  successful one the sessions of every key whose role changed are closed, then the file is written.\<close>

definition update_config ::
  "crypto \<Rightarrow> rstr \<Rightarrow> 's storage_api \<Rightarrow> (app_config \<Rightarrow> app_config \<times> unit config_result) \<Rightarrow>
   app_context \<times> 's \<Rightarrow> (config_update_error, unit) res \<times> app_context \<times> 's"
where
  "update_config C profile api update st =
     (let (ctx, s) = st; previous_acl = cf_acl (cx_config ctx);
          (config, result) = update (cx_config ctx); ctx = ctx\<lparr>cx_config := config\<rparr> in
      case result of
        Inl Panic \<Rightarrow> (Panicked, ctx, s)
      | Inl (Fail e) \<Rightarrow> (Err (UpdateInvalid e), ctx, s)
      | Inr _ \<Rightarrow>
          let logins = fold (\<lambda>key t. logins_remove t key) (changed_keys previous_acl (cf_acl config))
                         (cx_remote_logins ctx);
              ctx = ctx\<lparr>cx_remote_logins := logins\<rparr>
          in case config_save C profile api s config of
               (Inr _, s) \<Rightarrow> (Ok (), ctx, s)
             | (Inl (Fail e), s) \<Rightarrow> (Err (UpdateStorage e), ctx, s)
             | (Inl Panic, s) \<Rightarrow> (Panicked, ctx, s))"

definition reset_config :: "'s storage_api \<Rightarrow> 's \<Rightarrow> (storage_error, unit) res \<times> 's" where
  "reset_config api s = save_unprovisioned api s"

definition observe_neighbour_packet ::
  "crypto \<Rightarrow> app_context \<Rightarrow> packet \<Rightarrow> i16 \<Rightarrow> i16 \<Rightarrow> u64 \<Rightarrow> app_context"
where
  "observe_neighbour_packet C ctx packet rssi snr_quarters now_ms =
     ctx\<lparr>cx_neighbours := observe_packet C (cx_neighbours ctx) packet rssi snr_quarters now_ms
                           (context_node_hash ctx)\<rparr>"

definition observe_neighbour_public_key ::
  "app_context \<Rightarrow> bytes \<Rightarrow> i16 \<Rightarrow> i16 \<Rightarrow> u64 \<Rightarrow> app_context"
where
  "observe_neighbour_public_key ctx public_key rssi snr_quarters now_ms =
     ctx\<lparr>cx_neighbours := observe_public_key (cx_neighbours ctx) public_key rssi snr_quarters now_ms
                           (context_node_hash ctx)\<rparr>"

definition encode_neighbours_binary_response :: "app_context \<Rightarrow> bytes \<Rightarrow> u64 \<Rightarrow> bytes option" where
  "encode_neighbours_binary_response ctx request now_ms =
     encode_binary_response (cx_neighbours ctx) request now_ms"

definition authenticate_remote_login ::
  "app_context \<Rightarrow> bytes \<Rightarrow> bytes \<Rightarrow> remote_privilege \<Rightarrow> u32 \<Rightarrow> u64 \<Rightarrow> path \<Rightarrow> app_context"
where
  "authenticate_remote_login ctx key secret privilege last_timestamp now_ms reply_path =
     ctx\<lparr>cx_remote_logins := authenticate (cx_remote_logins ctx) key secret privilege last_timestamp now_ms reply_path\<rparr>"

definition remote_privilege_for :: "app_context \<Rightarrow> bytes \<Rightarrow> u64 \<Rightarrow> remote_privilege option \<times> app_context" where
  "remote_privilege_for ctx key now_ms =
     (let (p, t) = privilege_for (cx_remote_logins ctx) key now_ms in (p, ctx\<lparr>cx_remote_logins := t\<rparr>))"

definition remote_sessions_matching_source_hash ::
  "app_context \<Rightarrow> u8 \<Rightarrow> u64 \<Rightarrow> (unit, remote_session option list) res \<times> app_context"
where
  "remote_sessions_matching_source_hash ctx source_hash now_ms =
     (let (r, t) = sessions_matching (cx_remote_logins ctx) source_hash now_ms in (r, ctx\<lparr>cx_remote_logins := t\<rparr>))"

definition accept_newer_remote_timestamp ::
  "app_context \<Rightarrow> bytes \<Rightarrow> remote_privilege \<Rightarrow> u32 \<Rightarrow> u64 \<Rightarrow> bool \<times> app_context"
where
  "accept_newer_remote_timestamp ctx key privilege timestamp now_ms =
     (let (b, t) = accept_newer_timestamp (cx_remote_logins ctx) key privilege timestamp now_ms
      in (b, ctx\<lparr>cx_remote_logins := t\<rparr>))"

section \<open>Counters and status\<close>

definition optional_battery_level :: "u8 \<Rightarrow> u8 option" where
  "optional_battery_level level = (if level \<noteq> BATTERY_LEVEL_UNKNOWN then Some level else None)"

definition optional_battery_millivolts :: "u16 \<Rightarrow> u16 option" where
  "optional_battery_millivolts millivolts =
     (if millivolts \<noteq> BATTERY_MILLIVOLTS_UNKNOWN then Some millivolts else None)"

definition set_battery_millivolts :: "app_context \<Rightarrow> u16 option \<Rightarrow> app_context" where
  "set_battery_millivolts ctx v =
     ctx\<lparr>cx_battery_millivolts := (case v of Some mv \<Rightarrow> mv | None \<Rightarrow> BATTERY_MILLIVOLTS_UNKNOWN)\<rparr>"

definition set_battery_level_percent :: "app_context \<Rightarrow> u8 option \<Rightarrow> app_context" where
  "set_battery_level_percent ctx v =
     ctx\<lparr>cx_battery_level_percent := (case v of Some level \<Rightarrow> min level 100 | None \<Rightarrow> BATTERY_LEVEL_UNKNOWN)\<rparr>"

definition level_percent :: "u16 \<Rightarrow> u8" where
  "level_percent millivolts =
     (if millivolts \<le> 3300 then 0
      else if 4100 \<le> millivolts then 100
      else word_of_nat ((unat (millivolts - 3300) * 100) div unat (4100 - 3300 :: u16)))"

definition battery_sample :: "app_context \<Rightarrow> u16 option \<Rightarrow> app_context" where
  "battery_sample ctx reading =
     (case reading of
        Some mv \<Rightarrow> set_battery_level_percent (set_battery_millivolts ctx (Some mv)) (Some (level_percent mv))
      | None \<Rightarrow> set_battery_level_percent (set_battery_millivolts ctx None) None)"

definition record_packet_received :: "app_context \<Rightarrow> i16 \<Rightarrow> i16 \<Rightarrow> app_context" where
  "record_packet_received ctx rssi snr_quarters =
     ctx\<lparr>cx_packets_received := sat_add (cx_packets_received ctx) 1, cx_last_rssi := rssi,
         cx_last_snr_quarters := snr_quarters\<rparr>"

definition record_packet_sent :: "app_context \<Rightarrow> app_context" where
  "record_packet_sent ctx = ctx\<lparr>cx_packets_sent := sat_add (cx_packets_sent ctx) 1\<rparr>"

definition record_tx_airtime :: "app_context \<Rightarrow> u32 \<Rightarrow> app_context" where
  "record_tx_airtime ctx airtime_ms = ctx\<lparr>cx_tx_airtime_ms := sat_add (cx_tx_airtime_ms ctx) airtime_ms\<rparr>"

definition record_packet_error :: "app_context \<Rightarrow> app_context" where
  "record_packet_error ctx = ctx\<lparr>cx_packet_errors := sat_add (cx_packet_errors ctx) 1\<rparr>"

text \<open>The route counters use \<open>fetch_add\<close>, which wraps.\<close>

definition count_sent :: "route_type \<Rightarrow> app_context \<Rightarrow> app_context" where
  "count_sent route ctx =
     (if is_flood route then ctx\<lparr>cx_sent_flood := cx_sent_flood ctx + 1\<rparr>
      else ctx\<lparr>cx_sent_direct := cx_sent_direct ctx + 1\<rparr>)"

definition count_received :: "route_type \<Rightarrow> app_context \<Rightarrow> app_context" where
  "count_received route ctx =
     (if is_flood route then ctx\<lparr>cx_received_flood := cx_received_flood ctx + 1\<rparr>
      else ctx\<lparr>cx_received_direct := cx_received_direct ctx + 1\<rparr>)"

definition count_duplicate :: "route_type \<Rightarrow> app_context \<Rightarrow> app_context" where
  "count_duplicate route ctx =
     (if is_flood route then ctx\<lparr>cx_duplicates_flood := cx_duplicates_flood ctx + 1\<rparr>
      else ctx\<lparr>cx_duplicates_direct := cx_duplicates_direct ctx + 1\<rparr>)"

record status =
  ss_uptime_seconds :: u64
  ss_uptime_millis :: u64
  ss_sent_direct :: u32
  ss_sent_flood :: u32
  ss_received_direct :: u32
  ss_received_flood :: u32
  ss_duplicates_direct :: u32
  ss_duplicates_flood :: u32
  ss_packets_received :: u32
  ss_packets_sent :: u32
  ss_tx_airtime_ms :: u32
  ss_packet_errors :: u32
  ss_outbound_queue_len :: u16
  ss_battery_level_percent :: "u8 option"
  ss_battery_millivolts :: "u16 option"
  ss_last_rssi :: i16
  ss_last_snr_quarters :: i16

definition context_status :: "app_context \<Rightarrow> u64 \<Rightarrow> status" where
  "context_status ctx now_ms =
     (let uptime_millis = sat_sub now_ms (cx_started_at_ms ctx) in
      \<lparr>ss_uptime_seconds = uptime_millis div 1000, ss_uptime_millis = uptime_millis,
       ss_sent_direct = cx_sent_direct ctx, ss_sent_flood = cx_sent_flood ctx,
       ss_received_direct = cx_received_direct ctx, ss_received_flood = cx_received_flood ctx,
       ss_duplicates_direct = cx_duplicates_direct ctx, ss_duplicates_flood = cx_duplicates_flood ctx,
       ss_packets_received = cx_packets_received ctx, ss_packets_sent = cx_packets_sent ctx,
       ss_tx_airtime_ms = cx_tx_airtime_ms ctx, ss_packet_errors = cx_packet_errors ctx,
       ss_outbound_queue_len = word_of_nat (min (outbound_len (cx_outbound ctx)) 65535),
       ss_battery_level_percent = optional_battery_level (cx_battery_level_percent ctx),
       ss_battery_millivolts = optional_battery_millivolts (cx_battery_millivolts ctx),
       ss_last_rssi = cx_last_rssi ctx, ss_last_snr_quarters = cx_last_snr_quarters ctx\<rparr>)"

definition packet_region_label :: "crypto \<Rightarrow> app_context \<Rightarrow> packet \<Rightarrow> rstr option" where
  "packet_region_label C ctx packet =
     (case route_type packet of
        TransportFlood \<Rightarrow> map_option (\<lambda>e. region_display_name (re_name e))
                            (match_flood_region C (cf_regions (cx_config ctx)) packet)
      | Flood \<Rightarrow> Some (lit ''*'')
      | _ \<Rightarrow> None)"

definition outbound_region_label :: "crypto \<Rightarrow> app_context \<Rightarrow> bytes \<Rightarrow> rstr option" where
  "outbound_region_label C ctx packet =
     (case res_ok (packet_decode packet) of None \<Rightarrow> None | Some p \<Rightarrow> packet_region_label C ctx p)"

section \<open>The queues\<close>

datatype inbound_error = InboundQueueFull

definition enqueue_inbound ::
  "app_context \<Rightarrow> bytes \<Rightarrow> i16 \<Rightarrow> i16 \<Rightarrow> u64 \<Rightarrow> (inbound_error, app_context) res"
where
  "enqueue_inbound ctx payload rssi snr_quarters now_ms =
     (if mp_inbound_queue_len (cx_memory ctx) \<le> length (cx_inbound ctx) then Err InboundQueueFull
      else if INBOUND_QUEUE_CAPACITY \<le> length (cx_inbound ctx) then Err InboundQueueFull
      else Ok (ctx\<lparr>cx_inbound := cx_inbound ctx @
             [\<lparr>rx_payload = payload, rx_rssi = rssi, rx_snr_quarters = snr_quarters,
               rx_received_at_ms = now_ms\<rparr>]\<rparr>))"

definition receive_inbound :: "app_context \<Rightarrow> (rx_event \<times> app_context) option" where
  "receive_inbound ctx =
     (case cx_inbound ctx of [] \<Rightarrow> None | e # rest \<Rightarrow> Some (e, ctx\<lparr>cx_inbound := rest\<rparr>))"

definition enqueue_outbound_item ::
  "app_context \<Rightarrow> u64 \<Rightarrow> bytes \<Rightarrow> u32 \<Rightarrow> bool \<Rightarrow> bytes option \<Rightarrow> (outbound_error, app_context) res"
where
  "enqueue_outbound_item ctx now_ms packet delay_ms reboot_after_tx signature =
     and_then (outbound_try_send (cx_outbound ctx)
         \<lparr>qt_eligible_at_ms = sat_add now_ms (ucast delay_ms), qt_attempts = 0, qt_packet = packet,
          qt_dedup_signature = signature, qt_reboot_after_tx = reboot_after_tx\<rparr>)
       (\<lambda>ch. Ok (ctx\<lparr>cx_outbound := ch\<rparr>))"

definition enqueue_outbound_after :: "app_context \<Rightarrow> u64 \<Rightarrow> bytes \<Rightarrow> u32 \<Rightarrow> (outbound_error, app_context) res" where
  "enqueue_outbound_after ctx now_ms packet delay_ms = enqueue_outbound_item ctx now_ms packet delay_ms False None"

definition enqueue_outbound :: "app_context \<Rightarrow> u64 \<Rightarrow> bytes \<Rightarrow> (outbound_error, app_context) res" where
  "enqueue_outbound ctx now_ms packet = enqueue_outbound_after ctx now_ms packet 0"

definition enqueue_outbound_reboot_after_tx :: "app_context \<Rightarrow> u64 \<Rightarrow> bytes \<Rightarrow> (outbound_error, app_context) res" where
  "enqueue_outbound_reboot_after_tx ctx now_ms packet = enqueue_outbound_item ctx now_ms packet 0 True None"

definition request_reboot_after_next_remote_reply :: "app_context \<Rightarrow> app_context" where
  "request_reboot_after_next_remote_reply ctx = ctx\<lparr>cx_reboot_after_next_remote_reply := True\<rparr>"

definition take_reboot_after_next_remote_reply :: "app_context \<Rightarrow> bool \<times> app_context" where
  "take_reboot_after_next_remote_reply ctx =
     (cx_reboot_after_next_remote_reply ctx, ctx\<lparr>cx_reboot_after_next_remote_reply := False\<rparr>)"

section \<open>Forwards in progress\<close>

definition is_seen_or_pending :: "app_context \<Rightarrow> bytes \<Rightarrow> u64 \<Rightarrow> bool \<times> app_context" where
  "is_seen_or_pending ctx signature now_ms =
     (if signature \<in> set (cx_pending_forwards ctx) then (True, ctx)
      else let (seen, cache) = seen_contains (cx_seen_packets ctx) signature now_ms
        in (seen, ctx\<lparr>cx_seen_packets := cache\<rparr>))"

definition reserve_forward :: "app_context \<Rightarrow> bytes \<Rightarrow> u64 \<Rightarrow> (outbound_error, bool) res \<times> app_context" where
  "reserve_forward ctx signature now_ms =
     (let (known, ctx) = is_seen_or_pending ctx signature now_ms in
      if known then (Ok False, ctx)
      else if min (mp_outbound_queue_len (cx_memory ctx)) OUTBOUND_QUEUE_CAPACITY
              \<le> length (cx_pending_forwards ctx)
        then (Err OutboundQueueFull, ctx)
      else (Ok True, ctx\<lparr>cx_pending_forwards := cx_pending_forwards ctx @ [signature]\<rparr>))"

definition release_forward :: "app_context \<Rightarrow> bytes \<Rightarrow> bool \<Rightarrow> u64 \<Rightarrow> app_context" where
  "release_forward ctx signature transmitted now_ms =
     (let ctx = (case position (\<lambda>p. p = signature) (cx_pending_forwards ctx) of
                   Some i \<Rightarrow> ctx\<lparr>cx_pending_forwards := remove_at i (cx_pending_forwards ctx)\<rparr>
                 | None \<Rightarrow> ctx) in
      if transmitted
      then ctx\<lparr>cx_seen_packets := seen_touch (cx_seen_packets ctx) signature now_ms\<rparr>
      else ctx)"

definition finish_forward :: "app_context \<Rightarrow> bytes option \<Rightarrow> bool \<Rightarrow> u64 \<Rightarrow> app_context" where
  "finish_forward ctx signature transmitted now_ms =
     (case signature of None \<Rightarrow> ctx | Some s \<Rightarrow> release_forward ctx s transmitted now_ms)"

text \<open>The clock is read for the seen cache, for the queue, and again should the queue refuse.\<close>

definition enqueue_forward ::
  "app_context \<Rightarrow> u64 \<Rightarrow> u64 \<Rightarrow> bytes \<Rightarrow> u32 \<Rightarrow> bytes \<Rightarrow> (outbound_error, bool) res \<times> app_context"
where
  "enqueue_forward ctx now_seen now_queue packet delay_ms signature =
     (case reserve_forward ctx signature now_seen of
        (Inl e, ctx) \<Rightarrow> (Inl e, ctx)
      | (Inr False, ctx) \<Rightarrow> (Ok False, ctx)
      | (Inr True, ctx) \<Rightarrow>
          (case enqueue_outbound_item ctx now_queue packet delay_ms False (Some signature) of
             Inl e \<Rightarrow> (Inl e, release_forward ctx signature False now_queue)
           | Inr ctx \<Rightarrow> (Ok True, ctx)))"

section \<open>Neighbour discovery in progress\<close>

definition start_discover_neighbours :: "app_context \<Rightarrow> u32 \<Rightarrow> u64 \<Rightarrow> app_context" where
  "start_discover_neighbours ctx tag now_ms =
     ctx\<lparr>cx_pending_discover :=
           Some \<lparr>pd_tag = tag, pd_expires_at_ms = sat_add now_ms DISCOVER_NEIGHBOURS_TTL_MS\<rparr>\<rparr>"

definition accept_discover_response :: "app_context \<Rightarrow> u32 \<Rightarrow> u64 \<Rightarrow> bool \<times> app_context" where
  "accept_discover_response ctx tag now_ms =
     (case cx_pending_discover ctx of
        None \<Rightarrow> (False, ctx)
      | Some discover \<Rightarrow>
          if pd_expires_at_ms discover < now_ms then (False, ctx\<lparr>cx_pending_discover := None\<rparr>)
          else (pd_tag discover = tag, ctx))"

section \<open>Facts\<close>

lemma level_percent_range: "level_percent mv \<le> 100"
proof (cases "mv \<le> 3300 \<or> 4100 \<le> mv")
  case False
  then have "unat (mv - 3300) < 800"
    by (simp add: word_le_nat_alt unat_sub) linarith
  then have "(unat (mv - 3300) * 100) div 800 \<le> 100" by simp
  then show ?thesis using False
    by (simp add: level_percent_def word_le_nat_alt unat_of_nat)
qed (auto simp: level_percent_def)

text \<open>A changed access rule ends the session of its key.\<close>

lemma remove_keys_gone:
  assumes "logins_inv t"
  shows "logins_inv (fold (\<lambda>k t. logins_remove t k) ks t)
    \<and> set (entry_keys (admin_entries (fold (\<lambda>k t. logins_remove t k) ks t)))
       \<union> set (entry_keys (guest_entries (fold (\<lambda>k t. logins_remove t k) ks t)))
      = (set (entry_keys (admin_entries t)) \<union> set (entry_keys (guest_entries t))) - set ks"
  using assms
proof (induction ks arbitrary: t)
  case (Cons k ks)
  have d: "distinct (entry_keys (admin_entries t))" "distinct (entry_keys (guest_entries t))"
    using Cons.prems by (simp_all add: logins_inv_def)
  have "set (entry_keys (admin_entries (logins_remove t k))) = set (entry_keys (admin_entries t)) - {k}"
    "set (entry_keys (guest_entries (logins_remove t k))) = set (entry_keys (guest_entries t)) - {k}"
    using remove_login_keys(1) [OF d(1)] remove_login_keys(1) [OF d(2)] by (simp_all add: logins_remove_def)
  then show ?case using Cons.IH [OF logins_remove_inv(1) [OF Cons.prems, of k]] by auto
qed simp

lemma session_of_None_iff:
  "session_of t key = None \<longleftrightarrow> key \<notin> set (entry_keys (admin_entries t)) \<union> set (entry_keys (guest_entries t))"
proof -
  have "\<exists>e l. find (has_key key) es = Some e \<and> e = Some l" if "find (has_key key) es \<noteq> None" for es
    using that find_has_keyD by blast
  then show ?thesis
    using find_has_key_None [of key "admin_entries t"] find_has_key_None [of key "guest_entries t"]
    by (auto simp: session_of_def split: option.splits dest: find_has_keyD)
qed

lemma update_config_revokes:
  assumes inv: "logins_inv (cx_remote_logins ctx)"
    and up: "update_config C profile api update (ctx, s) = (r, ctx', s')"
    and ok: "snd (update (cx_config ctx)) = Ok ()"
    and changed: "acl_role (cf_acl (cx_config ctx)) key \<noteq> acl_role (cf_acl (cx_config ctx')) key"
  shows "session_of (cx_remote_logins ctx') key = None \<and> logins_inv (cx_remote_logins ctx')"
proof -
  obtain config where u: "update (cx_config ctx) = (config, Ok ())"
    using ok by (cases "update (cx_config ctx)") auto
  let ?t = "fold (\<lambda>k t. logins_remove t k) (changed_keys (cf_acl (cx_config ctx)) (cf_acl config))
              (cx_remote_logins ctx)"
  have c: "cx_config ctx' = config" "cx_remote_logins ctx' = ?t"
    using up by (auto simp: update_config_def u Let_def split: prod.splits sum.splits fault.splits)
  have "key \<in> set (changed_keys (cf_acl (cx_config ctx)) (cf_acl config))"
    using changed c by (simp add: changed_keys_iff)
  then show ?thesis
    using remove_keys_gone [OF inv, of "changed_keys (cf_acl (cx_config ctx)) (cf_acl config)"]
    by (auto simp: c session_of_None_iff)
qed

end
