(* ===== verification/Config_Laws.thy ===== *)
theory Config_Laws
  imports Image_Config App_Context
begin

text \<open>
  Every way the configuration changes keeps it well formed (\<open>config_inv\<close>): the three text layers, the
  setters of \<open>AppConfig\<close>, and the reset of a setting. None of them panics either, provided the profile
  embedded in the image is valid for every key. The setters also leave the identity alone: a new
  private key takes effect at the next start.
\<close>

lemma config_inv_free [simp]:
  "config_inv (c\<lparr>cf_ntp := a\<rparr>) \<longleftrightarrow> config_inv c" "config_inv (c\<lparr>cf_wifi := wifi\<rparr>) \<longleftrightarrow> config_inv c"
  "config_inv (c\<lparr>cf_radio := r\<rparr>) \<longleftrightarrow> config_inv c" "config_inv (c\<lparr>cf_duty_cycle_percent := n\<rparr>) \<longleftrightarrow> config_inv c"
  "config_inv (c\<lparr>cf_repeat_enabled := b\<rparr>) \<longleftrightarrow> config_inv c" "config_inv (c\<lparr>cf_region_capture := b\<rparr>) \<longleftrightarrow> config_inv c"
  "config_inv (c\<lparr>cf_flood_advert_interval_hours := n\<rparr>) \<longleftrightarrow> config_inv c"
  "config_inv (c\<lparr>cf_loop_detection := ld\<rparr>) \<longleftrightarrow> config_inv c"
  by (simp_all add: config_inv_def)

lemma config_inv_set:
  "config_inv c \<Longrightarrow> n \<le> 10 \<Longrightarrow> config_inv (c\<lparr>cf_tier := n\<rparr>)"
  "config_inv c \<Longrightarrow> n \<le> 63 \<Longrightarrow> config_inv (c\<lparr>cf_flood_max_unscoped_hops := n\<rparr>)"
  "config_inv c \<Longrightarrow> n \<le> 63 \<Longrightarrow> config_inv (c\<lparr>cf_flood_max_advert_hops := n\<rparr>)"
  "config_inv c \<Longrightarrow> n \<le> 2 \<Longrightarrow> config_inv (c\<lparr>cf_path_hash_mode := n\<rparr>)"
  "config_inv c \<Longrightarrow> regions_inv m \<Longrightarrow> config_inv (c\<lparr>cf_regions := m\<rparr>)"
  "config_inv c \<Longrightarrow> acl_inv a \<Longrightarrow> config_inv (c\<lparr>cf_acl := a\<rparr>)"
  "config_inv c \<Longrightarrow> private_key_wf k \<Longrightarrow> config_inv (c\<lparr>cf_private_key := k\<rparr>)"
  "config_inv c \<Longrightarrow> config_inv (c\<lparr>cf_owner_info := fit_owner_info s\<rparr>)"
  "config_inv c \<Longrightarrow> config_inv (c\<lparr>cf_remote_cli_password := fit_password s\<rparr>)"
  "config_inv c \<Longrightarrow> config_inv (c\<lparr>cf_advert_interval_minutes := clamp_advert_interval n\<rparr>)"
  "config_inv c \<Longrightarrow> fit_node_name s = Ok name \<Longrightarrow> config_inv (c\<lparr>cf_node_name := name\<rparr>)"
  using fit_owner_info_le fit_password_bounds fit_node_name_OkD(1,2) [of s name]
  by (auto simp: config_inv_def clamp_advert_interval_def)

lemma config_invD:
  "config_inv c \<Longrightarrow> regions_inv (cf_regions c)" "config_inv c \<Longrightarrow> acl_inv (cf_acl c)"
  "config_inv c \<Longrightarrow> private_key_wf (cf_private_key c)"
  by (simp_all add: config_inv_def)

section \<open>Decoding\<close>

lemma decode_line_inv:
  assumes "config_inv (fst st)" and "decode_line source l st = Some st'"
  shows "config_inv (fst st')"
proof -
  have "st' = st \<or> (\<exists>key value. apply_setting source key value st = Some st')"
    using assms(2) by (fastforce simp: decode_line_def Let_def bind_eq_Some_conv split: if_splits)
  then show ?thesis using assms(1) apply_setting_inv by blast
qed

lemma decode_lines_inv:
  "config_inv (fst st) \<Longrightarrow> decode_lines source ls st = Some st' \<Longrightarrow> config_inv (fst st')"
proof (induction ls arbitrary: st)
  case (Cons l ls)
  then obtain st1 where "decode_line source l st = Some st1" and "decode_lines source ls st1 = Some st'"
    by (cases "decode_line source l st") simp_all
  then show ?case using Cons.IH decode_line_inv [OF Cons.prems(1)] by blast
qed simp

lemma decode_config_layer_inv:
  assumes "config_inv defaults" and "decode_config_layer C data defaults source = Some c"
  shows "config_inv c"
proof -
  obtain src config saw where "decode_lines source (str_lines src) (defaults, False) = Some (config, saw)"
    and c: "c = config \<or> (\<exists>s name. fit_node_name s = Ok name \<and> c = config\<lparr>cf_node_name := name\<rparr>)"
    using assms(2) by (fastforce simp: decode_config_layer_def bind_eq_Some_conv res_ok_Some_iff split: if_splits)
  then have "config_inv config" using decode_lines_inv [of "(defaults, False)"] assms(1) by fastforce
  then show ?thesis using c config_inv_set(11) by blast
qed

lemma generated_name_inv:
  "(case fit_node_name s of Inr name \<Rightarrow> name | Inl _ \<Rightarrow> lit ''Repeater'') \<noteq> []
   \<and> str_len (case fit_node_name s of Inr name \<Rightarrow> name | Inl _ \<Rightarrow> lit ''Repeater'') \<le> 31"
proof (cases "fit_node_name s")
  case (Inr name)
  then show ?thesis using fit_node_name_OkD(1,2) [OF Inr] by simp
qed (simp add: lit_def len_utf8_def)

lemma empty_config_inv: "private_key_wf key \<Longrightarrow> config_inv (empty_config C key)"
  using generated_name_inv [of "generated_node_name C key"]
  by (auto simp: config_inv_def empty_config_def acl_inv_empty regions_inv_new)

lemma default_inv:
  assumes "private_key_wf key" and "default_with_private_key C profile key = Ok d"
  shows "config_inv d"
proof -
  obtain b where "decode_config_layer C (str_bytes defaults_conf) (empty_config C key) FromDefaults = Some b"
    and "decode_config_layer C (str_bytes profile) b FromProfile = Some d"
    using assms(2) by (auto simp: default_with_private_key_def with_defaults_text_def bind_eq_Some_conv
        split: option.splits)
  then show ?thesis
    using decode_config_layer_inv [OF decode_config_layer_inv [OF empty_config_inv [OF assms(1)]]] by blast
qed

lemma from_app_config_inv: "config_inv c \<Longrightarrow> config_inv (from_app_config c)"
  using fit_password_bounds fit_node_name_OkD(1,2) [of "cf_node_name c"]
  by (auto simp: config_inv_def from_app_config_def stored_config.defs lit_def len_utf8_def split: sum.split)

section \<open>Updates\<close>

text \<open>The build refuses an image whose profile does not decode, so it decodes for every device.\<close>

definition profile_ok :: "crypto \<Rightarrow> rstr \<Rightarrow> bool" where
  "profile_ok C profile \<longleftrightarrow> (\<forall>key. private_key_wf key \<longrightarrow> no_panic (default_with_private_key C profile key))"

definition safe_update :: "(app_config \<Rightarrow> app_config \<times> unit config_result) \<Rightarrow> bool" where
  "safe_update f \<longleftrightarrow> (\<forall>c. config_inv c \<longrightarrow>
     config_inv (fst (f c)) \<and> ac_identity (fst (f c)) = ac_identity c \<and> no_panic (snd (f c)))"

definition safe_setter :: "(app_config \<Rightarrow> app_config config_result) \<Rightarrow> bool" where
  "safe_setter f \<longleftrightarrow> (\<forall>c. config_inv c \<longrightarrow> no_panic (f c)
     \<and> (\<forall>c'. f c = Ok c' \<longrightarrow> config_inv c' \<and> ac_identity c' = ac_identity c))"

named_theorems safe_updates "updates that keep the configuration well formed"

lemma safe_setterD:
  "safe_setter f \<Longrightarrow> config_inv c \<Longrightarrow> f c = Ok c' \<Longrightarrow> config_inv c' \<and> ac_identity c' = ac_identity c"
  "safe_setter f \<Longrightarrow> config_inv c \<Longrightarrow> no_panic (f c)"
  unfolding safe_setter_def by blast+

lemma set_text_safe [safe_updates]:
  "safe_setter (\<lambda>c. set_ntp c v)" "safe_setter (\<lambda>c. set_wifi_ssid c v)" "safe_setter (\<lambda>c. set_wifi_password c v)"
proof -
  have "no_panic (validate_ntp_host v)" unfolding validate_ntp_host_def by (intro no_panic_intros)
  then show "safe_setter (\<lambda>c. set_ntp c v)"
    by (auto simp: safe_setter_def set_ntp_def and_then_Ok_iff intro!: no_panic_intros)
qed (auto simp: safe_setter_def set_wifi_ssid_def set_wifi_password_def)

lemma no_panic_fit_name_chars: "no_panic (fit_name_chars cs out)"
  by (induction cs out rule: fit_name_chars.induct) (auto simp: no_panic_def)

lemma set_node_name_safe [safe_updates]: "safe_setter (\<lambda>c. set_node_name c v)"
proof -
  have "no_panic (fit_node_name v)"
    by (auto simp: fit_node_name_def Let_def intro!: no_panic_intros no_panic_fit_name_chars)
  then show ?thesis
    by (auto simp: safe_setter_def set_node_name_def config_inv_set and_then_Ok_iff intro!: no_panic_intros)
qed

lemma set_number_safe [safe_updates]:
  "safe_setter (\<lambda>c. set_tier c n)" "safe_setter (\<lambda>c. set_duty_cycle_percent c n)"
  "safe_setter (\<lambda>c. set_flood_max_unscoped_hops c n)" "safe_setter (\<lambda>c. set_flood_max_advert_hops c n)"
  "safe_setter (\<lambda>c. set_path_hash_mode c n)"
  by (auto simp: safe_setter_def set_tier_def set_duty_cycle_percent_def set_flood_max_unscoped_hops_def
      set_flood_max_advert_hops_def set_path_hash_mode_def validate_flood_max_hops_def
      validate_path_hash_mode_def config_inv_set no_panic_def and_then_Ok_iff and_then_Inl_iff split: if_splits)

lemma set_location_safe [safe_updates]:
  "safe_setter (\<lambda>c. set_latitude_microdegrees c v)" "safe_setter (\<lambda>c. set_longitude_microdegrees c v)"
  by (auto simp: safe_setter_def set_latitude_microdegrees_def set_longitude_microdegrees_def
      validate_latitude_def validate_longitude_def coordinate_limits config_inv_def no_panic_def
      and_then_Ok_iff and_then_Inl_iff split: if_splits option.splits)

lemma no_panic_check_radio: "no_panic (check_radio r)"
  by (auto simp: check_radio_def radio_validate_def no_panic_def split: sum.splits if_splits)

lemma set_radio_safe [safe_updates]: "safe_setter (\<lambda>c. set_radio c r)"
  using no_panic_check_radio
  by (auto simp: safe_setter_def set_radio_def and_then_Ok_iff intro!: no_panic_intros)

text \<open>Regions never panic.\<close>

lemma no_panic_put_region: "no_panic (put_region m name)"
  by (auto simp: put_region_def normalize_region_name_def Let_def intro!: no_panic_intros split: option.split)

lemma no_panic_set_flood_allowed: "no_panic (set_flood_allowed m name b)"
  by (auto simp: set_flood_allowed_def Let_def intro!: no_panic_intros split: option.split)

lemma no_panic_set_default: "no_panic (set_default m name)"
  by (auto simp: set_default_def Let_def intro!: no_panic_intros no_panic_set_flood_allowed split: option.split)

lemma no_panic_lift_region [simp]: "no_panic (lift_region r) \<longleftrightarrow> no_panic r"
  by (auto simp: lift_region_def no_panic_def split: sum.split fault.split)

lemma lift_region_Ok_iff [simp]: "lift_region r = Ok x \<longleftrightarrow> r = Ok x"
  by (auto simp: lift_region_def split: sum.split fault.split)

lemma put_region_safe [safe_updates]: "safe_setter (\<lambda>c. config_put_region c name)"
  by (auto simp: safe_setter_def config_put_region_def and_then_Ok_iff no_panic_put_region
      intro!: no_panic_intros intro: config_inv_set(5) put_region_inv config_invD)

lemma set_region_flood_safe [safe_updates]: "safe_setter (\<lambda>c. set_region_flood_allowed c name b)"
  by (auto simp: safe_setter_def set_region_flood_allowed_def and_then_Ok_iff no_panic_set_flood_allowed
      intro!: no_panic_intros intro: config_inv_set(5) set_flood_allowed_inv config_invD)

lemma remove_region_safe [safe_updates]:
  assumes "profile_ok C profile"
  shows "safe_setter (\<lambda>c. config_remove_region C profile c name)"
proof -
  have "no_panic (remove_region m name)" for m
    by (auto simp: remove_region_def Let_def intro!: no_panic_intros split: option.split)
  then have "no_panic (config_remove_region C profile c name)" if "config_inv c" for c
    using assms that by (auto simp: config_remove_region_def profile_ok_def config_invD intro!: no_panic_intros)
  moreover have "config_inv c' \<and> ac_identity c' = ac_identity c"
    if c: "config_inv c" and r: "config_remove_region C profile c name = Ok c'" for c c'
  proof -
    obtain m where m: "remove_region (cf_regions c) name = Ok m" and c': "c' = c\<lparr>cf_regions := m\<rparr>"
      using r by (auto simp: config_remove_region_def and_then_Ok_iff split: if_splits)
    show ?thesis
      using config_inv_set(5) [OF c remove_region_inv [OF config_invD(1) [OF c] m]] by (simp add: c')
  qed
  ultimately show ?thesis unfolding safe_setter_def by blast
qed

lemma set_default_region_safe [safe_updates]: "safe_update (\<lambda>c. set_default_region c name)"
proof -
  have "config_inv (fst (set_default_region c name)) \<and> ac_identity (fst (set_default_region c name)) = ac_identity c
      \<and> no_panic (snd (set_default_region c name))" if c: "config_inv c" for c
  proof -
    define created where "created = (case name of None \<Rightarrow> Ok c
       | Some n \<Rightarrow> if n \<noteq> lit ''*'' \<and> find_by_name_prefix (cf_regions c) n = None then config_put_region c n else Ok c)"
    have "no_panic created" and ok: "created = Ok c' \<Longrightarrow> config_inv c' \<and> ac_identity c' = ac_identity c" for c'
      using c safe_setterD [OF put_region_safe c] by (auto simp: created_def split: option.splits if_splits)
    then show ?thesis
    proof (cases created)
      case (Inr c1)
      then have c1: "config_inv c1" "ac_identity c1 = ac_identity c" using ok by auto
      have "no_panic (lift_region (set_default (cf_regions c1) name))" by (simp add: no_panic_set_default)
      then show ?thesis
        using c1 set_default_inv [of "cf_regions c1" name] Inr
        by (cases "set_default (cf_regions c1) name")
          (auto simp: set_default_region_def Let_def created_def [symmetric] config_inv_set config_invD
            no_panic_def lift_region_def split: fault.split)
    qed (auto simp: set_default_region_def Let_def created_def [symmetric] c no_panic_def)
  qed
  then show ?thesis by (simp add: safe_update_def)
qed

lemma set_acl_rule_safe [safe_updates]:
  assumes "profile_ok C profile"
  shows "safe_setter (\<lambda>c. set_acl_rule C profile c key role)"
proof -
  have "no_panic (encode_config_text C profile (from_app_config c))" if "config_inv c" for c :: app_config
    using from_app_config_inv [OF that] assms
    by (auto simp: encode_config_text_def profile_ok_def config_inv_def intro!: no_panic_intros)
  moreover have "config_inv (c\<lparr>cf_acl := a\<rparr>)" if "config_inv c" "acl_set (cf_acl c) key role = Some a"
    for c :: app_config and a
    using that acl_set_inv [of "cf_acl c" key role a] by (simp add: config_inv_set config_invD)
  ultimately show ?thesis
    by (auto simp: safe_setter_def set_acl_rule_def Let_def and_then_Ok_iff intro!: no_panic_intros
        split: option.splits if_splits)
qed

lemma set_transmit_power_safe [safe_updates]: "safe_update (\<lambda>c. set_transmit_power_dbm c v)"
  using no_panic_check_radio by (simp add: safe_update_def set_transmit_power_dbm_def Let_def)

section \<open>Resets\<close>

lemma unset_field_safe:
  assumes "config_inv c" and "config_inv d"
  shows "config_inv (fst (unset_field c d name)) \<and> ac_identity (fst (unset_field c d name)) = ac_identity c
    \<and> no_panic (snd (unset_field c d name))"
proof (cases "name = lit ''region.default''")
  case True
  then show ?thesis
    using assms(1) set_default_region_safe [of "map_option re_name (default_region (cf_regions d))"]
    by (simp add: unset_field_def safe_update_def lit_inject)
next
  case False
  then show ?thesis using assms by (simp add: unset_field_def config_inv_def)
qed

lemma config_unset_safe [safe_updates]:
  assumes "profile_ok C profile"
  shows "safe_update (\<lambda>c. config_unset C profile c name)"
proof -
  have "config_inv (fst (config_unset C profile c name))
      \<and> ac_identity (fst (config_unset C profile c name)) = ac_identity c
      \<and> no_panic (snd (config_unset C profile c name))" if c: "config_inv c" for c
  proof (cases "strip_prefix name (lit ''acl '')")
    case None
    have "private_key_wf (cf_private_key c)" using c by (simp add: config_inv_def)
    then show ?thesis
      using None c assms unset_field_safe [OF c] default_inv [of "cf_private_key c" C profile]
      by (auto simp: config_unset_def profile_ok_def no_panic_def split: sum.split)
  next
    case (Some key)
    then show ?thesis
      using c safe_setterD [OF set_acl_rule_safe [OF assms, of "trim key" "lit ''unset''"] c]
      by (auto simp: config_unset_def no_panic_def split: sum.split)
  qed
  then show ?thesis by (simp add: safe_update_def)
qed

end
