(* ===== verification/Config_File.thy ===== *)
theory Config_File
  imports Config_Laws
begin

text \<open>
  Saving and loading. The file holds only what differs from the defaults of its own key, one line a
  setting; it is read over the defaults of a fresh key. For a device without a network profile and
  without changes to the region table, every field is shown to survive.
\<close>

section \<open>Lines\<close>

text \<open>A value survives the trimming of its line when neither end is whitespace.\<close>

definition neat :: "rstr \<Rightarrow> bool" where
  "neat v \<longleftrightarrow> valid_str v \<and> (v = [] \<or> \<not> is_whitespace (hd v) \<and> \<not> is_whitespace (last v))"

lemma neat_trim: "neat v \<Longrightarrow> trim v = v"
  by (rule trim_id) (simp add: neat_def)

lemma neat_plain: "plain v \<Longrightarrow> neat v"
proof -
  assume p: "plain v"
  then have "\<forall>c \<in> set v. is_scalar c \<and> \<not> is_whitespace c"
    by (auto simp: plain_def list_all_iff is_scalar_def is_whitespace_def)
  then show ?thesis by (auto simp: neat_def valid_str_def list_all_iff)
qed

lemma plain_append [simp]: "plain (s @ t) \<longleftrightarrow> plain s \<and> plain t"
  by (simp add: plain_def)

lemma plain_digits: "plain (show_nat n)" "plain (pad6 k)" "plain (show_int i)" "plain (hex_bytes bs)"
proof -
  show n: "plain (show_nat n)" for n
    using show_nat_digits [of n] by (auto simp: plain_def list_all_iff is_digit_def)
  show "plain (pad6 k)" using n [of k] by (auto simp: pad6_def plain_def list_all_iff)
  show "plain (show_int i)" using n by (simp add: show_int_def plain_def)
  have "hex_digit k \<noteq> 92 \<and> 33 \<le> hex_digit k \<and> hex_digit k < 127" if "k < 16" for k
    using that by (auto simp: hex_digit_def)
  then show "plain (hex_bytes bs)"
    using unat_u8_16 by (induction bs) (auto simp: plain_def hex_bytes_def hex_byte_def)
qed

lemma plain_coordinate: "plain (write_optional_coordinate v)"
  using plain_digits by (simp add: write_optional_coordinate_def plain_def split: option.split)

definition one_line :: "rstr \<Rightarrow> bool" where
  "one_line v \<longleftrightarrow> 10 \<notin> set v \<and> 13 \<notin> set v"

lemma one_line_append [simp]: "one_line (s @ t) \<longleftrightarrow> one_line s \<and> one_line t"
  by (auto simp: one_line_def)

lemma one_line_plain: "plain v \<Longrightarrow> one_line v"
  by (auto simp: one_line_def plain_def list_all_iff)

lemma one_line_escaped: "one_line (write_escaped_value v)"
  using escaped_no_newline by (simp add: one_line_def)

lemma neat_escaped: "neat v \<Longrightarrow> neat (write_escaped_value v)"
proof -
  assume v: "neat v"
  have e: "escape_char c \<noteq> [] \<and> valid_str (escape_char c)
      \<and> (\<not> is_whitespace c \<longrightarrow> \<not> is_whitespace (hd (escape_char c)) \<and> \<not> is_whitespace (last (escape_char c)))"
    if "is_scalar c" for c
    using that by (auto simp: escape_char_def is_whitespace_def valid_str_def is_scalar_def)
  have sc: "\<forall>c \<in> set v. is_scalar c" using v by (simp add: neat_def valid_str_def list_all_iff)
  show ?thesis
  proof (cases "v = []")
    case False
    obtain a x where ax: "v = a # x" using False by (cases v) auto
    obtain y b where yb: "v = y @ [b]" using False by (cases v rule: rev_cases) auto
    have "hd v = a" "last v = b" by (simp add: ax, simp add: yb)
    then have ws: "\<not> is_whitespace a" "\<not> is_whitespace b" using v False by (auto simp: neat_def)
    have w: "write_escaped_value v = escape_char a @ concat (map escape_char x)"
      "write_escaped_value v = concat (map escape_char y) @ escape_char b"
      by (simp add: write_escaped_value_def ax) (simp add: write_escaped_value_def yb)
    have "a \<in> set v" "b \<in> set v" by (simp add: ax, simp add: yb)
    then have "is_scalar a" "is_scalar b" using sc by auto
    then have "\<not> is_whitespace (hd (write_escaped_value v))" "\<not> is_whitespace (last (write_escaped_value v))"
      using w e ws by (metis hd_append2) (metis w e ws last_appendR \<open>is_scalar b\<close>)
    moreover have "valid_str (write_escaped_value v)"
      using e sc by (auto simp: write_escaped_value_def valid_str_def list_all_iff)
    ultimately show ?thesis by (simp add: neat_def)
  qed (simp add: write_escaped_value_def neat_def)
qed

text \<open>How one line reads back.\<close>

definition key_ok :: "string \<Rightarrow> bool" where
  "key_ok k \<longleftrightarrow> plain (lit k) \<and> k \<noteq> [] \<and> hd k \<noteq> CHR ''#'' \<and> CHR ''='' \<notin> set k"

lemma decode_neat:
  assumes "plain k" and "k \<noteq> []" and "hd k \<noteq> 35" and "61 \<notin> set k" and v: "neat v"
  shows "decode_line source (k @ 61 # v) st
    = (case unescape_value v of None \<Rightarrow> None | Some x \<Rightarrow> apply_setting source k x st)"
proof -
  have "\<not> is_whitespace (hd k)" using assms(1,2) by (cases k) (auto simp: plain_def is_whitespace_def)
  then have "trim (k @ 61 # v) = k @ 61 # v"
    using assms(2) v by (intro trim_id) (auto simp: neat_def is_whitespace_def)
  moreover have "\<not> starts_with (k @ 61 # v) (lit ''#'')"
    using assms(2,3) by (cases k) (auto simp: lit_def)
  ultimately show ?thesis
    using assms(1,2,4) by (simp add: decode_line_def Let_def split_once_append plain_trim neat_trim [OF v] bind_eq_None_conv
        split: option.split)
qed

lemma decode_key:
  assumes k: "key_ok k" and v: "neat v" and x: "unescape_value v = Some x"
  shows "decode_line source (lit (k @ ''='') @ v) st = apply_setting source (lit k) x st"
proof -
  have e: "of_char c = (61 :: nat) \<longleftrightarrow> c = CHR ''=''" "of_char c = (35 :: nat) \<longleftrightarrow> c = CHR ''#''" for c
    using of_char_eq_iff [of c "CHR ''=''", where ?'a = nat] of_char_eq_iff [of c "CHR ''#''", where ?'a = nat]
    by simp_all
  have l: "lit (k @ ''='') @ v = lit k @ 61 # v" by (simp add: lit_def)
  have "lit k \<noteq> []" "plain (lit k)" using k by (simp_all add: key_ok_def lit_def)
  moreover have "hd (lit k) \<noteq> 35" using k by (simp add: key_ok_def lit_def hd_map e)
  moreover have "61 \<notin> set (lit k)"
  proof
    assume "61 \<in> set (lit k)"
    then obtain c where "c \<in> set k" "of_char c = (61 :: nat)" unfolding lit_def by auto
    then show False using k by (simp add: e key_ok_def)
  qed
  ultimately show ?thesis
    unfolding l using v x by (simp add: decode_neat)
qed

lemma unescape_plain_value: "plain v \<Longrightarrow> unescape_value v = Some v"
  by (simp add: unescape_value_def unescape_plain)

text \<open>A line that is written only when the value differs from the default.\<close>

definition reads :: "rstr list \<Rightarrow> stored_config \<times> bool \<Rightarrow> stored_config \<times> bool \<Rightarrow> bool" where
  "reads ls st st' \<longleftrightarrow> decode_lines FromStorage ls st = Some st'"

lemma reads_append: "reads ls st st' \<Longrightarrow> reads ls' st' st'' \<Longrightarrow> reads (ls @ ls') st st''"
  by (simp add: reads_def decode_lines_append)

lemma reads_optional:
  assumes "key_ok k" and "neat v" and "unescape_value v = Some x"
    and "apply_setting FromStorage (lit k) x st = Some st'" and "\<not> b \<Longrightarrow> st' = st"
  shows "reads (if b then [lit (k @ ''='') @ v] else []) st st'"
  using assms decode_key [OF assms(1-3), of FromStorage st] by (auto simp: reads_def)

section \<open>Values\<close>

lemma parse_show_int: "- (2 ^ 31) \<le> n \<Longrightarrow> n < 2 ^ 31 \<Longrightarrow> parse_i32 (show_int n) = Some n"
proof (cases "n < 0")
  case True
  assume "- (2 ^ 31) \<le> n"
  then show ?thesis
    using True show_nat_digits [of "nat (- n)"]
    by (simp add: show_int_def parse_i32_def digits_value_show_nat nat_le_iff)
next
  case False
  assume "n < 2 ^ 31"
  then have "parse_unsigned (2 ^ 31 - 1) (show_nat (nat n)) = Some (nat n)"
    using False by (intro parse_show_nat) (simp add: nat_le_iff)
  moreover obtain c ds where "show_nat (nat n) = c # ds" "is_digit c"
    using show_nat_digits [of "nat n"] by (cases "show_nat (nat n)") auto
  ultimately show ?thesis
    using False by (auto simp: show_int_def parse_i32_def is_digit_def)
qed

lemma fit_name_chars_id:
  "\<forall>c \<in> set cs. c < 128 \<and> \<not> forbidden_name_char c \<Longrightarrow> str_len out + length cs \<le> 31 \<Longrightarrow>
     fit_name_chars cs out = Ok (out @ cs)"
  by (induction cs out rule: fit_name_chars.induct) (auto simp: MAX_NODE_NAME_LEN_def len_utf8_def)

lemma generated_name_fits: "fit_node_name (generated_node_name C key) = Ok (generated_node_name C key)"
proof -
  let ?pk = "take 3 (id_public_key (identity_from_private_key C key))"
  let ?n = "generated_node_name C key"
  have n: "?n = lit ''Repeater-'' @ hex_bytes ?pk" by (simp add: generated_node_name_def)
  have p: "plain ?n" unfolding n using plain_digits by (simp add: plain_def lit_def)
  have "\<not> forbidden_name_char (hex_digit k)" if "k < 16" for k
    using that by (auto simp: hex_digit_def forbidden_name_char_def)
  then have "\<forall>c \<in> set (hex_bytes bs). \<not> forbidden_name_char c" for bs
    using unat_u8_16 by (induction bs) (auto simp: hex_bytes_def hex_byte_def)
  then have "\<forall>c \<in> set ?n. c < 128 \<and> \<not> forbidden_name_char c"
    using hex_bytes_chars by (auto simp: n lit_def forbidden_name_char_def)
  moreover have "length ?n \<le> 15"
    using length_hex_bytes [of ?pk] by (simp add: n lit_def)
  moreover have "?n \<noteq> []" by (simp add: n lit_def)
  ultimately show ?thesis
    using fit_name_chars_id [of ?n "[]"] by (simp add: fit_node_name_def plain_trim [OF p])
qed

section \<open>Settings read back\<close>

text \<open>What the file can hold: texts without whitespace at their ends, a host of visible ASCII characters, and
  numbers of their width. Every setter but those of texts guarantees it.\<close>

definition storable :: "stored_config \<Rightarrow> bool" where
  "storable c \<longleftrightarrow> config_inv c \<and> fit_node_name (cf_node_name c) = Ok (cf_node_name c) \<and> neat (cf_node_name c)
     \<and> fit_owner_info (cf_owner_info c) = cf_owner_info c \<and> neat (cf_owner_info c)
     \<and> fit_password (cf_remote_cli_password c) = cf_remote_cli_password c \<and> neat (cf_remote_cli_password c)
     \<and> validate_ntp_host (cf_ntp c) = Ok () \<and> plain (cf_ntp c)
     \<and> neat (wf_ssid (cf_wifi c)) \<and> neat (wf_password (cf_wifi c))
     \<and> rc_receive_frequency_hz (cf_radio c) < 2 ^ 32
     \<and> - (2 ^ 31) \<le> rc_transmit_power_dbm (cf_radio c) \<and> rc_transmit_power_dbm (cf_radio c) < 2 ^ 31
     \<and> cf_duty_cycle_percent c \<le> 255 \<and> cf_flood_advert_interval_hours c < 2 ^ 32
     \<and> cf_advert_interval_minutes c < 2 ^ 32
     \<and> clamp_advert_interval (cf_advert_interval_minutes c) = cf_advert_interval_minutes c"

lemma apply_identity:
  assumes "private_key_wf key"
  shows "apply_setting FromStorage (private_key_config_key key) (hex_bytes (private_key_bytes key)) (x, saw)
    = Some (x\<lparr>cf_private_key := key\<rparr>, saw)"
proof -
  have "private_key_config_key key = lit ''identity.seed'' \<or> private_key_config_key key = lit ''identity.expanded''"
    by (cases key) simp_all
  then show ?thesis
    using private_key_round_trip [OF assms] by (elim disjE) (simp_all add: apply_setting_def)
qed

lemma apply_location:
  assumes "config_inv c"
  shows "apply_setting FromStorage (lit ''identity.lat'') (write_optional_coordinate (cf_latitude_microdegrees c)) (x, saw)
      = Some (x\<lparr>cf_latitude_microdegrees := cf_latitude_microdegrees c\<rparr>, saw)"
    and "apply_setting FromStorage (lit ''identity.lon'') (write_optional_coordinate (cf_longitude_microdegrees c)) (x, saw)
      = Some (x\<lparr>cf_longitude_microdegrees := cf_longitude_microdegrees c\<rparr>, saw)"
proof -
  have "parse_optional_coordinate (write_optional_coordinate (cf_latitude_microdegrees c))
      MIN_LATITUDE_MICRODEGREES MAX_LATITUDE_MICRODEGREES = Some (cf_latitude_microdegrees c)"
    "parse_optional_coordinate (write_optional_coordinate (cf_longitude_microdegrees c))
      MIN_LONGITUDE_MICRODEGREES MAX_LONGITUDE_MICRODEGREES = Some (cf_longitude_microdegrees c)"
    using assms by (auto intro!: coordinate_round_trip simp: coordinate_limits config_inv_def)
  then show
    "apply_setting FromStorage (lit ''identity.lat'') (write_optional_coordinate (cf_latitude_microdegrees c)) (x, saw)
      = Some (x\<lparr>cf_latitude_microdegrees := cf_latitude_microdegrees c\<rparr>, saw)"
    "apply_setting FromStorage (lit ''identity.lon'') (write_optional_coordinate (cf_longitude_microdegrees c)) (x, saw)
      = Some (x\<lparr>cf_longitude_microdegrees := cf_longitude_microdegrees c\<rparr>, saw)"
    by (simp_all add: apply_setting_def)
qed

lemma apply_texts:
  assumes "storable c"
  shows "apply_setting FromStorage (lit ''node.name'') (cf_node_name c) (x, saw)
      = Some (x\<lparr>cf_node_name := cf_node_name c\<rparr>, True)"
    and "apply_setting FromStorage (lit ''owner.info'') (cf_owner_info c) (x, saw)
      = Some (x\<lparr>cf_owner_info := cf_owner_info c\<rparr>, saw)"
    and "apply_setting FromStorage (lit ''remote.password'') (cf_remote_cli_password c) (x, saw)
      = Some (x\<lparr>cf_remote_cli_password := cf_remote_cli_password c\<rparr>, saw)"
    and "apply_setting FromStorage (lit ''ntp'') (cf_ntp c) (x, saw) = Some (x\<lparr>cf_ntp := cf_ntp c\<rparr>, saw)"
    and "apply_setting FromStorage (lit ''wifi.ssid'') (wf_ssid (cf_wifi c)) (x, saw)
      = Some (x\<lparr>cf_wifi := (cf_wifi x)\<lparr>wf_ssid := wf_ssid (cf_wifi c)\<rparr>\<rparr>, saw)"
    and "apply_setting FromStorage (lit ''wifi.pass'') (wf_password (cf_wifi c)) (x, saw)
      = Some (x\<lparr>cf_wifi := (cf_wifi x)\<lparr>wf_password := wf_password (cf_wifi c)\<rparr>\<rparr>, saw)"
  using assms by (simp_all add: storable_def apply_setting_def Let_def)

lemma apply_switches:
  "apply_setting FromStorage (lit ''wifi.telnet'') (bool_text b) (x, saw)
     = Some (x\<lparr>cf_wifi := (cf_wifi x)\<lparr>wf_telnet := b\<rparr>\<rparr>, saw)"
  "apply_setting FromStorage (lit ''repeat'') (repeat_text b) (x, saw) = Some (x\<lparr>cf_repeat_enabled := b\<rparr>, saw)"
  "apply_setting FromStorage (lit ''region.capture'') (bool_text b) (x, saw) = Some (x\<lparr>cf_region_capture := b\<rparr>, saw)"
  "apply_setting FromStorage (lit ''loop.detect'') (loop_as_str m) (x, saw) = Some (x\<lparr>cf_loop_detection := m\<rparr>, saw)"
  by (simp_all add: apply_setting_def Let_def parse_bool_text parse_repeat_text loop_round_trip)

lemma apply_radio:
  assumes "storable c"
  shows "apply_setting FromStorage (lit ''radio.frequency_hz'') (show_nat (rc_receive_frequency_hz (cf_radio c))) (x, saw)
      = Some (x\<lparr>cf_radio := (cf_radio x)\<lparr>rc_receive_frequency_hz := rc_receive_frequency_hz (cf_radio c)\<rparr>\<rparr>, saw)"
    and "apply_setting FromStorage (lit ''radio.bandwidth_hz'') (show_nat (bw_hz (rc_bandwidth (cf_radio c)))) (x, saw)
      = Some (x\<lparr>cf_radio := (cf_radio x)\<lparr>rc_bandwidth := rc_bandwidth (cf_radio c)\<rparr>\<rparr>, saw)"
    and "apply_setting FromStorage (lit ''radio.spreading_factor'') (show_nat (sf_factor (rc_spreading_factor (cf_radio c)))) (x, saw)
      = Some (x\<lparr>cf_radio := (cf_radio x)\<lparr>rc_spreading_factor := rc_spreading_factor (cf_radio c)\<rparr>\<rparr>, saw)"
    and "apply_setting FromStorage (lit ''radio.coding_rate'') (show_nat (cr_denominator (rc_coding_rate (cf_radio c)))) (x, saw)
      = Some (x\<lparr>cf_radio := (cf_radio x)\<lparr>rc_coding_rate := rc_coding_rate (cf_radio c)\<rparr>\<rparr>, saw)"
    and "apply_setting FromStorage (lit ''radio.tx_power_dbm'') (show_int (rc_transmit_power_dbm (cf_radio c))) (x, saw)
      = Some (x\<lparr>cf_radio := (cf_radio x)\<lparr>rc_transmit_power_dbm := rc_transmit_power_dbm (cf_radio c)\<rparr>\<rparr>, saw)"
    and "apply_setting FromStorage (lit ''radio.duty_cycle_percent'') (show_nat (cf_duty_cycle_percent c)) (x, saw)
      = Some (x\<lparr>cf_duty_cycle_percent := cf_duty_cycle_percent c\<rparr>, saw)"
proof -
  have p: "parse_unsigned 4294967295 (show_nat (rc_receive_frequency_hz (cf_radio c))) = Some (rc_receive_frequency_hz (cf_radio c))"
    "parse_unsigned 4294967295 (show_nat (bw_hz (rc_bandwidth (cf_radio c)))) = Some (bw_hz (rc_bandwidth (cf_radio c)))"
    "parse_unsigned 255 (show_nat (sf_factor (rc_spreading_factor (cf_radio c)))) = Some (sf_factor (rc_spreading_factor (cf_radio c)))"
    "parse_unsigned 255 (show_nat (cr_denominator (rc_coding_rate (cf_radio c)))) = Some (cr_denominator (rc_coding_rate (cf_radio c)))"
    "parse_unsigned 255 (show_nat (cf_duty_cycle_percent c)) = Some (cf_duty_cycle_percent c)"
    "parse_i32 (show_int (rc_transmit_power_dbm (cf_radio c))) = Some (rc_transmit_power_dbm (cf_radio c))"
    using assms bw_hz_range [of "rc_bandwidth (cf_radio c)"] sf_factor_range [of "rc_spreading_factor (cf_radio c)"]
      cr_denominator_range [of "rc_coding_rate (cf_radio c)"]
    by (auto intro!: parse_show_nat parse_show_int simp: storable_def)
  have q: "sf_from_factor (sf_factor f) = Some f" "cr_from_denominator (cr_denominator r) = Some r" for f r
    by (simp_all add: sf_round_trip cr_round_trip)
  show "apply_setting FromStorage (lit ''radio.frequency_hz'') (show_nat (rc_receive_frequency_hz (cf_radio c))) (x, saw)
      = Some (x\<lparr>cf_radio := (cf_radio x)\<lparr>rc_receive_frequency_hz := rc_receive_frequency_hz (cf_radio c)\<rparr>\<rparr>, saw)"
    "apply_setting FromStorage (lit ''radio.bandwidth_hz'') (show_nat (bw_hz (rc_bandwidth (cf_radio c)))) (x, saw)
      = Some (x\<lparr>cf_radio := (cf_radio x)\<lparr>rc_bandwidth := rc_bandwidth (cf_radio c)\<rparr>\<rparr>, saw)"
    "apply_setting FromStorage (lit ''radio.spreading_factor'') (show_nat (sf_factor (rc_spreading_factor (cf_radio c)))) (x, saw)
      = Some (x\<lparr>cf_radio := (cf_radio x)\<lparr>rc_spreading_factor := rc_spreading_factor (cf_radio c)\<rparr>\<rparr>, saw)"
    "apply_setting FromStorage (lit ''radio.coding_rate'') (show_nat (cr_denominator (rc_coding_rate (cf_radio c)))) (x, saw)
      = Some (x\<lparr>cf_radio := (cf_radio x)\<lparr>rc_coding_rate := rc_coding_rate (cf_radio c)\<rparr>\<rparr>, saw)"
    "apply_setting FromStorage (lit ''radio.tx_power_dbm'') (show_int (rc_transmit_power_dbm (cf_radio c))) (x, saw)
      = Some (x\<lparr>cf_radio := (cf_radio x)\<lparr>rc_transmit_power_dbm := rc_transmit_power_dbm (cf_radio c)\<rparr>\<rparr>, saw)"
    "apply_setting FromStorage (lit ''radio.duty_cycle_percent'') (show_nat (cf_duty_cycle_percent c)) (x, saw)
      = Some (x\<lparr>cf_duty_cycle_percent := cf_duty_cycle_percent c\<rparr>, saw)"
    by (simp_all add: apply_setting_def Let_def p q bw_round_trip)
qed

lemma apply_numbers:
  assumes "storable c"
  shows "apply_setting FromStorage (lit ''flood.max.unscoped'') (show_nat (cf_flood_max_unscoped_hops c)) (x, saw)
      = Some (x\<lparr>cf_flood_max_unscoped_hops := cf_flood_max_unscoped_hops c\<rparr>, saw)"
    and "apply_setting FromStorage (lit ''flood.max.advert'') (show_nat (cf_flood_max_advert_hops c)) (x, saw)
      = Some (x\<lparr>cf_flood_max_advert_hops := cf_flood_max_advert_hops c\<rparr>, saw)"
    and "apply_setting FromStorage (lit ''advert.interval'') (show_nat (cf_advert_interval_minutes c)) (x, saw)
      = Some (x\<lparr>cf_advert_interval_minutes := cf_advert_interval_minutes c\<rparr>, saw)"
    and "apply_setting FromStorage (lit ''flood.advert.interval'') (show_nat (cf_flood_advert_interval_hours c)) (x, saw)
      = Some (x\<lparr>cf_flood_advert_interval_hours := cf_flood_advert_interval_hours c\<rparr>, saw)"
    and "apply_setting FromStorage (lit ''path.hash.mode'') (show_nat (cf_path_hash_mode c)) (x, saw)
      = Some (x\<lparr>cf_path_hash_mode := cf_path_hash_mode c\<rparr>, saw)"
    and "apply_setting FromStorage (lit ''tier'') (show_nat (cf_tier c)) (x, saw)
      = Some (x\<lparr>cf_tier := cf_tier c\<rparr>, saw)"
  using assms
  by (simp_all add: storable_def config_inv_def apply_setting_def Let_def parse_show_nat
      parse_flood_max_hops_def parse_path_hash_mode_def validate_flood_max_hops_def validate_path_hash_mode_def
      plain_trim plain_digits)

section \<open>The whole file\<close>

text \<open>A field of the file: whether it is written, its key, its text, and what reading it does.\<close>

type_synonym file_field = "bool \<times> string \<times> rstr \<times> (stored_config \<Rightarrow> stored_config)"

definition field_lines :: "file_field \<Rightarrow> rstr list" where
  "field_lines fd = (case fd of (b, k, v, f) \<Rightarrow> if b then [lit (k @ ''='') @ v] else [])"

definition field_ok :: "file_field \<Rightarrow> bool" where
  "field_ok fd \<longleftrightarrow> (case fd of (b, k, v, f) \<Rightarrow> key_ok k \<and> neat v \<and> one_line v \<and>
     (\<exists>x. unescape_value v = Some x \<and> (\<forall>s saw. apply_setting FromStorage (lit k) x (s, saw) = Some (f s, saw))))"

definition upon :: "bool \<Rightarrow> ('a \<Rightarrow> 'a) \<Rightarrow> 'a \<Rightarrow> 'a" where
  "upon b f s = (if b then f s else s)"

fun read_fields :: "file_field list \<Rightarrow> stored_config \<Rightarrow> stored_config" where
  "read_fields [] s = s"
| "read_fields ((b, k, v, f) # fds) s = read_fields fds (upon b f s)"

lemma reads_fields:
  "list_all field_ok fds \<Longrightarrow> reads (concat (map field_lines fds)) (s, saw) (read_fields fds s, saw)"
proof (induction fds arbitrary: s)
  case (Cons fd fds)
  obtain b k v f where fd: "fd = (b, k, v, f)" by (cases fd)
  obtain x where x: "key_ok k" "neat v" "unescape_value v = Some x"
    "\<And>s saw. apply_setting FromStorage (lit k) x (s, saw) = Some (f s, saw)"
    using Cons.prems by (auto simp: fd field_ok_def)
  have "reads (field_lines fd) (s, saw) (upon b f s, saw)"
    using decode_key [OF x(1-3)] x(4) by (auto simp: fd field_lines_def reads_def upon_def)
  then show ?case
    using reads_append Cons.IH [of "upon b f s"] Cons.prems by (auto simp: fd)
qed (simp add: reads_def)

definition acl_line :: "bytes \<times> role \<Rightarrow> rstr" where
  "acl_line kr = lit ''acl.'' @ hex_bytes (fst kr) @ lit ''='' @ role_text (snd kr)"

definition key_line :: "private_key \<Rightarrow> rstr" where
  "key_line key = private_key_config_key key @ [61] @ hex_bytes (private_key_bytes key)"

definition fields_before :: "stored_config \<Rightarrow> stored_config \<Rightarrow> file_field list" where
  "fields_before c d =
     [(cf_latitude_microdegrees c \<noteq> cf_latitude_microdegrees d, ''identity.lat'',
       write_optional_coordinate (cf_latitude_microdegrees c),
       \<lambda>s. s\<lparr>cf_latitude_microdegrees := cf_latitude_microdegrees c\<rparr>),
      (cf_longitude_microdegrees c \<noteq> cf_longitude_microdegrees d, ''identity.lon'',
       write_optional_coordinate (cf_longitude_microdegrees c),
       \<lambda>s. s\<lparr>cf_longitude_microdegrees := cf_longitude_microdegrees c\<rparr>)]"

definition fields_after :: "stored_config \<Rightarrow> stored_config \<Rightarrow> file_field list" where
  "fields_after c d =
     [(cf_owner_info c \<noteq> cf_owner_info d, ''owner.info'', write_escaped_value (cf_owner_info c),
       \<lambda>s. s\<lparr>cf_owner_info := cf_owner_info c\<rparr>),
      (cf_remote_cli_password c \<noteq> cf_remote_cli_password d, ''remote.password'',
       write_escaped_value (cf_remote_cli_password c), \<lambda>s. s\<lparr>cf_remote_cli_password := cf_remote_cli_password c\<rparr>),
      (cf_ntp c \<noteq> cf_ntp d, ''ntp'', cf_ntp c, \<lambda>s. s\<lparr>cf_ntp := cf_ntp c\<rparr>),
      (wf_ssid (cf_wifi c) \<noteq> wf_ssid (cf_wifi d), ''wifi.ssid'', write_escaped_value (wf_ssid (cf_wifi c)),
       \<lambda>s. s\<lparr>cf_wifi := (cf_wifi s)\<lparr>wf_ssid := wf_ssid (cf_wifi c)\<rparr>\<rparr>),
      (wf_password (cf_wifi c) \<noteq> wf_password (cf_wifi d), ''wifi.pass'',
       write_escaped_value (wf_password (cf_wifi c)),
       \<lambda>s. s\<lparr>cf_wifi := (cf_wifi s)\<lparr>wf_password := wf_password (cf_wifi c)\<rparr>\<rparr>),
      (wf_telnet (cf_wifi c) \<noteq> wf_telnet (cf_wifi d), ''wifi.telnet'', bool_text (wf_telnet (cf_wifi c)),
       \<lambda>s. s\<lparr>cf_wifi := (cf_wifi s)\<lparr>wf_telnet := wf_telnet (cf_wifi c)\<rparr>\<rparr>),
      (rc_receive_frequency_hz (cf_radio c) \<noteq> rc_receive_frequency_hz (cf_radio d), ''radio.frequency_hz'',
       show_nat (rc_receive_frequency_hz (cf_radio c)),
       \<lambda>s. s\<lparr>cf_radio := (cf_radio s)\<lparr>rc_receive_frequency_hz := rc_receive_frequency_hz (cf_radio c)\<rparr>\<rparr>),
      (rc_bandwidth (cf_radio c) \<noteq> rc_bandwidth (cf_radio d), ''radio.bandwidth_hz'',
       show_nat (bw_hz (rc_bandwidth (cf_radio c))),
       \<lambda>s. s\<lparr>cf_radio := (cf_radio s)\<lparr>rc_bandwidth := rc_bandwidth (cf_radio c)\<rparr>\<rparr>),
      (rc_spreading_factor (cf_radio c) \<noteq> rc_spreading_factor (cf_radio d), ''radio.spreading_factor'',
       show_nat (sf_factor (rc_spreading_factor (cf_radio c))),
       \<lambda>s. s\<lparr>cf_radio := (cf_radio s)\<lparr>rc_spreading_factor := rc_spreading_factor (cf_radio c)\<rparr>\<rparr>),
      (rc_coding_rate (cf_radio c) \<noteq> rc_coding_rate (cf_radio d), ''radio.coding_rate'',
       show_nat (cr_denominator (rc_coding_rate (cf_radio c))),
       \<lambda>s. s\<lparr>cf_radio := (cf_radio s)\<lparr>rc_coding_rate := rc_coding_rate (cf_radio c)\<rparr>\<rparr>),
      (rc_transmit_power_dbm (cf_radio c) \<noteq> rc_transmit_power_dbm (cf_radio d), ''radio.tx_power_dbm'',
       show_int (rc_transmit_power_dbm (cf_radio c)),
       \<lambda>s. s\<lparr>cf_radio := (cf_radio s)\<lparr>rc_transmit_power_dbm := rc_transmit_power_dbm (cf_radio c)\<rparr>\<rparr>),
      (cf_duty_cycle_percent c \<noteq> cf_duty_cycle_percent d, ''radio.duty_cycle_percent'',
       show_nat (cf_duty_cycle_percent c), \<lambda>s. s\<lparr>cf_duty_cycle_percent := cf_duty_cycle_percent c\<rparr>),
      (cf_repeat_enabled c \<noteq> cf_repeat_enabled d, ''repeat'', repeat_text (cf_repeat_enabled c),
       \<lambda>s. s\<lparr>cf_repeat_enabled := cf_repeat_enabled c\<rparr>),
      (cf_region_capture c \<noteq> cf_region_capture d, ''region.capture'', bool_text (cf_region_capture c),
       \<lambda>s. s\<lparr>cf_region_capture := cf_region_capture c\<rparr>),
      (cf_flood_max_unscoped_hops c \<noteq> cf_flood_max_unscoped_hops d, ''flood.max.unscoped'',
       show_nat (cf_flood_max_unscoped_hops c), \<lambda>s. s\<lparr>cf_flood_max_unscoped_hops := cf_flood_max_unscoped_hops c\<rparr>),
      (cf_flood_max_advert_hops c \<noteq> cf_flood_max_advert_hops d, ''flood.max.advert'',
       show_nat (cf_flood_max_advert_hops c), \<lambda>s. s\<lparr>cf_flood_max_advert_hops := cf_flood_max_advert_hops c\<rparr>),
      (cf_advert_interval_minutes c \<noteq> cf_advert_interval_minutes d, ''advert.interval'',
       show_nat (cf_advert_interval_minutes c), \<lambda>s. s\<lparr>cf_advert_interval_minutes := cf_advert_interval_minutes c\<rparr>),
      (cf_flood_advert_interval_hours c \<noteq> cf_flood_advert_interval_hours d, ''flood.advert.interval'',
       show_nat (cf_flood_advert_interval_hours c),
       \<lambda>s. s\<lparr>cf_flood_advert_interval_hours := cf_flood_advert_interval_hours c\<rparr>),
      (cf_path_hash_mode c \<noteq> cf_path_hash_mode d, ''path.hash.mode'', show_nat (cf_path_hash_mode c),
       \<lambda>s. s\<lparr>cf_path_hash_mode := cf_path_hash_mode c\<rparr>),
      (cf_tier c \<noteq> cf_tier d, ''tier'', show_nat (cf_tier c), \<lambda>s. s\<lparr>cf_tier := cf_tier c\<rparr>),
      (cf_loop_detection c \<noteq> cf_loop_detection d, ''loop.detect'', loop_as_str (cf_loop_detection c),
       \<lambda>s. s\<lparr>cf_loop_detection := cf_loop_detection c\<rparr>)]"

definition file_lines :: "stored_config \<Rightarrow> stored_config \<Rightarrow> rstr list" where
  "file_lines c d =
     [lit ''# MCRS app.conf'', lit ''version=1''] @ map acl_line (cf_acl c) @ [key_line (cf_private_key c)]
     @ concat (map field_lines (fields_before c d))
     @ (if cf_node_name c \<noteq> cf_node_name d then [lit (''node.name'' @ ''='') @ write_escaped_value (cf_node_name c)]
        else [])
     @ concat (map field_lines (fields_after c d))"

lemma line_if: "concat (map (\<lambda>l. l @ [10]) (if b then [l] else [])) = (if b then l @ [10] else [])"
  by simp

lemma acl_written: "acl_write_overrides a [] = concat (map (\<lambda>l. l @ [10]) (map acl_line a))"
  by (simp add: acl_write_overrides_def acl_write_config_def acl_line_def comp_def case_prod_unfold)

lemma encode_file_lines:
  assumes "cf_acl d = []" and "cf_regions c = regions_new" and "cf_regions d = regions_new"
  shows "encode_sparse_config_text c d = concat (map (\<lambda>l. l @ [10]) (file_lines c d))"
proof -
  have r: "write_config_lines_changed regions_new regions_new = []"
    by (simp add: write_config_lines_changed_def regions_new_def)
  have h: "config_header = lit ''# MCRS app.conf'' @ [10] @ lit ''version=1'' @ [10]"
    by (simp add: config_header_def setting_def APP_CONFIG_TEXT_VERSION_def lit_def show_nat.simps)
  show ?thesis
    unfolding encode_sparse_config_text_def encode_sparse_config_text_redacted_def Let_def file_lines_def
      assms acl_written r h fields_before_def fields_after_def field_lines_def key_line_def
      map_append concat_append list.map concat.simps prod.case line_if append_Nil append_Nil2 append_assoc
    by (simp only: setting_def append_Cons append_Nil append_Nil2 append_assoc if_False simp_thms)
qed

section \<open>Reading it back\<close>

lemma fields_ok:
  assumes "storable c"
  shows "list_all field_ok (fields_before c d)" and "list_all field_ok (fields_after c d)"
proof -
  have keys: "key_ok ''identity.lat''" "key_ok ''identity.lon''" "key_ok ''owner.info''" "key_ok ''remote.password''"
    "key_ok ''ntp''" "key_ok ''wifi.ssid''" "key_ok ''wifi.pass''" "key_ok ''wifi.telnet''"
    "key_ok ''radio.frequency_hz''" "key_ok ''radio.bandwidth_hz''" "key_ok ''radio.spreading_factor''"
    "key_ok ''radio.coding_rate''" "key_ok ''radio.tx_power_dbm''" "key_ok ''radio.duty_cycle_percent''"
    "key_ok ''repeat''" "key_ok ''region.capture''" "key_ok ''flood.max.unscoped''" "key_ok ''flood.max.advert''"
    "key_ok ''advert.interval''" "key_ok ''flood.advert.interval''" "key_ok ''path.hash.mode''" "key_ok ''tier''"
    "key_ok ''loop.detect''"
    by (simp_all add: key_ok_def plain_def lit_def)
  have c: "config_inv c" using assms by (simp add: storable_def)
  have w: "plain (bool_text b)" "plain (repeat_text b)" "plain (loop_as_str m)" for b m
    by (simp_all add: bool_text_def repeat_text_def plain_def lit_def, cases m, simp_all add: plain_def lit_def)
  note plains = plain_digits plain_coordinate w
  have neats: "neat (write_escaped_value (cf_owner_info c))" "neat (write_escaped_value (cf_remote_cli_password c))"
    "neat (write_escaped_value (wf_ssid (cf_wifi c)))" "neat (write_escaped_value (wf_password (cf_wifi c)))"
    "plain (cf_ntp c)"
    using assms by (auto simp: storable_def intro: neat_escaped)
  show "list_all field_ok (fields_before c d)"
    by (simp add: fields_before_def field_ok_def keys neat_plain one_line_plain one_line_escaped plains unescape_plain_value apply_location [OF c])
  show "list_all field_ok (fields_after c d)"
    by (simp add: fields_after_def field_ok_def keys neat_plain one_line_plain one_line_escaped plains unescape_plain_value neats unescape_escape
        apply_texts [OF assms] apply_switches apply_radio [OF assms] apply_numbers [OF assms])
qed

lemma apply_acl:
  assumes "acl_inv (a @ [(k, r)])"
  shows "apply_setting FromStorage (lit ''acl.'' @ hex_bytes k) (role_text r) (s\<lparr>cf_acl := a\<rparr>, saw)
    = Some (s\<lparr>cf_acl := a @ [(k, r)]\<rparr>, saw)"
proof -
  have "filter (\<lambda>(k', _). k' \<noteq> k) a = a"
    using assms by (force simp: acl_inv_def filter_id_conv)
  moreover have "acl_sort (a @ [(k, r)]) = a @ [(k, r)]"
    using assms unfolding acl_sort_def by (intro sort_key_id_if_sorted) (simp add: acl_inv_def)
  moreover have "parse_key (hex_bytes k) = Some k"
    using assms by (simp add: acl_inv_def parse_key_hex_bytes)
  ultimately have "acl_set a (hex_bytes k) (role_text r) = Some (a @ [(k, r)])"
    by (cases r) (simp_all add: acl_set_def role_text_def)
  moreover have "strip_prefix (lit ''acl.'' @ hex_bytes k) (lit ''acl.'') = Some (hex_bytes k)"
    by (simp add: strip_prefix_Some_iff)
  ultimately show ?thesis
    by (simp add: apply_setting_def Let_def lit_def)
qed

lemma reads_acl:
  "acl_inv (a @ rest) \<Longrightarrow> reads (map acl_line rest) (s\<lparr>cf_acl := a\<rparr>, saw) (s\<lparr>cf_acl := a @ rest\<rparr>, saw)"
proof (induction rest arbitrary: a)
  case (Cons kr rest)
  obtain k r where kr: "kr = (k, r)" by (cases kr)
  have a: "acl_inv (a @ [(k, r)])"
    using Cons.prems by (auto simp: kr acl_inv_def sorted_append)
  have line: "acl_line kr = (lit ''acl.'' @ hex_bytes k) @ 61 # role_text r"
    by (simp add: kr acl_line_def lit_def)
  have p: "plain (role_text r)" by (cases r) (simp_all add: role_text_def plain_def lit_def)
  have "plain (lit ''acl.'' @ hex_bytes k)" "61 \<notin> set (lit ''acl.'' @ hex_bytes k)" "hd (lit ''acl.'' @ hex_bytes k) \<noteq> 35"
    using plain_digits(4) hex_bytes_chars by (auto simp: plain_def lit_def)
  moreover have "lit ''acl.'' \<noteq> []" by (simp add: lit_def)
  ultimately have "decode_line FromStorage (acl_line kr) (s\<lparr>cf_acl := a\<rparr>, saw) = Some (s\<lparr>cf_acl := a @ [(k, r)]\<rparr>, saw)"
    unfolding line by (subst decode_neat) (simp_all add: neat_plain p unescape_plain_value apply_acl [OF a])
  then show ?case using Cons.IH [of "a @ [(k, r)]"] Cons.prems by (simp add: reads_def kr)
qed (simp add: reads_def)

lemma reads_key:
  assumes "private_key_wf key"
  shows "reads [key_line key] (s, saw) (s\<lparr>cf_private_key := key\<rparr>, saw)"
proof -
  have k: "plain (private_key_config_key key)" "private_key_config_key key \<noteq> []" "hd (private_key_config_key key) \<noteq> 35"
    "61 \<notin> set (private_key_config_key key)"
    by (cases key; simp add: plain_def lit_def)+
  have "decode_line FromStorage (key_line key) (s, saw) = Some (s\<lparr>cf_private_key := key\<rparr>, saw)"
    using decode_neat [OF k, of "hex_bytes (private_key_bytes key)" FromStorage "(s, saw)"] plain_digits(4)
    by (simp add: key_line_def neat_plain unescape_plain_value apply_identity [OF assms])
  then show ?thesis by (simp add: reads_def)
qed

lemma reads_head: "reads [lit ''# MCRS app.conf'', lit ''version=1''] st st"
proof -
  have "decode_line FromStorage (lit ''# MCRS app.conf'') st = Some st"
    by (rule comment_line) (simp add: is_whitespace_def)
  moreover have "decode_line FromStorage (lit (''version'' @ ''='') @ lit ''1'') st = apply_setting FromStorage (lit ''version'') (lit ''1'') st"
    by (rule decode_key) (simp_all add: key_ok_def neat_plain unescape_plain_value plain_def lit_def)
  moreover have "apply_setting FromStorage (lit ''version'') (lit ''1'') st = Some st"
    by (cases st) (simp add: apply_setting_def plain_values)
  moreover have "lit (''version'' @ ''='') @ lit ''1'' = lit ''version=1''" by (simp add: lit_def)
  ultimately show ?thesis by (simp add: reads_def)
qed

lemma read_fields_before:
  "read_fields (fields_before c d) s = upon (cf_longitude_microdegrees c \<noteq> cf_longitude_microdegrees d)
     (\<lambda>s. s\<lparr>cf_longitude_microdegrees := cf_longitude_microdegrees c\<rparr>)
     (upon (cf_latitude_microdegrees c \<noteq> cf_latitude_microdegrees d)
       (\<lambda>s. s\<lparr>cf_latitude_microdegrees := cf_latitude_microdegrees c\<rparr>) s)"
  by (simp add: fields_before_def)

text \<open>Read over defaults that differ from its own only in the key and the name, the file gives the
  configuration back.\<close>

definition same_defaults :: "stored_config \<Rightarrow> stored_config \<Rightarrow> bool" where
  "same_defaults d' d \<longleftrightarrow> d'\<lparr>cf_private_key := cf_private_key d, cf_node_name := cf_node_name d\<rparr> = d"

lemma upon_field:
  fixes c d s :: stored_config
  shows "cf_latitude_microdegrees s = cf_latitude_microdegrees d \<Longrightarrow> upon (cf_latitude_microdegrees c \<noteq> cf_latitude_microdegrees d)
     (\<lambda>s. s\<lparr>cf_latitude_microdegrees := cf_latitude_microdegrees c\<rparr>) s = s\<lparr>cf_latitude_microdegrees := cf_latitude_microdegrees c\<rparr>"
    and "cf_longitude_microdegrees s = cf_longitude_microdegrees d \<Longrightarrow> upon (cf_longitude_microdegrees c \<noteq> cf_longitude_microdegrees d)
     (\<lambda>s. s\<lparr>cf_longitude_microdegrees := cf_longitude_microdegrees c\<rparr>) s = s\<lparr>cf_longitude_microdegrees := cf_longitude_microdegrees c\<rparr>"
    and "cf_owner_info s = cf_owner_info d \<Longrightarrow> upon (cf_owner_info c \<noteq> cf_owner_info d)
     (\<lambda>s. s\<lparr>cf_owner_info := cf_owner_info c\<rparr>) s = s\<lparr>cf_owner_info := cf_owner_info c\<rparr>"
    and "cf_remote_cli_password s = cf_remote_cli_password d \<Longrightarrow> upon (cf_remote_cli_password c \<noteq> cf_remote_cli_password d)
     (\<lambda>s. s\<lparr>cf_remote_cli_password := cf_remote_cli_password c\<rparr>) s = s\<lparr>cf_remote_cli_password := cf_remote_cli_password c\<rparr>"
    and "cf_ntp s = cf_ntp d \<Longrightarrow> upon (cf_ntp c \<noteq> cf_ntp d)
     (\<lambda>s. s\<lparr>cf_ntp := cf_ntp c\<rparr>) s = s\<lparr>cf_ntp := cf_ntp c\<rparr>"
    and "cf_duty_cycle_percent s = cf_duty_cycle_percent d \<Longrightarrow> upon (cf_duty_cycle_percent c \<noteq> cf_duty_cycle_percent d)
     (\<lambda>s. s\<lparr>cf_duty_cycle_percent := cf_duty_cycle_percent c\<rparr>) s = s\<lparr>cf_duty_cycle_percent := cf_duty_cycle_percent c\<rparr>"
    and "cf_repeat_enabled s = cf_repeat_enabled d \<Longrightarrow> upon (cf_repeat_enabled c = (\<not> cf_repeat_enabled d))
     (\<lambda>s. s\<lparr>cf_repeat_enabled := cf_repeat_enabled c\<rparr>) s = s\<lparr>cf_repeat_enabled := cf_repeat_enabled c\<rparr>"
    and "cf_region_capture s = cf_region_capture d \<Longrightarrow> upon (cf_region_capture c = (\<not> cf_region_capture d))
     (\<lambda>s. s\<lparr>cf_region_capture := cf_region_capture c\<rparr>) s = s\<lparr>cf_region_capture := cf_region_capture c\<rparr>"
    and "cf_flood_max_unscoped_hops s = cf_flood_max_unscoped_hops d \<Longrightarrow> upon (cf_flood_max_unscoped_hops c \<noteq> cf_flood_max_unscoped_hops d)
     (\<lambda>s. s\<lparr>cf_flood_max_unscoped_hops := cf_flood_max_unscoped_hops c\<rparr>) s = s\<lparr>cf_flood_max_unscoped_hops := cf_flood_max_unscoped_hops c\<rparr>"
    and "cf_flood_max_advert_hops s = cf_flood_max_advert_hops d \<Longrightarrow> upon (cf_flood_max_advert_hops c \<noteq> cf_flood_max_advert_hops d)
     (\<lambda>s. s\<lparr>cf_flood_max_advert_hops := cf_flood_max_advert_hops c\<rparr>) s = s\<lparr>cf_flood_max_advert_hops := cf_flood_max_advert_hops c\<rparr>"
    and "cf_advert_interval_minutes s = cf_advert_interval_minutes d \<Longrightarrow> upon (cf_advert_interval_minutes c \<noteq> cf_advert_interval_minutes d)
     (\<lambda>s. s\<lparr>cf_advert_interval_minutes := cf_advert_interval_minutes c\<rparr>) s = s\<lparr>cf_advert_interval_minutes := cf_advert_interval_minutes c\<rparr>"
    and "cf_flood_advert_interval_hours s = cf_flood_advert_interval_hours d \<Longrightarrow> upon (cf_flood_advert_interval_hours c \<noteq> cf_flood_advert_interval_hours d)
     (\<lambda>s. s\<lparr>cf_flood_advert_interval_hours := cf_flood_advert_interval_hours c\<rparr>) s = s\<lparr>cf_flood_advert_interval_hours := cf_flood_advert_interval_hours c\<rparr>"
    and "cf_path_hash_mode s = cf_path_hash_mode d \<Longrightarrow> upon (cf_path_hash_mode c \<noteq> cf_path_hash_mode d)
     (\<lambda>s. s\<lparr>cf_path_hash_mode := cf_path_hash_mode c\<rparr>) s = s\<lparr>cf_path_hash_mode := cf_path_hash_mode c\<rparr>"
    and "cf_tier s = cf_tier d \<Longrightarrow> upon (cf_tier c \<noteq> cf_tier d)
     (\<lambda>s. s\<lparr>cf_tier := cf_tier c\<rparr>) s = s\<lparr>cf_tier := cf_tier c\<rparr>"
    and "cf_loop_detection s = cf_loop_detection d \<Longrightarrow> upon (cf_loop_detection c \<noteq> cf_loop_detection d)
     (\<lambda>s. s\<lparr>cf_loop_detection := cf_loop_detection c\<rparr>) s = s\<lparr>cf_loop_detection := cf_loop_detection c\<rparr>"
    and "wf_ssid (cf_wifi s) = wf_ssid (cf_wifi d) \<Longrightarrow> upon (wf_ssid (cf_wifi c) \<noteq> wf_ssid (cf_wifi d))
     (\<lambda>s. s\<lparr>cf_wifi := (cf_wifi s)\<lparr>wf_ssid := wf_ssid (cf_wifi c)\<rparr>\<rparr>) s
     = s\<lparr>cf_wifi := (cf_wifi s)\<lparr>wf_ssid := wf_ssid (cf_wifi c)\<rparr>\<rparr>"
    and "wf_password (cf_wifi s) = wf_password (cf_wifi d) \<Longrightarrow> upon (wf_password (cf_wifi c) \<noteq> wf_password (cf_wifi d))
     (\<lambda>s. s\<lparr>cf_wifi := (cf_wifi s)\<lparr>wf_password := wf_password (cf_wifi c)\<rparr>\<rparr>) s
     = s\<lparr>cf_wifi := (cf_wifi s)\<lparr>wf_password := wf_password (cf_wifi c)\<rparr>\<rparr>"
    and "wf_telnet (cf_wifi s) = wf_telnet (cf_wifi d) \<Longrightarrow> upon (wf_telnet (cf_wifi c) = (\<not> wf_telnet (cf_wifi d)))
     (\<lambda>s. s\<lparr>cf_wifi := (cf_wifi s)\<lparr>wf_telnet := wf_telnet (cf_wifi c)\<rparr>\<rparr>) s
     = s\<lparr>cf_wifi := (cf_wifi s)\<lparr>wf_telnet := wf_telnet (cf_wifi c)\<rparr>\<rparr>"
    and "rc_receive_frequency_hz (cf_radio s) = rc_receive_frequency_hz (cf_radio d) \<Longrightarrow> upon (rc_receive_frequency_hz (cf_radio c) \<noteq> rc_receive_frequency_hz (cf_radio d))
     (\<lambda>s. s\<lparr>cf_radio := (cf_radio s)\<lparr>rc_receive_frequency_hz := rc_receive_frequency_hz (cf_radio c)\<rparr>\<rparr>) s
     = s\<lparr>cf_radio := (cf_radio s)\<lparr>rc_receive_frequency_hz := rc_receive_frequency_hz (cf_radio c)\<rparr>\<rparr>"
    and "rc_bandwidth (cf_radio s) = rc_bandwidth (cf_radio d) \<Longrightarrow> upon (rc_bandwidth (cf_radio c) \<noteq> rc_bandwidth (cf_radio d))
     (\<lambda>s. s\<lparr>cf_radio := (cf_radio s)\<lparr>rc_bandwidth := rc_bandwidth (cf_radio c)\<rparr>\<rparr>) s
     = s\<lparr>cf_radio := (cf_radio s)\<lparr>rc_bandwidth := rc_bandwidth (cf_radio c)\<rparr>\<rparr>"
    and "rc_spreading_factor (cf_radio s) = rc_spreading_factor (cf_radio d) \<Longrightarrow> upon (rc_spreading_factor (cf_radio c) \<noteq> rc_spreading_factor (cf_radio d))
     (\<lambda>s. s\<lparr>cf_radio := (cf_radio s)\<lparr>rc_spreading_factor := rc_spreading_factor (cf_radio c)\<rparr>\<rparr>) s
     = s\<lparr>cf_radio := (cf_radio s)\<lparr>rc_spreading_factor := rc_spreading_factor (cf_radio c)\<rparr>\<rparr>"
    and "rc_coding_rate (cf_radio s) = rc_coding_rate (cf_radio d) \<Longrightarrow> upon (rc_coding_rate (cf_radio c) \<noteq> rc_coding_rate (cf_radio d))
     (\<lambda>s. s\<lparr>cf_radio := (cf_radio s)\<lparr>rc_coding_rate := rc_coding_rate (cf_radio c)\<rparr>\<rparr>) s
     = s\<lparr>cf_radio := (cf_radio s)\<lparr>rc_coding_rate := rc_coding_rate (cf_radio c)\<rparr>\<rparr>"
    and "rc_transmit_power_dbm (cf_radio s) = rc_transmit_power_dbm (cf_radio d) \<Longrightarrow> upon (rc_transmit_power_dbm (cf_radio c) \<noteq> rc_transmit_power_dbm (cf_radio d))
     (\<lambda>s. s\<lparr>cf_radio := (cf_radio s)\<lparr>rc_transmit_power_dbm := rc_transmit_power_dbm (cf_radio c)\<rparr>\<rparr>) s
     = s\<lparr>cf_radio := (cf_radio s)\<lparr>rc_transmit_power_dbm := rc_transmit_power_dbm (cf_radio c)\<rparr>\<rparr>"
  by (auto simp: upon_def)

lemma read_back:
  fixes c d s :: stored_config
  assumes "same_defaults d' d" and "cf_acl d' = []" and "cf_regions d' = cf_regions c"
  defines "s \<equiv> d'\<lparr>cf_acl := cf_acl c, cf_private_key := cf_private_key c\<rparr>"
  shows "read_fields (fields_after c d) ((read_fields (fields_before c d) s)\<lparr>cf_node_name := n\<rparr>)
    = c\<lparr>cf_node_name := n\<rparr>"
proof -
  obtain key name where d: "d = d'\<lparr>cf_private_key := key, cf_node_name := name\<rparr>"
    using assms(1) unfolding same_defaults_def by metis
  show ?thesis
    unfolding d s_def read_fields_before fields_after_def read_fields.simps
    by (simp add: upon_field) (simp add: assms(3) stored_config.equality)
qed

section \<open>The file as a text\<close>

definition sound_line :: "rstr \<Rightarrow> bool" where
  "sound_line l \<longleftrightarrow> one_line l \<and> valid_str l"

lemma sound_plain: "plain l \<Longrightarrow> sound_line l"
  by (simp add: sound_line_def one_line_plain neat_plain [unfolded neat_def])

lemma sound_setting: "key_ok k \<Longrightarrow> neat v \<Longrightarrow> one_line v \<Longrightarrow> sound_line (lit (k @ ''='') @ v)"
proof -
  assume k: "key_ok k" and v: "neat v" "one_line v"
  have "plain (lit (k @ ''=''))" using k by (simp add: key_ok_def plain_def lit_def)
  then show ?thesis
    using v sound_plain [of "lit (k @ ''='')"] by (simp add: sound_line_def neat_def valid_str_def)
qed

lemma sound_fields: "list_all field_ok fds \<Longrightarrow> l \<in> set (concat (map field_lines fds)) \<Longrightarrow> sound_line l"
proof -
  assume ok: "list_all field_ok fds" and l: "l \<in> set (concat (map field_lines fds))"
  obtain fd where fd: "fd \<in> set fds" "l \<in> set (field_lines fd)" using l by auto
  obtain b k v f where e: "fd = (b, k, v, f)" by (cases fd)
  have "field_ok fd" using ok fd(1) by (auto simp: list_all_iff)
  then show ?thesis using fd(2) by (auto simp: e field_ok_def field_lines_def sound_setting split: if_splits)
qed

lemma file_lines_sound:
  assumes "storable c" and "l \<in> set (file_lines c d)"
  shows "sound_line l"
proof -
  have p: "plain (role_text r)" for r by (cases r) (simp_all add: role_text_def plain_def lit_def)
  have "sound_line (acl_line kr)" for kr
    using plain_digits(4) p by (intro sound_plain) (simp add: acl_line_def plain_def lit_def)
  moreover have "sound_line (key_line key)" for key
    using plain_digits(4) by (cases key; intro sound_plain; simp add: key_line_def plain_def lit_def)
  moreover have "sound_line (lit (''node.name'' @ ''='') @ write_escaped_value (cf_node_name c))"
    using assms(1) by (intro sound_setting one_line_escaped neat_escaped)
      (simp_all add: key_ok_def plain_def lit_def storable_def)
  moreover have "sound_line (lit ''# MCRS app.conf'')" "sound_line (lit ''version=1'')"
    by (simp_all add: sound_line_def one_line_def lit_def) (simp_all add: valid_str_def is_scalar_def)
  ultimately show ?thesis
    using assms(2) sound_fields [OF fields_ok(1) [OF assms(1)], of l d]
      sound_fields [OF fields_ok(2) [OF assms(1)], of l d]
    unfolding file_lines_def set_append Un_iff set_map by (auto split: if_splits)
qed

lemma encoded_text:
  assumes "storable c" and "cf_acl d = []" and "cf_regions c = regions_new" and "cf_regions d = regions_new"
  shows "valid_str (encode_sparse_config_text c d)" and "str_lines (encode_sparse_config_text c d) = file_lines c d"
proof -
  have l: "\<forall>l \<in> set (file_lines c d). sound_line l" using file_lines_sound [OF assms(1)] by blast
  show "str_lines (encode_sparse_config_text c d) = file_lines c d"
    unfolding encode_file_lines [OF assms(2-4)] using l
    by (intro str_lines_concat) (simp add: sound_line_def one_line_def)
  show "valid_str (encode_sparse_config_text c d)"
    unfolding encode_file_lines [OF assms(2-4)] using l
    by (auto simp: valid_str_def list_all_iff sound_line_def is_scalar_def)
qed

section \<open>Loading it\<close>

lemma image_config_fields:
  "cf_acl (image_config C key) = []" "cf_regions (image_config C key) = regions_new"
  "cf_private_key (image_config C key) = key" "cf_node_name (image_config C key) = generated_node_name C key"
  by (simp_all add: image_config_def empty_config_def generated_name_fits)

lemma same_defaults_image: "same_defaults (image_config C key') (image_config C key)"
  by (simp add: same_defaults_def image_config_def empty_config_def generated_name_fits)

lemma reads_node_name:
  assumes "storable c"
  shows "reads (if cf_node_name c \<noteq> cf_node_name d
      then [lit (''node.name'' @ ''='') @ write_escaped_value (cf_node_name c)] else [])
    (s, False) (upon (cf_node_name c \<noteq> cf_node_name d) (\<lambda>s. s\<lparr>cf_node_name := cf_node_name c\<rparr>) s,
      cf_node_name c \<noteq> cf_node_name d)"
proof -
  have "key_ok ''node.name''" by (simp add: key_ok_def plain_def lit_def)
  moreover have "neat (write_escaped_value (cf_node_name c))"
    using assms by (intro neat_escaped) (simp add: storable_def)
  ultimately show ?thesis
    using decode_key [OF _ _ unescape_escape, of "''node.name''" "cf_node_name c" FromStorage "(s, False)"]
      apply_texts(1) [OF assms] by (simp add: reads_def upon_def)
qed

lemma reads_file:
  assumes c: "storable c" and "cf_acl d' = []"
  shows "reads (file_lines c d) (d', False)
    (read_fields (fields_after c d) (upon (cf_node_name c \<noteq> cf_node_name d) (\<lambda>s. s\<lparr>cf_node_name := cf_node_name c\<rparr>)
       (read_fields (fields_before c d) (d'\<lparr>cf_acl := cf_acl c, cf_private_key := cf_private_key c\<rparr>))),
     cf_node_name c \<noteq> cf_node_name d)"
proof -
  have i: "acl_inv ([] @ cf_acl c)" "private_key_wf (cf_private_key c)"
    using c by (simp_all add: storable_def config_inv_def)
  have "reads (map acl_line (cf_acl c)) (d', False) (d'\<lparr>cf_acl := cf_acl c\<rparr>, False)"
    using reads_acl [OF i(1), of d' False] assms(2) by (cases d') simp
  note lines = reads_append [OF reads_head reads_append [OF this reads_append [OF reads_key [OF i(2)]
    reads_append [OF reads_fields [OF fields_ok(1) [OF c]] reads_append [OF reads_node_name [OF c]
      reads_fields [OF fields_ok(2) [OF c]]]]]]]
  show ?thesis unfolding file_lines_def by (rule lines)
qed

lemma name_kept: "cf_node_name (read_fields (fields_before c d) s) = cf_node_name s"
  by (simp add: read_fields_before upon_def)

lemma decode_saved:
  fixes C :: crypto and key' :: private_key
  assumes c: "storable c" and r: "cf_regions c = regions_new"
  defines "d \<equiv> image_config C (cf_private_key c)" and "d' \<equiv> image_config C key'"
  shows "decode_config_text C (str_bytes (encode_sparse_config_text c d)) d' = (if settings_valid c then Some c else None)"
proof -
  let ?x = "read_fields (fields_after c d) (upon (cf_node_name c \<noteq> cf_node_name d) (\<lambda>s. s\<lparr>cf_node_name := cf_node_name c\<rparr>)
       (read_fields (fields_before c d) (d'\<lparr>cf_acl := cf_acl c, cf_private_key := cf_private_key c\<rparr>)))"
  have a: "cf_acl d = []" "cf_acl d' = []" "cf_regions d = regions_new" "cf_regions d' = cf_regions c"
    "cf_private_key d' = key'" "cf_node_name d' = generated_node_name C key'"
    "cf_node_name d = generated_node_name C (cf_private_key c)"
    by (simp_all add: d_def d'_def image_config_fields r)
  have again: "read_fields (fields_after c d)
      ((read_fields (fields_before c d) (d'\<lparr>cf_acl := cf_acl c, cf_private_key := cf_private_key c\<rparr>))\<lparr>cf_node_name := n\<rparr>)
      = c\<lparr>cf_node_name := n\<rparr>" for n
    unfolding d_def d'_def by (rule read_back [OF same_defaults_image]) (simp_all add: image_config_fields r)
  have x: "?x = c\<lparr>cf_node_name := if cf_node_name c \<noteq> cf_node_name d then cf_node_name c else cf_node_name d'\<rparr>"
  proof (cases "cf_node_name c = cf_node_name d")
    case True
    have "(read_fields (fields_before c d) (d'\<lparr>cf_acl := cf_acl c, cf_private_key := cf_private_key c\<rparr>))\<lparr>cf_node_name := cf_node_name d'\<rparr>
        = read_fields (fields_before c d) (d'\<lparr>cf_acl := cf_acl c, cf_private_key := cf_private_key c\<rparr>)"
      by (rule stored_config.equality) (simp_all add: name_kept)
    then show ?thesis using True again [of "cf_node_name d'"] by (simp add: upon_def)
  qed (simp add: upon_def again)
  have lines: "decode_lines FromStorage (str_lines (encode_sparse_config_text c d)) (d', False)
      = Some (c\<lparr>cf_node_name := if cf_node_name c \<noteq> cf_node_name d then cf_node_name c else cf_node_name d'\<rparr>,
          cf_node_name c \<noteq> cf_node_name d)"
    using reads_file [OF c a(2), of d] unfolding x encoded_text(2) [OF c a(1) r a(3)] reads_def .
  have self: "c\<lparr>cf_node_name := generated_node_name C (cf_private_key c)\<rparr> = c"
    if "cf_node_name c = generated_node_name C (cf_private_key c)"
    using that by (cases c) simp
  have "settings_valid (c\<lparr>cf_node_name := n\<rparr>) = settings_valid c" for n
    by (simp add: settings_valid_def)
  note self = self this
  show ?thesis
    unfolding decode_config_text_def decode_config_layer_def from_utf8_str_bytes [OF encoded_text(1) [OF c a(1) r a(3)]]
    using self by (auto simp: lines a generated_name_fits)
qed

lemma generated_is_image:
  assumes "generated_defaults C [] seed = Ok defaults"
  shows "from_app_config defaults = image_config C (Seed seed)" and "ac_identity_label defaults = lit ''generated''"
proof -
  have *: "defaults = from_stored C (image_config C (Seed seed)) (lit ''generated'')"
    using assms by (simp add: generated_defaults_def image_defaults)
  moreover have "fit_password (lit ''meshcore'') = lit ''meshcore''" by (simp add: plain_values)
  ultimately show "from_app_config defaults = image_config C (Seed seed)"
    by (simp add: from_app_config_def from_stored_def image_config_def empty_config_def generated_name_fits
        stored_config.defs app_config.defs)
  show "ac_identity_label defaults = lit ''generated''"
    using * by (simp add: from_stored_def stored_config.defs app_config.defs)
qed

section \<open>Properties\<close>

text \<open>C14: A saved configuration comes back at the next start, on an image without a network profile and with
  the region table untouched. Whatever key the fresh defaults have, the file such a configuration was written
  to, if it fits, is loaded to the same configuration and not rewritten. Assumed are valid settings
  whose texts do not begin or end in whitespace, which the trimming of each line would lose; a changed region
  table is outside the statement, and need not come back.\<close>

theorem saved_config_is_loaded:
  assumes "storable c" and "settings_valid c" and "cf_regions c = regions_new"
    and "generated_defaults C [] seed = Ok defaults" and "encode_config_text C [] c = Ok conf"
    and "length (str_bytes conf) \<le> APP_CONFIG_MAX_LEN"
    and "st_read api s APP_CONFIG_KEY APP_CONFIG_MAX_LEN = Ok (str_bytes conf)"
  shows "load_or_create C [] api s defaults = (Ok (from_stored C c (lit ''storage'')), s)"
proof -
  have t: "conf = encode_sparse_config_text c (image_config C (cf_private_key c))"
    using assms(5) by (simp add: encode_config_text_def image_defaults)
  have "decode_config_text C (str_bytes conf) (image_config C (Seed seed)) = Some c"
    unfolding t by (simp add: decode_saved [OF assms(1,3)] assms(2))
  then have "load_config_file C [] api s (from_app_config defaults) = Ok (Some (c, False))"
    using assms(5-7) by (simp add: load_config_file_def generated_is_image(1) [OF assms(4)])
  then show ?thesis by (simp add: load_or_create_def)
qed

text \<open>A device that was given an owner and a password, and told not to repeat.\<close>

definition edited_config :: stored_config where
  "edited_config = (image_config toy_crypto (Seed (replicate 32 1)))
     \<lparr>cf_owner_info := lit ''Hill station'', cf_remote_cli_password := lit ''a #=b'', cf_repeat_enabled := False\<rparr>"

lemma edited_config_storable: "storable edited_config"
proof -
  let ?c = "image_config toy_crypto (Seed (replicate 32 1))"
  have i: "config_inv ?c"
    using decode_config_layer_inv [OF empty_config_inv decode_config_layer_defaults]
    by (simp add: private_key_wf_def)
  have n: "plain (generated_node_name toy_crypto (Seed (replicate 32 1)))"
    using plain_digits by (simp add: generated_node_name_def plain_def lit_def)
  have p: "plain (lit ''pool.ntp.org'')" by (simp add: plain_def lit_def)
  have v: "neat (lit ''Hill station'')" "neat (lit ''a #=b'')" "fit_owner_info (lit ''Hill station'') = lit ''Hill station''"
    "fit_password (lit ''a #=b'') = lit ''a #=b''"
    by (simp_all add: neat_def valid_str_def is_scalar_def lit_def is_whitespace_def fit_owner_info_def fit_password_def
        MAX_REMOTE_PASSWORD_LEN_def MAX_OWNER_INFO_LEN_def len_utf8_def char_bytes_def)
  have "str_len (lit ''Hill station'') = 12" "str_len (lit ''a #=b'') = 5"
    by (simp_all add: lit_def len_utf8_def)
  then have "config_inv edited_config" using i by (simp add: edited_config_def config_inv_def)
  then show ?thesis
    using neat_plain [OF n] neat_plain [OF p] p
    by (simp add: storable_def edited_config_def image_config_def empty_config_def generated_name_fits v plain_values)
      (simp add: neat_def)
qed

definition edited_text :: rstr where
  "edited_text = encode_sparse_config_text edited_config (image_config toy_crypto (Seed (replicate 32 1)))"

lemma edited_text:
  "encode_config_text toy_crypto [] edited_config = Ok edited_text"
  "settings_valid edited_config" "cf_regions edited_config = regions_new"
  "length (str_bytes edited_text) \<le> APP_CONFIG_MAX_LEN"
proof -
  let ?d = "image_config toy_crypto (Seed (replicate 32 1))"
  show "encode_config_text toy_crypto [] edited_config = Ok edited_text"
    by (simp add: encode_config_text_def image_defaults edited_text_def image_config_fields edited_config_def)
  show "settings_valid edited_config" and r: "cf_regions edited_config = regions_new"
    using settings_valid_image [of toy_crypto "Seed (replicate 32 1)"]
    by (simp_all add: edited_config_def settings_valid_def image_config_fields)
  have f: "file_lines edited_config ?d =
      [lit ''# MCRS app.conf'', lit ''version=1'', key_line (Seed (replicate 32 1)), lit ''owner.info=Hill station'',
       lit ''remote.password=a #=b'', lit ''repeat=off'']"
    by (simp add: file_lines_def fields_before_def fields_after_def field_lines_def edited_config_def
        image_config_def empty_config_def repeat_text_def write_escaped_value_def escape_char_def lit_def)
  have "length (str_bytes edited_text) = 162"
    unfolding edited_text_def encode_file_lines [OF image_config_fields(1) r image_config_fields(2)] f
      str_len_def [symmetric]
    by (simp add: key_line_def lit_def len_utf8_def)
  then show "length (str_bytes edited_text) \<le> APP_CONFIG_MAX_LEN" by (simp add: APP_CONFIG_MAX_LEN_def)
qed

definition file_storage :: "bytes storage_api" where
  "file_storage = \<lparr>st_read = (\<lambda>s key len. Ok s), st_write_atomic = (\<lambda>s key data. (Ok (), data))\<rparr>"

theorem saved_config_is_loaded_witness:
  "load_or_create toy_crypto [] file_storage (str_bytes edited_text)
     (from_stored toy_crypto (image_config toy_crypto (Seed (replicate 32 7))) (lit ''generated''))
     = (Ok (from_stored toy_crypto edited_config (lit ''storage'')), str_bytes edited_text)"
  by (rule saved_config_is_loaded [OF edited_config_storable edited_text(2,3) _ edited_text(1,4), of "replicate 32 7"])
    (simp_all add: generated_defaults_def image_defaults file_storage_def)

text \<open>C26: A rejected transmit power can cost the device all its settings. The setter stores the power before it checks
  the radio, so the refused value stays in the configuration in use; the next successful change saves it, the
  file no longer passes the checks of the decoder, and the device starts with the defaults and a new key.\<close>

theorem rejected_power_loses_settings:
  assumes "set_transmit_power_dbm c dbm = (c', Err e)" and "- (2 ^ 31) \<le> dbm" and "dbm < 2 ^ 31"
    and "storable (from_app_config c)" and "cf_regions c = regions_new"
    and "generated_defaults C [] seed = Ok defaults"
    and "encode_config_text C [] (from_app_config c') = Ok conf" and "length (str_bytes conf) \<le> APP_CONFIG_MAX_LEN"
    and "st_read api s APP_CONFIG_KEY APP_CONFIG_MAX_LEN = Ok (str_bytes conf)"
  shows "fst (load_or_create C [] api s defaults) = Ok (from_stored C (image_config C (Seed seed)) (lit ''generated''))"
proof -
  have c': "c' = c\<lparr>cf_radio := (cf_radio c)\<lparr>rc_transmit_power_dbm := dbm\<rparr>\<rparr>"
    and bad: "check_radio (cf_radio c') = Err e"
    using assms(1) by (auto simp: set_transmit_power_dbm_def Let_def)
  have f: "from_app_config c' = (from_app_config c)\<lparr>cf_radio := (cf_radio c)\<lparr>rc_transmit_power_dbm := dbm\<rparr>\<rparr>"
    "cf_radio (from_app_config c) = cf_radio c" "cf_regions (from_app_config c) = cf_regions c"
    by (simp_all add: from_app_config_def c' stored_config.defs)
  have radio: "cf_radio (from_app_config c') = cf_radio c'"
    by (simp add: from_app_config_def stored_config.defs)
  have "storable (from_app_config c')" using assms(2-4) by (simp add: f storable_def config_inv_def)
  moreover have "\<not> settings_valid (from_app_config c')"
    using bad radio by (auto simp: settings_valid_def check_radio_def split: sum.splits)
  moreover have "conf = encode_sparse_config_text (from_app_config c') (image_config C (cf_private_key (from_app_config c')))"
    using assms(7) by (simp add: encode_config_text_def image_defaults)
  moreover have "cf_regions (from_app_config c') = regions_new" using assms(5) by (simp add: f)
  ultimately have "decode_config_text C (str_bytes conf) (image_config C (Seed seed)) = None"
    by (simp add: decode_saved)
  then have "load_config_file C [] api s (from_app_config defaults) = Ok None"
    using assms(8,9) by (simp add: load_config_file_def generated_is_image(1) [OF assms(6)])
  then show ?thesis by (simp add: load_or_create_def Let_def generated_is_image [OF assms(6)])
qed

definition refused_text :: rstr where
  "refused_text = encode_sparse_config_text
     (edited_config\<lparr>cf_radio := (cf_radio edited_config)\<lparr>rc_transmit_power_dbm := 100\<rparr>\<rparr>)
     (image_config toy_crypto (Seed (replicate 32 1)))"

lemma refused_text_length: "length (str_bytes refused_text) \<le> APP_CONFIG_MAX_LEN"
proof -
  let ?d = "image_config toy_crypto (Seed (replicate 32 1))"
  let ?c = "edited_config\<lparr>cf_radio := (cf_radio edited_config)\<lparr>rc_transmit_power_dbm := 100\<rparr>\<rparr>"
  have f: "file_lines ?c ?d =
      [lit ''# MCRS app.conf'', lit ''version=1'', key_line (Seed (replicate 32 1)), lit ''owner.info=Hill station'',
       lit ''remote.password=a #=b'', lit ''radio.tx_power_dbm=100'', lit ''repeat=off'']"
    by (simp add: file_lines_def fields_before_def fields_after_def field_lines_def edited_config_def
        image_config_def empty_config_def repeat_text_def write_escaped_value_def escape_char_def show_int_def
        show_nat.simps lit_def)
  have r: "cf_regions ?c = regions_new" using edited_text(3) by simp
  have "length (str_bytes refused_text) = 185"
    unfolding refused_text_def encode_file_lines [OF image_config_fields(1) r image_config_fields(2)] f
      str_len_def [symmetric]
    by (simp add: key_line_def lit_def len_utf8_def)
  then show ?thesis by (simp add: APP_CONFIG_MAX_LEN_def)
qed

theorem rejected_power_loses_settings_witness:
  "fst (load_or_create toy_crypto [] file_storage (str_bytes refused_text)
       (from_stored toy_crypto (image_config toy_crypto (Seed (replicate 32 7))) (lit ''generated'')))
     = Ok (from_stored toy_crypto (image_config toy_crypto (Seed (replicate 32 7))) (lit ''generated''))"
proof -
  let ?c = "from_stored toy_crypto edited_config (lit ''storage'')"
  let ?c' = "?c\<lparr>cf_radio := (cf_radio ?c)\<lparr>rc_transmit_power_dbm := 100\<rparr>\<rparr>"
  have c: "from_app_config ?c = edited_config"
    using edited_config_storable
    by (simp add: storable_def from_app_config_def from_stored_def stored_config.defs app_config.defs)
  have f: "from_app_config ?c' = (from_app_config ?c)\<lparr>cf_radio := (cf_radio ?c)\<lparr>rc_transmit_power_dbm := 100\<rparr>\<rparr>"
    "cf_radio ?c = cf_radio edited_config" "cf_regions ?c = cf_regions edited_config"
    by (simp_all add: from_app_config_def from_stored_def stored_config.defs app_config.defs)
  have g: "from_app_config (?c\<lparr>cf_radio := (cf_radio edited_config)\<lparr>rc_transmit_power_dbm := 100\<rparr>\<rparr>)
      = edited_config\<lparr>cf_radio := (cf_radio edited_config)\<lparr>rc_transmit_power_dbm := 100\<rparr>\<rparr>"
    using f(1) unfolding f(2) c .
  have k: "cf_private_key edited_config = Seed (replicate 32 1)"
    by (simp add: edited_config_def image_config_fields)
  have r: "cf_radio ?c = \<lparr>rc_receive_frequency_hz = 869618000, rc_spreading_factor = Sf8, rc_bandwidth = Khz62_5,
      rc_coding_rate = Cr4_6, rc_transmit_power_dbm = 14\<rparr>"
    unfolding f(2) by (simp add: edited_config_def image_config_def)
  have p: "set_transmit_power_dbm ?c 100 = (?c', Err (radio_config_error RadioInvalidTransmitPower))"
    unfolding set_transmit_power_dbm_def Let_def by (simp add: r check_radio_def radio_validate_def)
  show ?thesis
    by (rule rejected_power_loses_settings [OF p _ _ _ _ _ _ refused_text_length, of toy_crypto "replicate 32 7"])
      (simp_all add: c g f(2,3) k edited_config_storable edited_text(3) generated_defaults_def image_defaults encode_config_text_def
        refused_text_def file_storage_def)
qed

end
