(* ===== verification/Mqtt_Stream.thy ===== *)
theory Mqtt_Stream
  imports Wire Rust_Num
begin

text \<open>
  The byte stream to a broker (\<open>app/mqtt/transport.rs\<close>: \<open>Reader\<close>, \<open>write\<close>): plain, or binary WebSocket
  frames with control frames between them. The connection is the fragments its reads return, in order, and
  what follows the last one.
\<close>

section \<open>The connection\<close>

text \<open>A read takes at most the wanted length from the next fragment. After the last fragment the connection
  is closed, which reads as no bytes, or broken.\<close>

record stream =
  st_fragments :: "bytes list"
  st_broken :: bool

definition stream_read :: "nat \<Rightarrow> stream \<Rightarrow> (bytes \<times> stream) option" where
  "stream_read n s =
     (case st_fragments s of
        [] \<Rightarrow> if st_broken s then None else Some ([], s)
      | f # fs \<Rightarrow> Some (take n f, s\<lparr>st_fragments := (if length f \<le> n then fs else drop n f # fs)\<rparr>))"

text \<open>\<open>read_exact\<close>: fails when the connection ends, or reads nothing, before the buffer is full.\<close>

fun take_exact :: "nat \<Rightarrow> bytes list \<Rightarrow> (bytes \<times> bytes list) option" where
  "take_exact n [] = (if n = 0 then Some ([], []) else None)"
| "take_exact n (f # fs) =
     (if n = 0 then Some ([], f # fs)
      else if f = [] then None
      else if n < length f then Some (take n f, drop n f # fs)
      else map_option (\<lambda>(bs, fs). (f @ bs, fs)) (take_exact (n - length f) fs))"

definition stream_read_exact :: "nat \<Rightarrow> stream \<Rightarrow> (bytes \<times> stream) option" where
  "stream_read_exact n s =
     map_option (\<lambda>(bs, fs). (bs, s\<lparr>st_fragments := fs\<rparr>)) (take_exact n (st_fragments s))"

definition stream_bytes :: "stream \<Rightarrow> bytes" where
  "stream_bytes s = concat (st_fragments s)"

definition stream_wf :: "stream \<Rightarrow> bool" where
  "stream_wf s \<longleftrightarrow> list_all (\<lambda>f. f \<noteq> []) (st_fragments s)"

lemma take_exact_Some:
  "take_exact n fs = Some (bs, fs') \<Longrightarrow> concat fs = bs @ concat fs' \<and> length bs = n
     \<and> (list_all (\<lambda>f. f \<noteq> []) fs \<longrightarrow> list_all (\<lambda>f. f \<noteq> []) fs')"
proof (induction n fs arbitrary: bs rule: take_exact.induct)
  case (2 n f fs)
  show ?case
  proof (cases "n = 0 \<or> f = [] \<or> n < length f")
    case True
    then show ?thesis using "2.prems" by (auto split: if_splits)
  next
    case False
    then obtain cs where "take_exact (n - length f) fs = Some (cs, fs')" "bs = f @ cs"
      using "2.prems" by (auto split: if_splits)
    then show ?thesis using False "2.IH" by auto
  qed
qed (auto split: if_splits)

lemma take_exact_enough:
  "list_all (\<lambda>f. f \<noteq> []) fs \<Longrightarrow> n \<le> length (concat fs) \<Longrightarrow> \<exists>bs fs'. take_exact n fs = Some (bs, fs')"
proof (induction n fs rule: take_exact.induct)
  case (2 n f fs)
  show ?case
  proof (cases "n = 0 \<or> n < length f")
    case False
    moreover have "n - length f \<le> length (concat fs)" using "2.prems"(2) by simp
    ultimately show ?thesis using "2.IH" "2.prems"(1) by fastforce
  qed (use "2.prems" in auto)
qed simp

lemma stream_read_exact_bytes:
  assumes "stream_wf s" and "stream_bytes s = bs @ rest"
  shows "\<exists>s'. stream_read_exact (length bs) s = Some (bs, s') \<and> stream_bytes s' = rest \<and> stream_wf s'
    \<and> st_broken s' = st_broken s"
proof -
  obtain as fs where t: "take_exact (length bs) (st_fragments s) = Some (as, fs)"
    using take_exact_enough [of "st_fragments s" "length bs"] assms by (auto simp: stream_wf_def stream_bytes_def)
  have "as @ concat fs = bs @ rest" "length as = length bs" "list_all (\<lambda>f. f \<noteq> []) fs"
    using take_exact_Some [OF t] assms by (auto simp: stream_wf_def stream_bytes_def)
  then show ?thesis by (simp add: stream_read_exact_def t stream_bytes_def stream_wf_def)
qed

lemma stream_read_bytes:
  assumes "stream_wf s" and "stream_bytes s = data" and "data \<noteq> []" and "0 < n"
  shows "\<exists>bs rest s'. stream_read n s = Some (bs, s') \<and> data = bs @ rest \<and> bs \<noteq> [] \<and> length bs \<le> n
    \<and> stream_bytes s' = rest \<and> stream_wf s'"
proof -
  obtain f fs where f: "st_fragments s = f # fs" "f \<noteq> []"
    using assms(1-3) by (cases "st_fragments s") (auto simp: stream_bytes_def stream_wf_def)
  then show ?thesis
    using assms by (intro exI [of _ "take n f"] exI [of _ "drop n f @ concat fs"])
      (auto simp: stream_read_def stream_bytes_def stream_wf_def)
qed

section \<open>Reading frames\<close>

text \<open>\<open>from_be_bytes\<close> and \<open>to_be_bytes\<close> of any width.\<close>

definition be_value :: "bytes \<Rightarrow> nat" where
  "be_value bs = foldl (\<lambda>n b. n * 256 + unat b) 0 bs"

primrec nat_to_be :: "nat \<Rightarrow> nat \<Rightarrow> bytes" where
  "nat_to_be 0 n = []"
| "nat_to_be (Suc k) n = nat_to_be k (n div 256) @ [word_of_nat n]"

lemma length_nat_to_be [simp]: "length (nat_to_be k n) = k"
  by (induction k arbitrary: n) simp_all

lemma be_value_nat_to_be: "n < 256 ^ k \<Longrightarrow> be_value (nat_to_be k n) = n"
proof (induction k arbitrary: n)
  case (Suc k)
  have "n div 256 < 256 ^ k" using Suc.prems by (simp add: less_mult_imp_div_less)
  then have "be_value (nat_to_be k (n div 256)) = n div 256" by (rule Suc.IH)
  then show ?case by (simp add: be_value_def unat_of_nat)
qed (simp add: be_value_def)

record ws_reader =
  wr_inner :: stream
  wr_websocket :: bool
  wr_remaining :: nat
  wr_fragmented :: bool
  wr_pong :: "bytes option"

definition ws_reader_new :: "stream \<Rightarrow> bool \<Rightarrow> ws_reader" where
  "ws_reader_new inner websocket =
     \<lparr>wr_inner = inner, wr_websocket = websocket, wr_remaining = 0, wr_fragmented = False, wr_pong = None\<rparr>"

text \<open>The length of a frame whose second byte is given.\<close>

definition ws_length :: "u8 \<Rightarrow> stream \<Rightarrow> (nat \<times> stream) option" where
  "ws_length b s =
     (if b = 126 then
        (case stream_read_exact 2 s of
           None \<Rightarrow> None
         | Some (bs, s) \<Rightarrow> let len = be_value bs in if len < 126 then None else Some (len, s))
      else if b = 127 then
        (case stream_read_exact 8 s of
           None \<Rightarrow> None
         | Some (bs, s) \<Rightarrow> let len = be_value bs in if len < 65536 \<or> 2 ^ 63 \<le> len then None else Some (len, s))
      else Some (unat b, s))"

text \<open>One turn of the loop: a frame header, and a control frame's data with it. After an error the client drops
  the reader with its connection, so an error is \<open>None\<close>. \<open>wr_pong\<close> is the signal that holds the data of the
  last ping until it is answered.\<close>

definition ws_frame :: "ws_reader \<Rightarrow> ws_reader option" where
  "ws_frame r =
     (case stream_read_exact 2 (wr_inner r) of
        None \<Rightarrow> None
      | Some (head, s) \<Rightarrow>
          let h0 = head ! 0; h1 = head ! 1; fin = (h0 AND 0x80 \<noteq> 0); opcode = h0 AND 15 in
          if h0 AND 0x70 \<noteq> 0 \<or> h1 AND 0x80 \<noteq> 0 then None
          else
            (case ws_length h1 s of
               None \<Rightarrow> None
             | Some (len, s) \<Rightarrow>
                 if opcode = 0 \<or> opcode = 2 then
                   if (opcode = 0) \<noteq> wr_fragmented r then None
                   else Some (r\<lparr>wr_inner := s, wr_fragmented := \<not> fin, wr_remaining := len\<rparr>)
                 else if opcode = 9 \<or> opcode = 10 then
                   if \<not> fin \<or> 125 < len then None
                   else
                     (case stream_read_exact len s of
                        None \<Rightarrow> None
                      | Some (data, s) \<Rightarrow>
                          Some (r\<lparr>wr_inner := s, wr_pong := (if opcode = 9 then Some data else wr_pong r)\<rparr>))
                 else None))"

lemma take_exact_shrinks:
  "take_exact n fs = Some (bs, fs') \<Longrightarrow> length (concat fs) = n + length (concat fs')"
  by (drule take_exact_Some) auto

lemma stream_read_exact_shrinks:
  "stream_read_exact n s = Some (bs, s') \<Longrightarrow> length (stream_bytes s) = n + length (stream_bytes s')"
  by (auto simp: stream_read_exact_def stream_bytes_def dest: take_exact_shrinks)

lemma ws_length_shrinks: "ws_length b s = Some (len, s') \<Longrightarrow> length (stream_bytes s') \<le> length (stream_bytes s)"
  by (auto simp: ws_length_def Let_def dest!: stream_read_exact_shrinks split: if_splits option.splits)

lemma ws_frame_shrinks:
  "ws_frame r = Some r' \<Longrightarrow> length (stream_bytes (wr_inner r')) < length (stream_bytes (wr_inner r))"
  by (auto simp: ws_frame_def Let_def dest!: stream_read_exact_shrinks ws_length_shrinks split: if_splits option.splits)

text \<open>The frames before the next byte of data. Every frame takes at least two bytes off the connection, so the
  loop ends.\<close>

function ws_seek :: "ws_reader \<Rightarrow> ws_reader option" where
  "ws_seek r =
     (if wr_remaining r \<noteq> 0 then Some r
      else case ws_frame r of None \<Rightarrow> None | Some r' \<Rightarrow> ws_seek r')"
  by pat_completeness auto
termination
  by (relation "measure (\<lambda>r. length (stream_bytes (wr_inner r)))") (auto dest: ws_frame_shrinks)

declare ws_seek.simps [simp del]

definition ws_read :: "nat \<Rightarrow> ws_reader \<Rightarrow> (bytes \<times> ws_reader) option" where
  "ws_read n r =
     (if n = 0 then Some ([], r)
      else if \<not> wr_websocket r then
        map_option (\<lambda>(bs, s). (bs, r\<lparr>wr_inner := s\<rparr>)) (stream_read n (wr_inner r))
      else
        (case ws_seek r of
           None \<Rightarrow> None
         | Some r \<Rightarrow>
             (case stream_read (min n (wr_remaining r)) (wr_inner r) of
                None \<Rightarrow> None
              | Some (bs, s) \<Rightarrow>
                  if bs = [] then None
                  else Some (bs, r\<lparr>wr_inner := s, wr_remaining := wr_remaining r - length bs\<rparr>))))"

section \<open>Writing frames\<close>

text \<open>What is written for a message: one final frame, masked, as clients must.\<close>

definition ws_masked :: "bytes \<Rightarrow> bytes \<Rightarrow> bytes" where
  "ws_masked masking data = map (\<lambda>i. data ! i XOR masking ! (i mod 4)) [0..<length data]"

definition ws_write :: "bool \<Rightarrow> u8 \<Rightarrow> bytes \<Rightarrow> bytes \<Rightarrow> bytes" where
  "ws_write websocket opcode data masking =
     (if websocket then
        [0x80 OR opcode]
        @ (if length data \<le> 125 then [0x80 OR word_of_nat (length data)]
           else if length data \<le> 65535 then 0xFE # nat_to_be 2 (length data)
           else 0xFF # nat_to_be 8 (length data))
        @ masking @ ws_masked masking data
      else data)"

section \<open>The stream a server sends\<close>

text \<open>Frames as the standard has them: parts of messages, which the first part starts and the last one ends, and
  control frames anywhere between.\<close>

datatype server_frame = DataFrame bool bytes | PingFrame bytes | PongFrame bytes

definition server_header :: "bool \<Rightarrow> u8 \<Rightarrow> nat \<Rightarrow> bytes" where
  "server_header fin opcode len =
     ((if fin then 0x80 else 0) OR opcode)
     # (if len \<le> 125 then [word_of_nat len]
        else if len \<le> 65535 then 126 # nat_to_be 2 len
        else 127 # nat_to_be 8 len)"

fun server_frame_ok :: "server_frame \<Rightarrow> bool" where
  "server_frame_ok (DataFrame fin d) = (length d < 2 ^ 63)"
| "server_frame_ok (PingFrame d) = (length d \<le> 125)"
| "server_frame_ok (PongFrame d) = (length d \<le> 125)"

fun server_bytes :: "bool \<Rightarrow> server_frame list \<Rightarrow> bytes" where
  "server_bytes fragmented [] = []"
| "server_bytes fragmented (DataFrame fin d # fs) =
     server_header fin (if fragmented then 0 else 2) (length d) @ d @ server_bytes (\<not> fin) fs"
| "server_bytes fragmented (PingFrame d # fs) = server_header True 9 (length d) @ d @ server_bytes fragmented fs"
| "server_bytes fragmented (PongFrame d # fs) = server_header True 10 (length d) @ d @ server_bytes fragmented fs"

fun server_data :: "server_frame list \<Rightarrow> bytes" where
  "server_data [] = []"
| "server_data (DataFrame fin d # fs) = d @ server_data fs"
| "server_data (PingFrame d # fs) = server_data fs"
| "server_data (PongFrame d # fs) = server_data fs"

lemma ws_length_header:
  assumes "stream_wf s" and "stream_bytes s = tl (tl (server_header fin opcode len)) @ rest" and "len < 2 ^ 63"
  shows "\<exists>s'. ws_length (hd (tl (server_header fin opcode len))) s = Some (len, s') \<and> stream_bytes s' = rest \<and> stream_wf s'"
proof -
  consider "len \<le> 125" | "125 < len" "len \<le> 65535" | "65535 < len" by linarith
  then show ?thesis
  proof cases
    case 1
    have "unat (word_of_nat len :: u8) = len" using 1 by (simp add: unat_of_nat)
    then have "(word_of_nat len :: u8) \<noteq> 126" "(word_of_nat len :: u8) \<noteq> 127" using 1 by auto
    then show ?thesis using 1 assms by (simp add: server_header_def ws_length_def unat_of_nat)
  next
    case 2
    then have "be_value (nat_to_be 2 len) = len" by (intro be_value_nat_to_be) simp
    then show ?thesis
      using 2 assms stream_read_exact_bytes [of s "nat_to_be 2 len" rest] by (auto simp: server_header_def ws_length_def)
  next
    case 3
    then have "be_value (nat_to_be 8 len) = len" using assms(3) by (intro be_value_nat_to_be) simp
    then show ?thesis
      using 3 assms stream_read_exact_bytes [of s "nat_to_be 8 len" rest] by (auto simp: server_header_def ws_length_def)
  qed
qed

section \<open>Reading the stream\<close>

text \<open>Where the reader stands in such a stream: some of a frame's data is left, then whole frames.\<close>

definition follows :: "ws_reader \<Rightarrow> bytes \<Rightarrow> bool" where
  "follows r d \<longleftrightarrow> (\<exists>x fs. wr_websocket r \<and> stream_wf (wr_inner r) \<and> length x = wr_remaining r
     \<and> stream_bytes (wr_inner r) = x @ server_bytes (wr_fragmented r) fs \<and> d = x @ server_data fs
     \<and> list_all server_frame_ok fs)"

lemma top_bit_clear: "unat b < 128 \<Longrightarrow> b AND 0x80 = (0 :: u8)"
proof -
  assume "unat b < 128"
  then have "unat (take_bit 7 b) = unat b" by (simp add: unsigned_take_bit_eq take_bit_nat_eq_self)
  then have "take_bit 7 b = b" by (rule unsigned_word_eqI)
  then have "b AND 0x80 = b AND (mask 7 AND 0x80)" by (metis and.assoc take_bit_eq_mask)
  also have "mask 7 AND 0x80 = (0 :: u8)" by (simp add: mask_eq_exp_minus_1)
  finally show ?thesis by simp
qed

lemma header_second:
  "server_header fin opcode len ! 1 AND 0x80 = 0" "server_header fin opcode len ! Suc 0 AND 0x80 = 0"
  by (auto simp: server_header_def unat_of_nat intro!: top_bit_clear)

lemma header_first: "server_header fin opcode len ! 0 = (if fin then 0x80 else 0) OR opcode"
  by (simp add: server_header_def)

lemma ws_frame_header:
  assumes "stream_wf s" and "stream_bytes s = server_header fin opcode len @ rest" and "len < 2 ^ 63"
  shows "\<exists>s1 s2. stream_read_exact 2 s = Some (take 2 (server_header fin opcode len), s1)
    \<and> ws_length (server_header fin opcode len ! 1) s1 = Some (len, s2) \<and> stream_bytes s2 = rest \<and> stream_wf s2"
proof -
  obtain a b t where h: "server_header fin opcode len = a # b # t"
    by (cases "len \<le> 125"; cases "len \<le> 65535"; simp add: server_header_def)
  obtain s1 where s1: "stream_read_exact (length [a, b]) s = Some ([a, b], s1)" "stream_bytes s1 = t @ rest" "stream_wf s1"
    using stream_read_exact_bytes [OF assms(1), of "[a, b]" "t @ rest"] assms(2) by (auto simp: h)
  have "stream_bytes s1 = tl (tl (server_header fin opcode len)) @ rest" by (simp add: h s1)
  then obtain s2 where "ws_length (hd (tl (server_header fin opcode len))) s1 = Some (len, s2)" "stream_bytes s2 = rest"
    "stream_wf s2"
    using ws_length_header [OF s1(3) _ assms(3)] by blast
  then show ?thesis using s1(1) by (intro exI [of _ s1] exI [of _ s2]) (simp add: h numeral_2_eq_2)
qed

lemma ws_frame_data:
  assumes "stream_wf (wr_inner r)" and "stream_bytes (wr_inner r) = server_header fin (if wr_fragmented r then 0 else 2) len @ rest"
    and "len < 2 ^ 63"
  shows "\<exists>s. ws_frame r = Some (r\<lparr>wr_inner := s, wr_fragmented := \<not> fin, wr_remaining := len\<rparr>)
    \<and> stream_wf s \<and> stream_bytes s = rest"
proof -
  let ?h = "server_header fin (if wr_fragmented r then 0 else 2) len"
  obtain s1 s2 where s: "stream_read_exact 2 (wr_inner r) = Some (take 2 ?h, s1)" "ws_length (?h ! 1) s1 = Some (len, s2)"
    "stream_bytes s2 = rest" "stream_wf s2"
    using ws_frame_header [OF assms] by blast
  show ?thesis
    using s by (intro exI [of _ s2]) (cases fin; cases "wr_fragmented r"; simp add: ws_frame_def Let_def header_second header_first)
qed

lemma ws_frame_control:
  assumes "stream_wf (wr_inner r)" and "stream_bytes (wr_inner r) = server_header True opcode (length d) @ d @ rest"
    and "length d \<le> 125" and "opcode = 9 \<or> opcode = 10"
  shows "\<exists>s. ws_frame r = Some (r\<lparr>wr_inner := s, wr_pong := (if opcode = 9 then Some d else wr_pong r)\<rparr>)
    \<and> stream_wf s \<and> stream_bytes s = rest"
proof -
  let ?h = "server_header True opcode (length d)"
  obtain s1 s2 where s: "stream_read_exact 2 (wr_inner r) = Some (take 2 ?h, s1)" "ws_length (?h ! 1) s1 = Some (length d, s2)"
    "stream_bytes s2 = d @ rest" "stream_wf s2"
    using ws_frame_header [OF assms(1,2)] assms(3) by auto
  obtain s3 where s3: "stream_read_exact (length d) s2 = Some (d, s3)" "stream_bytes s3 = rest" "stream_wf s3"
    using stream_read_exact_bytes [OF s(4,3)] by blast
  then show ?thesis
    using s assms(3,4) by (intro exI [of _ s3]) (elim disjE; simp add: ws_frame_def Let_def header_second header_first)
qed

lemma follows_frame:
  assumes "follows r d" and "wr_remaining r = 0" and "d \<noteq> []"
  shows "\<exists>r'. ws_frame r = Some r' \<and> follows r' d"
proof -
  obtain fs where r: "wr_websocket r" "stream_wf (wr_inner r)" "stream_bytes (wr_inner r) = server_bytes (wr_fragmented r) fs"
    "d = server_data fs" "list_all server_frame_ok fs"
    using assms(1,2) by (auto simp: follows_def)
  then obtain f fs' where fs: "fs = f # fs'" using assms(3) by (cases fs) auto
  have ok: "server_frame_ok f" "list_all server_frame_ok fs'" using r(5) by (simp_all add: fs)
  show ?thesis
  proof (cases f)
    case (DataFrame fin x)
    then obtain s where "ws_frame r = Some (r\<lparr>wr_inner := s, wr_fragmented := \<not> fin, wr_remaining := length x\<rparr>)"
      "stream_wf s" "stream_bytes s = x @ server_bytes (\<not> fin) fs'"
      using ws_frame_data [OF r(2), of fin "length x" "x @ server_bytes (\<not> fin) fs'"] r(3) ok(1) by (auto simp: fs)
    then show ?thesis using r(1,4) ok(2) by (auto simp: follows_def fs DataFrame)
  next
    case (PingFrame x)
    have b: "stream_bytes (wr_inner r) = server_header True 9 (length x) @ x @ server_bytes (wr_fragmented r) fs'"
      "length x \<le> 125"
      using r(3) ok(1) by (simp_all add: fs PingFrame)
    obtain s where "ws_frame r = Some (r\<lparr>wr_inner := s, wr_pong := Some x\<rparr>)" "stream_wf s"
      "stream_bytes s = server_bytes (wr_fragmented r) fs'"
      using ws_frame_control [OF r(2) b] by auto
    then show ?thesis using r(1,4) ok(2) assms(2) by (auto simp: follows_def fs PingFrame)
  next
    case (PongFrame x)
    have b: "stream_bytes (wr_inner r) = server_header True 10 (length x) @ x @ server_bytes (wr_fragmented r) fs'"
      "length x \<le> 125"
      using r(3) ok(1) by (simp_all add: fs PongFrame)
    obtain s where "ws_frame r = Some (r\<lparr>wr_inner := s, wr_pong := wr_pong r\<rparr>)" "stream_wf s"
      "stream_bytes s = server_bytes (wr_fragmented r) fs'"
      using ws_frame_control [OF r(2) b] by auto
    then show ?thesis using r(1,4) ok(2) assms(2) by (auto simp: follows_def fs PongFrame)
  qed
qed

lemma follows_seek:
  "follows r d \<Longrightarrow> d \<noteq> [] \<Longrightarrow> \<exists>r'. ws_seek r = Some r' \<and> follows r' d \<and> wr_remaining r' \<noteq> 0"
proof (induction r rule: ws_seek.induct)
  case (1 r)
  show ?case
  proof (cases "wr_remaining r = 0")
    case True
    obtain r' where r': "ws_frame r = Some r'" "follows r' d" using follows_frame [OF "1.prems"(1) True "1.prems"(2)] by blast
    then show ?thesis using "1.IH" True "1.prems"(2) by (simp add: ws_seek.simps [of r])
  next
    case False
    then show ?thesis using "1.prems" by (simp add: ws_seek.simps [of r])
  qed
qed

lemma follows_read:
  assumes "follows r d" and "d \<noteq> []" and "0 < n"
  shows "\<exists>bs rest r'. ws_read n r = Some (bs, r') \<and> d = bs @ rest \<and> bs \<noteq> [] \<and> length bs \<le> n \<and> follows r' rest"
proof -
  obtain r1 where r1: "ws_seek r = Some r1" "follows r1 d" "wr_remaining r1 \<noteq> 0"
    using follows_seek [OF assms(1,2)] by blast
  then obtain x fs where x: "wr_websocket r1" "stream_wf (wr_inner r1)" "length x = wr_remaining r1"
    "stream_bytes (wr_inner r1) = x @ server_bytes (wr_fragmented r1) fs" "d = x @ server_data fs"
    "list_all server_frame_ok fs"
    by (auto simp: follows_def)
  have "x \<noteq> []" "0 < min n (wr_remaining r1)" using x(3) r1(3) assms(3) by auto
  then obtain bs rest s where s: "stream_read (min n (wr_remaining r1)) (wr_inner r1) = Some (bs, s)"
    "x @ server_bytes (wr_fragmented r1) fs = bs @ rest" "bs \<noteq> []" "length bs \<le> min n (wr_remaining r1)"
    "stream_bytes s = rest" "stream_wf s"
    using stream_read_bytes [OF x(2,4)] by blast
  have "bs = take (length bs) x" using s(2,4) x(3) by (metis append_eq_conv_conj min.bounded_iff take_append
      append_Nil2 diff_is_0_eq take0 append_take_drop_id)
  then obtain y where y: "x = bs @ y" by (metis append_take_drop_id)
  have ws: "wr_websocket r" using assms(1) by (auto simp: follows_def)
  let ?r = "r1\<lparr>wr_inner := s, wr_remaining := wr_remaining r1 - length bs\<rparr>"
  have "ws_read n r = Some (bs, ?r)"
    using ws r1(1) s(1,3) assms(3) by (simp add: ws_read_def)
  moreover have "follows ?r (y @ server_data fs)"
    using x s(2,5,6) by (auto simp: follows_def y intro!: exI [of _ y] exI [of _ fs])
  ultimately show ?thesis using s(3,4) x(5) by (auto simp: y)
qed

section \<open>Filling a buffer\<close>

text \<open>\<open>read_exact\<close> over the reader: reads until the buffer is full.\<close>

function ws_read_exact :: "nat \<Rightarrow> ws_reader \<Rightarrow> (bytes \<times> ws_reader) option" where
  "ws_read_exact n r =
     (if n = 0 then Some ([], r)
      else case ws_read n r of
        None \<Rightarrow> None
      | Some (bs, r) \<Rightarrow>
          if bs = [] then None
          else map_option (\<lambda>(cs, r). (bs @ cs, r)) (ws_read_exact (n - length bs) r))"
  by pat_completeness auto
termination by (relation "measure fst") auto

declare ws_read_exact.simps [simp del]

lemma follows_read_exact:
  "follows r (d @ rest) \<Longrightarrow> \<exists>r'. ws_read_exact (length d) r = Some (d, r') \<and> follows r' rest"
proof (induction "length d" arbitrary: d r rule: less_induct)
  case less
  show ?case
  proof (cases "d = []")
    case True
    then show ?thesis using less.prems by (simp add: ws_read_exact.simps)
  next
    case False
    then obtain bs t r' where r': "ws_read (length d) r = Some (bs, r')" "d @ rest = bs @ t" "bs \<noteq> []"
      "length bs \<le> length d" "follows r' t"
      using follows_read [OF less.prems, of "length d"] by auto
    obtain e where e: "d = bs @ e" using r'(2,4) by (metis append_eq_append_conv_if append_take_drop_id)
    then have "t = e @ rest" using r'(2) by simp
    then obtain r'' where "ws_read_exact (length e) r' = Some (e, r'')" "follows r'' rest"
      using less.hyps [of e r'] r'(3,5) e by auto
    then show ?thesis using r'(1,3) by (subst ws_read_exact.simps) (simp add: e)
  qed
qed

text \<open>Several buffers filled one after the other, as the MQTT client does with a packet's parts.\<close>

fun ws_read_all :: "nat list \<Rightarrow> ws_reader \<Rightarrow> (bytes list \<times> ws_reader) option" where
  "ws_read_all [] r = Some ([], r)"
| "ws_read_all (n # ns) r =
     (case ws_read_exact n r of
        None \<Rightarrow> None
      | Some (bs, r) \<Rightarrow> map_option (\<lambda>(bss, r). (bs # bss, r)) (ws_read_all ns r))"

lemma follows_read_all:
  "follows r d \<Longrightarrow> sum_list ns \<le> length d \<Longrightarrow>
     \<exists>bss r'. ws_read_all ns r = Some (bss, r') \<and> map length bss = ns \<and> concat bss = take (sum_list ns) d"
proof (induction ns arbitrary: r d)
  case (Cons n ns)
  have sum: "n + sum_list ns \<le> length d" using Cons.prems(2) by simp
  then have n: "length (take n d) = n" and le: "sum_list ns \<le> length (drop n d)" by auto
  obtain r1 where r1: "ws_read_exact n r = Some (take n d, r1)" "follows r1 (drop n d)"
    using follows_read_exact [of r "take n d" "drop n d"] Cons.prems(1) n by auto
  obtain bss r' where "ws_read_all ns r1 = Some (bss, r')" "map length bss = ns"
    "concat bss = take (sum_list ns) (drop n d)"
    using Cons.IH [OF r1(2) le] by blast
  then show ?case using r1(1) n by (simp add: take_add)
qed simp

lemma follows_new:
  "stream_wf s \<Longrightarrow> stream_bytes s = server_bytes False fs \<Longrightarrow> list_all server_frame_ok fs
     \<Longrightarrow> follows (ws_reader_new s True) (server_data fs)"
  by (auto simp: follows_def ws_reader_new_def)

section \<open>What the server reads\<close>

text \<open>A written message is one final frame whose length is marked as masked; its data unmasks to the message.\<close>

lemma ws_masked_involution: "ws_masked m (ws_masked m d) = d"
  by (auto simp: ws_masked_def intro!: nth_equalityI) (simp add: xor.assoc)

lemma ws_write_frame:
  "ws_write True opcode d m =
     (let h = server_header True opcode (length d) in hd h # (0x80 OR hd (tl h)) # tl (tl h)) @ m @ ws_masked m d"
  by (simp add: ws_write_def server_header_def)

end
