(* ===== verification/Mqtt_Endpoint.thy ===== *)
theory Mqtt_Endpoint
  imports Rust_Text Mqtt_Stream Hex
begin

text \<open>
  Brokers and the WebSocket handshake (\<open>app/mqtt/transport.rs\<close>): the address a broker is configured by,
  the upgrade request written to it, and the checks of its answer. The encoder of the \<open>base64\<close> crate and
  the digest of the \<open>sha1\<close> crate are arguments.
\<close>

section \<open>Strings\<close>

definition ascii_lower :: "rchar \<Rightarrow> rchar" where
  "ascii_lower c = (if 65 \<le> c \<and> c \<le> 90 then c + 32 else c)"

definition eq_ignore_ascii_case :: "rstr \<Rightarrow> rstr \<Rightarrow> bool" where
  "eq_ignore_ascii_case a b \<longleftrightarrow> map ascii_lower a = map ascii_lower b"

text \<open>\<open>split_once\<close> at a string.\<close>

fun split_at_str :: "rstr \<Rightarrow> rstr \<Rightarrow> (rstr \<times> rstr) option" where
  "split_at_str pat [] = (if pat = [] then Some ([], []) else None)"
| "split_at_str pat (c # s) =
     (if starts_with (c # s) pat then Some ([], drop (length pat) (c # s))
      else map_option (\<lambda>(a, b). (c # a, b)) (split_at_str pat s))"

lemma split_at_str_Some: "split_at_str pat s = Some (a, b) \<Longrightarrow> s = a @ pat @ b"
  by (induction s arbitrary: a) (auto simp: starts_with_iff split: if_splits)

text \<open>\<open>str::split\<close> at CR LF.\<close>

fun split_crlf :: "rstr \<Rightarrow> rstr \<Rightarrow> rstr list" where
  "split_crlf [] acc = [acc]"
| "split_crlf [c] acc = [acc @ [c]]"
| "split_crlf (c # d # s) acc =
     (if c = 13 \<and> d = 10 then acc # split_crlf s [] else split_crlf (d # s) (acc @ [c]))"

lemma split_crlf_line: "13 \<notin> set l \<Longrightarrow> split_crlf (l @ 13 # 10 # s) acc = (acc @ l) # split_crlf s []"
proof (induction l arbitrary: acc)
  case (Cons c l)
  then show ?case by (cases l) auto
qed simp

definition crlf :: rstr where "crlf = [13, 10]"

section \<open>Endpoints\<close>

record endpoint =
  ep_host :: rstr
  ep_port :: nat
  ep_path :: rstr
  ep_websocket :: bool
  ep_tls :: bool

definition endpoint_text_ok :: "rstr \<Rightarrow> bool" where
  "endpoint_text_ok value \<longleftrightarrow> value \<noteq> [] \<and> list_all (\<lambda>c. 32 < c \<and> c < 127) value
     \<and> list_all (\<lambda>c. c \<noteq> 35 \<and> c \<noteq> 64 \<and> c \<noteq> 92) value"

definition endpoint_scheme :: "rstr \<Rightarrow> (bool \<times> bool \<times> nat) option" where
  "endpoint_scheme scheme =
     (if scheme = lit ''mqtt'' then Some (False, False, 1883)
      else if scheme = lit ''mqtts'' then Some (False, True, 8883)
      else if scheme = lit ''ws'' \<or> scheme = lit ''http'' then Some (True, False, 80)
      else if scheme = lit ''wss'' \<or> scheme = lit ''https'' then Some (True, True, 443)
      else None)"

definition host_char :: "rchar \<Rightarrow> bool" where
  "host_char c \<longleftrightarrow> is_digit c \<or> 65 \<le> c \<and> c \<le> 90 \<or> 97 \<le> c \<and> c \<le> 122 \<or> c = 46 \<or> c = 45"

text \<open>The address behind the scheme, with what the scheme stands for.\<close>

definition endpoint_target :: "rstr \<Rightarrow> nat \<Rightarrow> (rstr \<times> bool \<times> bool \<times> nat) option" where
  "endpoint_target value legacy_port =
     (case split_at_str (lit ''://'') value of
        Some (scheme, rest) \<Rightarrow> map_option (\<lambda>(ws, tls, port). (rest, ws, tls, port)) (endpoint_scheme scheme)
      | None \<Rightarrow> Some (value, False, False, legacy_port))"

definition host_and_port :: "rstr \<Rightarrow> nat \<Rightarrow> (rstr \<times> nat) option" where
  "host_and_port authority default_port =
     (case split_once 58 authority of
        Some (host, port) \<Rightarrow> map_option (Pair host) (parse_unsigned 65535 port)
      | None \<Rightarrow> Some (authority, default_port))"

definition in_authority :: "rchar \<Rightarrow> bool" where
  "in_authority c \<longleftrightarrow> c \<noteq> 47 \<and> c \<noteq> 63"

definition endpoint_parse :: "rstr \<Rightarrow> nat \<Rightarrow> endpoint option" where
  "endpoint_parse value legacy_port =
     (if \<not> endpoint_text_ok value then None
      else do {
        (rest, websocket, tls, default_port) \<leftarrow> endpoint_target value legacy_port;
        let authority = takeWhile in_authority rest;
        let path = dropWhile in_authority rest;
        if \<not> websocket \<and> path \<noteq> [] \<or> starts_with path (lit ''?'') then None
        else do {
          (host, port) \<leftarrow> host_and_port authority default_port;
          if host = [] \<or> \<not> list_all host_char host \<or> port = 0 then None
          else Some \<lparr>ep_host = host, ep_port = port, ep_path = (if path = [] then lit ''/mqtt'' else path),
                     ep_websocket = websocket, ep_tls = tls\<rparr> }})"

section \<open>The upgrade\<close>

definition upgrade_request :: "endpoint \<Rightarrow> rstr \<Rightarrow> rstr" where
  "upgrade_request ep key =
     lit ''GET '' @ ep_path ep @ lit '' HTTP/1.1'' @ crlf
     @ lit ''Host: '' @ ep_host ep @ lit '':'' @ show_nat (ep_port ep) @ crlf
     @ lit ''Upgrade: websocket'' @ crlf @ lit ''Connection: Upgrade'' @ crlf
     @ lit ''Sec-WebSocket-Key: '' @ key @ crlf @ lit ''Sec-WebSocket-Version: 13'' @ crlf
     @ lit ''Sec-WebSocket-Protocol: mqtt'' @ crlf @ crlf"

text \<open>What the answer's header lines have shown so far.\<close>

record upgrade_flags =
  uf_upgrade :: bool
  uf_connection :: bool
  uf_accept :: bool
  uf_protocol :: bool

definition upgrade_header_line :: "rstr \<Rightarrow> rstr \<Rightarrow> upgrade_flags \<Rightarrow> upgrade_flags option" where
  "upgrade_header_line expected line f =
     do { (name, value) \<leftarrow> split_once 58 line;
          let value = trim value;
          let f = (if eq_ignore_ascii_case name (lit ''upgrade'')
                   then f\<lparr>uf_upgrade := eq_ignore_ascii_case value (lit ''websocket'')\<rparr> else f);
          let f = (if eq_ignore_ascii_case name (lit ''connection'')
                   then f\<lparr>uf_connection := uf_connection f
                     \<or> list_ex (\<lambda>v. eq_ignore_ascii_case (trim v) (lit ''upgrade'')) (split_on (\<lambda>c. c = 44) value [])\<rparr>
                   else f);
          f \<leftarrow> (if eq_ignore_ascii_case name (lit ''sec-websocket-accept'')
                then if uf_accept f \<or> value \<noteq> expected then None else Some (f\<lparr>uf_accept := True\<rparr>)
                else Some f);
          f \<leftarrow> (if eq_ignore_ascii_case name (lit ''sec-websocket-protocol'')
                then if uf_protocol f \<or> value \<noteq> lit ''mqtt'' then None else Some (f\<lparr>uf_protocol := True\<rparr>)
                else Some f);
          if eq_ignore_ascii_case name (lit ''sec-websocket-extensions'') then None else Some f }"

fun upgrade_header_lines :: "rstr \<Rightarrow> rstr list \<Rightarrow> upgrade_flags \<Rightarrow> upgrade_flags option" where
  "upgrade_header_lines expected [] f = Some f"
| "upgrade_header_lines expected (l # ls) f =
     (if l = [] then upgrade_header_lines expected ls f
      else do { f \<leftarrow> upgrade_header_line expected l f; upgrade_header_lines expected ls f })"

definition expected_accept :: "(bytes \<Rightarrow> rstr) \<Rightarrow> (bytes \<Rightarrow> bytes) \<Rightarrow> rstr \<Rightarrow> rstr" where
  "expected_accept base64 sha1 key =
     base64 (sha1 (str_bytes key @ str_bytes (lit ''258EAFA5-E914-47DA-95CA-C5AB0DC85B11'')))"

definition validate_upgrade :: "(bytes \<Rightarrow> rstr) \<Rightarrow> (bytes \<Rightarrow> bytes) \<Rightarrow> bytes \<Rightarrow> rstr \<Rightarrow> bool" where
  "validate_upgrade base64 sha1 header key =
     (case from_utf8 header of
        None \<Rightarrow> False
      | Some text \<Rightarrow>
          (case split_crlf text [] of
             [] \<Rightarrow> False
           | status # lines \<Rightarrow>
               starts_with status (lit ''HTTP/1.1 101 '')
               \<and> (case upgrade_header_lines (expected_accept base64 sha1 key) lines
                          \<lparr>uf_upgrade = False, uf_connection = False, uf_accept = False, uf_protocol = False\<rparr> of
                    None \<Rightarrow> False
                  | Some f \<Rightarrow> uf_upgrade f \<and> uf_connection f \<and> uf_accept f \<and> uf_protocol f)))"

text \<open>The answer's header is read byte by byte through its empty line, at most 4096 bytes of it. The header can
  only grow as the connection's bytes go, so the loop ends.\<close>

definition ends_header :: "bytes \<Rightarrow> bool" where
  "ends_header header \<longleftrightarrow> 4 \<le> length header \<and> drop (length header - 4) header = [13, 10, 13, 10]"

function read_header :: "bytes \<Rightarrow> stream \<Rightarrow> (bytes \<times> stream) option" where
  "read_header header s =
     (if ends_header header then Some (header, s)
      else if length header = 4096 then None
      else case stream_read_exact 1 s of None \<Rightarrow> None | Some (byte, s) \<Rightarrow> read_header (header @ byte) s)"
  by pat_completeness auto
termination
  by (relation "measure (\<lambda>(_, s). length (stream_bytes s))") (auto dest: stream_read_exact_shrinks)

declare read_header.simps [simp del]

text \<open>What is written, and the connection after a successful upgrade; \<open>sent\<close> says whether the write and the flush
  succeed.\<close>

definition upgrade :: "(bytes \<Rightarrow> rstr) \<Rightarrow> (bytes \<Rightarrow> bytes) \<Rightarrow> endpoint \<Rightarrow> bytes \<Rightarrow> bool \<Rightarrow> stream \<Rightarrow> bytes \<times> stream option" where
  "upgrade base64 sha1 ep nonce sent s =
     (let key = base64 nonce in
      (str_bytes (upgrade_request ep key),
       if \<not> sent then None
       else case read_header [] s of
         None \<Rightarrow> None
       | Some (header, s) \<Rightarrow> if validate_upgrade base64 sha1 header key then Some s else None))"

lemma read_header_exact:
  assumes "stream_wf s" and "stream_bytes s = b @ rest" and "ends_header (a @ b)" and "length (a @ b) \<le> 4096"
    and "\<forall>n < length b. \<not> ends_header (a @ take n b)"
  shows "\<exists>s'. read_header a s = Some (a @ b, s') \<and> stream_bytes s' = rest \<and> stream_wf s'"
  using assms
proof (induction b arbitrary: a s)
  case Nil
  then show ?case by (simp add: read_header.simps [of a])
next
  case (Cons c b)
  obtain s1 where s1: "stream_read_exact (length [c]) s = Some ([c], s1)" "stream_bytes s1 = b @ rest" "stream_wf s1"
    using stream_read_exact_bytes [OF Cons.prems(1), of "[c]" "b @ rest"] Cons.prems(2) by auto
  have "\<not> ends_header a" using Cons.prems(5) by force
  moreover have "\<not> ends_header ((a @ [c]) @ take n b)" if "n < length b" for n
    using spec [OF Cons.prems(5), of "Suc n"] that by simp
  then have "\<exists>s'. read_header (a @ [c]) s1 = Some ((a @ [c]) @ b, s') \<and> stream_bytes s' = rest \<and> stream_wf s'"
    using Cons.prems(3,4) by (intro Cons.IH s1(2,3)) simp_all
  ultimately show ?case using s1(1) Cons.prems(4) by (subst read_header.simps) auto
qed

section \<open>What an accepted address is\<close>

definition endpoint_ok :: "endpoint \<Rightarrow> bool" where
  "endpoint_ok ep \<longleftrightarrow> ep_host ep \<noteq> [] \<and> list_all host_char (ep_host ep) \<and> 1 \<le> ep_port ep \<and> ep_port ep \<le> 65535
     \<and> list_all (\<lambda>c. 32 < c \<and> c < 127) (ep_path ep) \<and> starts_with (ep_path ep) (lit ''/'')
     \<and> (ep_websocket ep \<or> ep_path ep = lit ''/mqtt'')"

lemma endpoint_parse_ok:
  assumes "endpoint_parse value legacy_port = Some ep" and "legacy_port \<le> 65535"
  shows "endpoint_ok ep"
proof -
  have ok: "endpoint_text_ok value" using assms(1) by (simp add: endpoint_parse_def split: if_splits)
  obtain rest ws tls dp where t: "endpoint_target value legacy_port = Some (rest, ws, tls, dp)"
    using assms(1) by (auto simp: endpoint_parse_def bind_eq_Some_conv split: if_splits)
  have path: "ws \<or> dropWhile in_authority rest = []" "\<not> starts_with (dropWhile in_authority rest) (lit ''?'')"
    using assms(1) by (auto simp: endpoint_parse_def t Let_def split: if_splits)
  obtain h p where hp: "host_and_port (takeWhile in_authority rest) dp = Some (h, p)"
    using assms(1) by (auto simp: endpoint_parse_def t Let_def bind_eq_Some_conv split: if_splits)
  have host: "h \<noteq> []" "list_all host_char h" "p \<noteq> 0" and e: "ep_host ep = h" "ep_port ep = p" "ep_websocket ep = ws"
      "ep_path ep = (if dropWhile in_authority rest = [] then lit ''/mqtt'' else dropWhile in_authority rest)"
    using assms(1) by (auto simp: endpoint_parse_def t hp Let_def simp del: dropWhile_eq_Nil_conv split: if_splits)
  have rest: "set rest \<subseteq> set value" and dp: "dp \<le> 65535"
    using t assms(2) split_at_str_Some [of "lit ''://''" "value"]
    by (auto simp: endpoint_target_def endpoint_scheme_def split: option.splits prod.splits if_splits)
  have "ep_port ep \<le> 65535"
    using hp dp by (auto simp: e host_and_port_def parse_unsigned_def Let_def split: option.splits prod.splits if_splits)
  moreover have "list_all (\<lambda>c. 32 < c \<and> c < 127) (ep_path ep)"
  proof -
    have "set (dropWhile in_authority rest) \<subseteq> set value" using rest set_dropWhileD by fastforce
    moreover have "list_all (\<lambda>c. 32 < c \<and> c < 127) (lit ''/mqtt'')" by (simp add: lit_def)
    ultimately show ?thesis using ok by (auto simp: e endpoint_text_ok_def list_all_iff)
  qed
  moreover have "starts_with (ep_path ep) (lit ''/'')"
  proof (cases "dropWhile in_authority rest")
    case Nil
    then show ?thesis by (simp add: e lit_def)
  next
    case (Cons c cs)
    then have "\<not> in_authority c" by (metis hd_dropWhile list.discI list.sel(1))
    then show ?thesis using path(2) by (auto simp: e Cons in_authority_def lit_def)
  qed
  ultimately show ?thesis using host path by (auto simp: endpoint_ok_def e)
qed

text \<open>The request such an address yields has the lines meant and no other: nothing in the setting can add a
  header.\<close>

lemma request_lines:
  assumes "endpoint_ok ep" and "13 \<notin> set key"
  shows "split_crlf (upgrade_request ep key) [] =
    [lit ''GET '' @ ep_path ep @ lit '' HTTP/1.1'', lit ''Host: '' @ ep_host ep @ lit '':'' @ show_nat (ep_port ep),
     lit ''Upgrade: websocket'', lit ''Connection: Upgrade'', lit ''Sec-WebSocket-Key: '' @ key,
     lit ''Sec-WebSocket-Version: 13'', lit ''Sec-WebSocket-Protocol: mqtt'', [], []]"
proof -
  have "13 \<notin> set (ep_path ep)" "13 \<notin> set (ep_host ep)" "13 \<notin> set (show_nat n)" for n
    using assms(1) show_nat_digits [of n] by (auto simp: endpoint_ok_def list_all_iff host_char_def is_digit_def)
  moreover have l: "upgrade_request ep key =
      (lit ''GET '' @ ep_path ep @ lit '' HTTP/1.1'') @ 13 # 10 #
      (lit ''Host: '' @ ep_host ep @ lit '':'' @ show_nat (ep_port ep)) @ 13 # 10 #
      lit ''Upgrade: websocket'' @ 13 # 10 # lit ''Connection: Upgrade'' @ 13 # 10 #
      (lit ''Sec-WebSocket-Key: '' @ key) @ 13 # 10 # lit ''Sec-WebSocket-Version: 13'' @ 13 # 10 #
      lit ''Sec-WebSocket-Protocol: mqtt'' @ 13 # 10 # [] @ 13 # 10 # []"
    by (simp add: upgrade_request_def crlf_def)
  ultimately show ?thesis
    using assms(2) unfolding l by (subst split_crlf_line, simp add: lit_def)+ simp
qed

lemma upgrade_header_line_accept:
  assumes "upgrade_header_line expected line f = Some f'" and "uf_accept f'" and "\<not> uf_accept f"
  shows "\<exists>name v. split_once 58 line = Some (name, v) \<and> eq_ignore_ascii_case name (lit ''sec-websocket-accept'')
    \<and> trim v = expected"
  using assms unfolding upgrade_header_line_def Let_def
  by (auto simp: bind_eq_Some_conv split: if_splits)

lemma upgrade_header_lines_accept:
  assumes "upgrade_header_lines expected ls f = Some f'" and "uf_accept f'" and "\<not> uf_accept f"
  shows "\<exists>line \<in> set ls. \<exists>name v. split_once 58 line = Some (name, v)
    \<and> eq_ignore_ascii_case name (lit ''sec-websocket-accept'') \<and> trim v = expected"
  using assms
proof (induction ls arbitrary: f)
  case (Cons l ls)
  show ?case
  proof (cases "l = []")
    case False
    then obtain g where g: "upgrade_header_line expected l f = Some g" "upgrade_header_lines expected ls g = Some f'"
      using Cons.prems(1) by (auto simp: bind_eq_Some_conv)
    then show ?thesis
      using upgrade_header_line_accept [OF g(1) _ Cons.prems(3)] Cons.IH [OF g(2) Cons.prems(2)] by auto
  qed (use Cons in auto)
qed simp

section \<open>Properties\<close>

text \<open>C40: The stream of a WebSocket broker arrives exactly. However the network splits the bytes, when the broker
  answers the upgrade with a valid header of at most 4096 bytes and then sends frames of any length, parts of
  messages among them and control frames between them, the upgrade stops right behind the header, and buffers filled one
  after the other hold the consecutive bytes of the frames' data: nothing that came with the header is lost and
  nothing of a frame's header or of a control frame gets in.\<close>

theorem broker_stream_exact:
  assumes "validate_upgrade base64 sha1 header (base64 nonce)" and "length header \<le> 4096"
    and "ends_header header" and "\<forall>n < length header. \<not> ends_header (take n header)"
    and "stream_wf s" and "stream_bytes s = header @ server_bytes False frames"
    and "list_all server_frame_ok frames" and "sum_list ns \<le> length (server_data frames)"
  shows "\<exists>s'. snd (upgrade base64 sha1 ep nonce True s) = Some s'
    \<and> (\<exists>buffers r'. ws_read_all ns (ws_reader_new s' True) = Some (buffers, r')
         \<and> map length buffers = ns \<and> concat buffers = take (sum_list ns) (server_data frames))"
proof -
  obtain s' where s': "read_header [] s = Some (header, s')" "stream_bytes s' = server_bytes False frames" "stream_wf s'"
    using read_header_exact [OF assms(5,6), of "[]"] assms(2-4) by auto
  have "snd (upgrade base64 sha1 ep nonce True s) = Some s'"
    using s'(1) assms(1) by (simp add: upgrade_def Let_def)
  then show ?thesis using follows_read_all [OF follows_new [OF s'(3,2) assms(7)] assms(8)] by auto
qed

text \<open>An answer as the server of the tests sends it, with the digest and the encoder replaced.\<close>

definition sample_header :: bytes where
  "sample_header = str_bytes (lit ''HTTP/1.1 101 OK'' @ crlf @ lit ''Upgrade: WebSocket'' @ crlf
     @ lit ''Connection: keep-alive, Upgrade'' @ crlf @ lit ''Sec-WebSocket-Accept: AB'' @ crlf
     @ lit ''Sec-WebSocket-Protocol: mqtt'' @ crlf @ crlf)"

definition sample_frames :: "server_frame list" where
  "sample_frames = [DataFrame False [0x20], PingFrame [104, 105], DataFrame True [2, 0], PongFrame [], DataFrame True [0]]"

text \<open>An empty line anywhere in the bytes.\<close>

fun blank_line :: "bytes \<Rightarrow> bool" where
  "blank_line (a # b # c # d # s) \<longleftrightarrow> a = 13 \<and> b = 10 \<and> c = 13 \<and> d = 10 \<or> blank_line (b # c # d # s)"
| "blank_line _ \<longleftrightarrow> False"

lemma blank_line_append: "blank_line (y @ 13 # 10 # 13 # 10 # z)"
proof (induction y)
  case (Cons a y)
  then show ?case by (cases "y @ 13 # 10 # 13 # 10 # z" rule: blank_line.cases) simp_all
qed simp

lemma no_earlier_end:
  assumes "\<not> blank_line (butlast h)" and "n < length h"
  shows "\<not> ends_header (take n h)"
proof
  assume "ends_header (take n h)"
  then obtain y where y: "take n h = y @ [13, 10, 13, 10]"
    unfolding ends_header_def by (metis append_take_drop_id)
  have b: "butlast h = take n h @ drop n (butlast h)"
    using assms(2) by (metis append_take_drop_id butlast_conv_take take_take min.absorb1 less_Suc_eq_le Suc_diff_1 length_greater_0_conv list.size(3) not_less0)
  have "blank_line (take n h @ drop n (butlast h))" by (simp add: y blank_line_append)
  then have "blank_line (butlast h)" unfolding b [symmetric] .
  then show False using assms(1) by contradiction
qed

lemma sample_header_bytes: "sample_header = map word_of_nat (lit ''HTTP/1.1 101 OK'' @ crlf @ lit ''Upgrade: WebSocket'' @ crlf
     @ lit ''Connection: keep-alive, Upgrade'' @ crlf @ lit ''Sec-WebSocket-Accept: AB'' @ crlf
     @ lit ''Sec-WebSocket-Protocol: mqtt'' @ crlf @ crlf)"
  by (simp add: sample_header_def lit_def crlf_def char_bytes_def)

lemma sample_header_ends: "ends_header sample_header" "length sample_header \<le> 4096"
  "\<forall>n < length sample_header. \<not> ends_header (take n sample_header)"
proof -
  show "ends_header sample_header" by (simp add: sample_header_bytes lit_def crlf_def ends_header_def)
  show "length sample_header \<le> 4096" by (simp add: sample_header_bytes lit_def crlf_def)
  have "\<not> blank_line (butlast sample_header)" by (simp add: sample_header_bytes lit_def crlf_def)
  then show "\<forall>n < length sample_header. \<not> ends_header (take n sample_header)" using no_earlier_end by blast
qed

lemma sample_header_valid: "validate_upgrade (\<lambda>_. [65, 66]) id sample_header [65, 66]"
proof -
  let ?t = "lit ''HTTP/1.1 101 OK'' @ crlf @ lit ''Upgrade: WebSocket'' @ crlf
     @ lit ''Connection: keep-alive, Upgrade'' @ crlf @ lit ''Sec-WebSocket-Accept: AB'' @ crlf
     @ lit ''Sec-WebSocket-Protocol: mqtt'' @ crlf @ crlf"
  have "valid_str ?t" by (simp add: valid_str_def is_scalar_def lit_def crlf_def)
  then have "from_utf8 sample_header = Some ?t" unfolding sample_header_def by (rule from_utf8_str_bytes)
  moreover have "split_crlf ?t [] = [lit ''HTTP/1.1 101 OK'', lit ''Upgrade: WebSocket'',
      lit ''Connection: keep-alive, Upgrade'', lit ''Sec-WebSocket-Accept: AB'', lit ''Sec-WebSocket-Protocol: mqtt'', [], []]"
    by (simp add: lit_def crlf_def)
  ultimately show ?thesis
    by (simp add: validate_upgrade_def lit_def expected_accept_def upgrade_header_line_def eq_ignore_ascii_case_def
        ascii_lower_def trim_def trim_start_def trim_end_def is_whitespace_def crlf_def Let_def)
qed

theorem broker_stream_exact_witness:
  "\<exists>s' buffers r'. snd (upgrade (\<lambda>_. [65, 66]) id
        \<lparr>ep_host = [98], ep_port = 80, ep_path = [47], ep_websocket = True, ep_tls = False\<rparr> [] True
        \<lparr>st_fragments = [sample_header @ [2], tl (server_bytes False sample_frames)], st_broken = False\<rparr>) = Some s'
     \<and> ws_read_all [1, 2] (ws_reader_new s' True) = Some (buffers, r') \<and> concat buffers = [0x20, 2, 0]"
proof -
  let ?s = "\<lparr>st_fragments = [sample_header @ [2], tl (server_bytes False sample_frames)], st_broken = False\<rparr>"
  have s: "stream_wf ?s" "stream_bytes ?s = sample_header @ server_bytes False sample_frames"
    by (simp_all add: stream_wf_def stream_bytes_def sample_frames_def server_header_def)
  have f: "list_all server_frame_ok sample_frames" "server_data sample_frames = [0x20, 2, 0, 0]"
    by (simp_all add: sample_frames_def)
  show ?thesis
    using broker_stream_exact [OF sample_header_valid sample_header_ends(2,1,3) s f(1), of "[1, 2]"] by (simp add: f(2)) blast
qed

end
