(* ===== verification/Platform_Api.thy ===== *)
theory Platform_Api
  imports App_Context
begin

text \<open>
  The services of the board (\<open>platform/mod.rs\<close>: \<open>Platform\<close>) as the repeater sees them: clocks, a wall
  clock that only moves forward, firmware updates. Board crates implement them, so they are a record of
  functions over an abstract state; a reading returns a new state, since time passes. The environment
  also holds what the build fixes: the network profile and the firmware version. The world of a handler
  is the application context, the storage and the board.
\<close>

datatype ota_status = OtaStopped | OtaWaiting | OtaServing bytes u16 | OtaPendingBootloader

record 'p platform_api =
  pl_now_millis :: "'p \<Rightarrow> u64 \<times> 'p"
  pl_now_seconds :: "'p \<Rightarrow> u32 \<times> 'p"
  pl_set_wall_clock_if_forward :: "'p \<Rightarrow> u32 \<Rightarrow> bool \<times> 'p"
  pl_start_ota :: "'p \<Rightarrow> 'p"
  pl_stop_ota :: "'p \<Rightarrow> 'p"
  pl_ota_status :: "'p \<Rightarrow> ota_status \<times> 'p"

record ('s, 'p) env =
  en_crypto :: crypto
  en_profile :: rstr
  en_firmware_version :: rstr
  en_storage :: "'s storage_api"
  en_platform :: "'p platform_api"

record ('s, 'p) world =
  wd_context :: app_context
  wd_storage :: 's
  wd_platform :: 'p

abbreviation wd_config :: "('s, 'p) world \<Rightarrow> app_config" where
  "wd_config w \<equiv> cx_config (wd_context w)"

definition now_millis :: "('s, 'p) env \<Rightarrow> ('s, 'p) world \<Rightarrow> u64 \<times> ('s, 'p) world" where
  "now_millis E w = (let (t, p) = pl_now_millis (en_platform E) (wd_platform w) in (t, w\<lparr>wd_platform := p\<rparr>))"

definition now_seconds :: "('s, 'p) env \<Rightarrow> ('s, 'p) world \<Rightarrow> u32 \<times> ('s, 'p) world" where
  "now_seconds E w = (let (t, p) = pl_now_seconds (en_platform E) (wd_platform w) in (t, w\<lparr>wd_platform := p\<rparr>))"

definition set_wall_clock_if_forward ::
  "('s, 'p) env \<Rightarrow> u32 \<Rightarrow> ('s, 'p) world \<Rightarrow> bool \<times> ('s, 'p) world"
where
  "set_wall_clock_if_forward E seconds w =
     (let (b, p) = pl_set_wall_clock_if_forward (en_platform E) (wd_platform w) seconds
      in (b, w\<lparr>wd_platform := p\<rparr>))"

definition ota_status_of :: "('s, 'p) env \<Rightarrow> ('s, 'p) world \<Rightarrow> ota_status \<times> ('s, 'p) world" where
  "ota_status_of E w = (let (st, p) = pl_ota_status (en_platform E) (wd_platform w) in (st, w\<lparr>wd_platform := p\<rparr>))"

text \<open>A queue operation that reads the clock once. The caller learns whether the queue took the packet.\<close>

definition queue_packet ::
  "('s, 'p) env \<Rightarrow> (app_context \<Rightarrow> u64 \<Rightarrow> bytes \<Rightarrow> (outbound_error, app_context) res) \<Rightarrow> bytes \<Rightarrow>
   ('s, 'p) world \<Rightarrow> bool \<times> ('s, 'p) world"
where
  "queue_packet E enqueue packet w =
     (let (now_ms, w) = now_millis E w in
      case enqueue (wd_context w) now_ms packet of
        Inl _ \<Rightarrow> (False, w)
      | Inr ctx \<Rightarrow> (True, w\<lparr>wd_context := ctx\<rparr>))"

text \<open>Reading a clock changes the board only.\<close>

lemma clock_fields [simp]:
  "wd_context (snd (now_millis E w)) = wd_context w" "wd_storage (snd (now_millis E w)) = wd_storage w"
  "wd_context (snd (now_seconds E w)) = wd_context w" "wd_storage (snd (now_seconds E w)) = wd_storage w"
  "wd_context (snd (set_wall_clock_if_forward E t w)) = wd_context w"
  "wd_storage (snd (set_wall_clock_if_forward E t w)) = wd_storage w"
  "wd_context (snd (ota_status_of E w)) = wd_context w" "wd_storage (snd (ota_status_of E w)) = wd_storage w"
  by (simp_all add: now_millis_def now_seconds_def set_wall_clock_if_forward_def ota_status_of_def
      split: prod.split)

lemma clock_eqD:
  "now_millis E w = (t, w') \<Longrightarrow> wd_context w' = wd_context w \<and> wd_storage w' = wd_storage w"
  "now_seconds E w = (u, w') \<Longrightarrow> wd_context w' = wd_context w \<and> wd_storage w' = wd_storage w"
  "set_wall_clock_if_forward E v w = (b, w') \<Longrightarrow> wd_context w' = wd_context w \<and> wd_storage w' = wd_storage w"
  "ota_status_of E w = (st, w') \<Longrightarrow> wd_context w' = wd_context w \<and> wd_storage w' = wd_storage w"
  by (auto simp: now_millis_def now_seconds_def set_wall_clock_if_forward_def ota_status_of_def
      split: prod.splits)

text \<open>A board whose clocks stand at given times, for evaluation.\<close>

definition still_platform :: "u64 \<Rightarrow> u32 \<Rightarrow> unit platform_api" where
  "still_platform ms s =
     \<lparr>pl_now_millis = (\<lambda>p. (ms, p)), pl_now_seconds = (\<lambda>p. (s, p)),
      pl_set_wall_clock_if_forward = (\<lambda>p t. (s < t, p)), pl_start_ota = (\<lambda>p. p), pl_stop_ota = (\<lambda>p. p),
      pl_ota_status = (\<lambda>p. (OtaStopped, p))\<rparr>"

end
