(* ===== verification/Cli_Text.thy ===== *)
theory Cli_Text
  imports Platform_Api
begin

text \<open>
  The text side of the command line (\<open>app/cli.rs\<close>): numbers read and written with a fixed number of
  decimals, radio parameters, the splitting of a command, the status report in text and in its binary
  layout, the messages of errors, and the cut of a remote answer to 160 bytes.
\<close>

definition LINE_BUFFER_LEN :: nat where "LINE_BUFFER_LEN = 160"
definition REMOTE_CLI_REPLY_MAX_LEN :: nat where "REMOTE_CLI_REPLY_MAX_LEN = 160"
definition REMOTE_CLI_PREFIX :: rstr where "REMOTE_CLI_PREFIX = lit ''cli ''"
definition REPEATER_STATS_LEN :: nat where "REPEATER_STATS_LEN = 56"

definition show_word :: "'a::len word \<Rightarrow> rstr" where
  "show_word w = show_nat (unat w)"

definition pad2 :: "nat \<Rightarrow> rstr" where
  "pad2 n = replicate (2 - length (show_nat n)) 48 @ show_nat n"

section \<open>Fixed decimals\<close>

fun scaled_digits :: "nat \<Rightarrow> nat \<Rightarrow> nat \<Rightarrow> rstr" where
  "scaled_digits 0 fraction divisor = []"
| "scaled_digits (Suc decimals) fraction divisor =
     (let digit = (if divisor = 0 then 0 else fraction div divisor)
      in (48 + digit) # (if divisor \<noteq> 0 then scaled_digits decimals (fraction mod divisor) (divisor div 10)
                         else scaled_digits decimals fraction divisor))"

definition format_scaled :: "nat \<Rightarrow> nat \<Rightarrow> nat \<Rightarrow> rstr" where
  "format_scaled value' scale decimals =
     show_nat (value' div scale) @ [46] @ scaled_digits decimals (value' mod scale) (scale div 10)"

definition checked_u64 :: "nat \<Rightarrow> nat option" where
  "checked_u64 n = (if n < 2 ^ 64 then Some n else None)"

definition push_digit_u64 :: "nat \<Rightarrow> nat \<Rightarrow> nat option" where
  "push_digit_u64 n b = do { n \<leftarrow> checked_u64 (n * 10); checked_u64 (n + (b - 48)) }"

text \<open>The scan of \<open>parse_decimal_scaled\<close>: whole part, fraction, its scale, whether the point was seen.\<close>

fun scan_decimal ::
  "nat \<Rightarrow> nat list \<Rightarrow> nat \<Rightarrow> nat \<Rightarrow> nat \<Rightarrow> bool \<Rightarrow> (nat \<times> nat \<times> nat \<times> bool) option"
where
  "scan_decimal scale [] whole fraction fraction_scale seen_dot =
     Some (whole, fraction, fraction_scale, seen_dot)"
| "scan_decimal scale (b # bs) whole fraction fraction_scale seen_dot =
     (if 48 \<le> b \<and> b \<le> 57 \<and> \<not> seen_dot
      then do { whole \<leftarrow> push_digit_u64 whole b;
                scan_decimal scale bs whole fraction fraction_scale seen_dot }
      else if 48 \<le> b \<and> b \<le> 57
      then if fraction_scale < scale
           then do { fraction \<leftarrow> push_digit_u64 fraction b;
                     scan_decimal scale bs whole fraction (fraction_scale * 10) seen_dot }
           else scan_decimal scale bs whole fraction fraction_scale seen_dot
      else if b = 46 \<and> \<not> seen_dot then scan_decimal scale bs whole fraction fraction_scale True
      else None)"

definition parse_decimal_scaled :: "rstr \<Rightarrow> nat \<Rightarrow> nat option" where
  "parse_decimal_scaled input scale =
     (let input = trim input in
      if input = [] then None
      else do { (whole, fraction, fraction_scale, seen_dot) \<leftarrow>
                  scan_decimal scale (map unat (str_bytes input)) 0 0 1 False;
                scaled_whole \<leftarrow> checked_u64 (whole * scale);
                scaled_fraction \<leftarrow>
                  (if seen_dot then do { f \<leftarrow> checked_u64 (fraction * scale);
                                         if fraction_scale = 0 then None else Some (f div fraction_scale) }
                   else Some 0);
                sum \<leftarrow> checked_u64 (scaled_whole + scaled_fraction);
                if sum < 2 ^ 32 then Some sum else None })"

definition format_optional_coordinate :: "int option \<Rightarrow> rstr" where
  "format_optional_coordinate coordinate =
     (case coordinate of
        None \<Rightarrow> lit ''<null>''
      | Some c \<Rightarrow> (if c < 0 then lit ''-'' else []) @ show_nat (nat \<bar>c\<bar> div 1000000) @ [46]
                  @ pad6 (nat \<bar>c\<bar> mod 1000000))"

section \<open>Splitting\<close>

definition is_ascii_whitespace :: "rchar \<Rightarrow> bool" where
  "is_ascii_whitespace c \<longleftrightarrow> c \<in> {32, 9, 10, 12, 13}"

definition split_ascii_whitespace :: "rstr \<Rightarrow> rstr list" where
  "split_ascii_whitespace s = filter (\<lambda>part. part \<noteq> []) (split_on is_ascii_whitespace s [])"

definition parse_radio_config :: "rstr \<Rightarrow> radio_config \<Rightarrow> radio_config option" where
  "parse_radio_config input current =
     (case split_on (\<lambda>c. is_ascii_whitespace c \<or> c = 44) input [] of
        frequency # bandwidth # factor # rate # rest \<Rightarrow>
          if frequency = [] \<or> bandwidth = [] then None
          else do { n \<leftarrow> parse_unsigned 255 factor; spreading_factor \<leftarrow> sf_from_factor n;
                    d \<leftarrow> parse_unsigned 255 rate; coding_rate \<leftarrow> cr_from_denominator d;
                    if list_ex (\<lambda>part. part \<noteq> []) rest then None
                    else do { hz \<leftarrow> parse_decimal_scaled frequency 1000000;
                              bw_hz \<leftarrow> parse_decimal_scaled bandwidth 1000; bw \<leftarrow> bw_from_hz bw_hz;
                              Some (current\<lparr>rc_receive_frequency_hz := hz, rc_bandwidth := bw,
                                            rc_spreading_factor := spreading_factor,
                                            rc_coding_rate := coding_rate\<rparr>) } }
      | _ \<Rightarrow> None)"

text \<open>A correlation prefix is two hexadecimal digits and a bar; it comes back in front of the answer.\<close>

fun split_cli_correlation_prefix :: "rstr \<Rightarrow> rstr option \<times> rstr" where
  "split_cli_correlation_prefix (a # b # c # rest) =
     (if to_digit16 a \<noteq> None \<and> to_digit16 b \<noteq> None \<and> c = 124
      then (Some [a, b, c], trim rest) else (None, a # b # c # rest))"
| "split_cli_correlation_prefix command = (None, command)"

text \<open>The command line's own \<open>parse_bool\<close> does not trim.\<close>

definition parse_switch :: "rstr \<Rightarrow> bool option" where
  "parse_switch input =
     (if input = lit ''true'' \<or> input = lit ''yes'' \<or> input = lit ''on'' \<or> input = lit ''1'' then Some True
      else if input = lit ''false'' \<or> input = lit ''no'' \<or> input = lit ''off'' \<or> input = lit ''0'' then Some False
      else None)"

definition on_off_text :: "bool \<Rightarrow> rstr" where
  "on_off_text v = (if v then lit ''on'' else lit ''off'')"

section \<open>The cut of a remote answer\<close>

text \<open>The prefix of a given length in bytes, when a character ends there.\<close>

fun str_prefix :: "nat \<Rightarrow> rstr \<Rightarrow> rstr option" where
  "str_prefix n s =
     (if n = 0 then Some []
      else case s of
        [] \<Rightarrow> None
      | c # cs \<Rightarrow> if len_utf8 c \<le> n then map_option (\<lambda>p. c # p) (str_prefix (n - len_utf8 c) cs) else None)"

declare str_prefix.simps [simp del]

text \<open>\<open>String::truncate\<close> panics unless the new length is a character boundary.\<close>

definition str_truncate :: "nat \<Rightarrow> rstr \<Rightarrow> (unit, rstr) res" where
  "str_truncate n s =
     (if n \<le> str_len s then (case str_prefix n s of Some p \<Rightarrow> Ok p | None \<Rightarrow> Panicked) else Ok s)"

definition truncate_to_remote_reply_len :: "rstr \<Rightarrow> (unit, rstr) res" where
  "truncate_to_remote_reply_len s =
     (if str_len s \<le> REMOTE_CLI_REPLY_MAX_LEN then Ok s else str_truncate REMOTE_CLI_REPLY_MAX_LEN s)"

section \<open>Status\<close>

definition status_line :: "string \<Rightarrow> rstr \<Rightarrow> rstr" where
  "status_line label text = writeln (lit label @ text)"

definition airtime_percent_x100 :: "status \<Rightarrow> nat" where
  "airtime_percent_x100 st =
     (if ss_uptime_seconds st = 0 then 0
      else min (unat (ss_tx_airtime_ms st) * 10 div min (unat (ss_uptime_seconds st)) (2 ^ 32 - 1)) 10000)"

definition battery_line :: "status \<Rightarrow> rstr" where
  "battery_line st =
     (case ss_battery_millivolts st of
        Some mv \<Rightarrow> status_line ''Battery: '' (show_word mv @ lit ''mV'')
      | None \<Rightarrow>
          (case ss_battery_level_percent st of
             Some level \<Rightarrow> status_line ''Battery: '' (show_word level @ lit ''%'')
           | None \<Rightarrow> status_line ''Battery: unknown'' []))"

definition status_text_of :: "status \<Rightarrow> rstr" where
  "status_text_of st =
     status_line ''Uptime: '' (show_word (ss_uptime_seconds st) @ lit ''s'')
     @ status_line ''Packets received: '' (show_word (ss_packets_received st))
     @ status_line ''Packets sent: '' (show_word (ss_packets_sent st))
     @ status_line ''Sent (Direct): '' (show_word (ss_sent_direct st))
     @ status_line ''Sent (Flood): '' (show_word (ss_sent_flood st))
     @ status_line ''Received (Direct): '' (show_word (ss_received_direct st))
     @ status_line ''Received (Flood): '' (show_word (ss_received_flood st))
     @ status_line ''Duplicates: ''
         (show_nat (unat (ss_duplicates_direct st) + unat (ss_duplicates_flood st))
          @ lit '' (Direct: '' @ show_word (ss_duplicates_direct st)
          @ lit '', Flood: '' @ show_word (ss_duplicates_flood st) @ lit '')'')
     @ status_line ''TX airtime: '' (show_word (ss_tx_airtime_ms st) @ lit ''ms'')
     @ status_line ''TX airtime percent: ''
         (show_nat (airtime_percent_x100 st div 100) @ [46] @ pad2 (airtime_percent_x100 st mod 100) @ lit ''%'')
     @ status_line ''Packet errors: '' (show_word (ss_packet_errors st))
     @ status_line ''Outbound queue: '' (show_word (ss_outbound_queue_len st))
     @ battery_line st"

text \<open>The binary report is written field by field at a running offset; a field past the end of the
  buffer would panic.\<close>

definition write_field :: "bytes \<times> nat \<Rightarrow> bytes \<Rightarrow> (unit, bytes \<times> nat) res" where
  "write_field st field =
     (let (out, offset) = st in
      if offset + length field \<le> length out
      then Ok (take offset out @ field @ drop (offset + length field) out, offset + length field)
      else Panicked)"

fun write_fields :: "bytes \<times> nat \<Rightarrow> bytes list \<Rightarrow> (unit, bytes \<times> nat) res" where
  "write_fields st [] = Ok st"
| "write_fields st (f # fs) = and_then (write_field st f) (\<lambda>st. write_fields st fs)"

definition status_fields :: "status \<Rightarrow> bytes list" where
  "status_fields st =
     [u16_to_le (case ss_battery_millivolts st of Some mv \<Rightarrow> mv | None \<Rightarrow> 0),
      u16_to_le (ss_outbound_queue_len st), u16_to_le 0, u16_to_le (ss_last_rssi st),
      u32_to_le (ss_packets_received st), u32_to_le (ss_packets_sent st),
      u32_to_le (ss_tx_airtime_ms st div 1000),
      u32_to_le (word_of_nat (min (unat (ss_uptime_seconds st)) (2 ^ 32 - 1))),
      u32_to_le (ss_sent_flood st), u32_to_le (ss_sent_direct st),
      u32_to_le (ss_received_flood st), u32_to_le (ss_received_direct st),
      u16_to_le (word_of_nat (min (unat (ss_packet_errors st)) (2 ^ 16 - 1))),
      u16_to_le (ss_last_snr_quarters st),
      u16_to_le (ucast (ss_duplicates_direct st)), u16_to_le (ucast (ss_duplicates_flood st)),
      u32_to_le 0, u32_to_le (ss_packet_errors st)]"

definition encode_status_binary_response :: "status \<Rightarrow> bytes \<Rightarrow> (unit, bytes) res" where
  "encode_status_binary_response st out =
     and_then (write_fields (replicate REPEATER_STATS_LEN 0, 0) (status_fields st)) (\<lambda>(stats, _).
       Ok (out @ stats))"

section \<open>Messages\<close>

fun region_error_text :: "region_error \<Rightarrow> rstr" where
  "region_error_text EmptyName = lit ''empty region name''"
| "region_error_text InvalidName = lit ''invalid region name''"
| "region_error_text NameTooLong = lit ''region name too long''"
| "region_error_text RegionsFull = lit ''region table full''"
| "region_error_text RegionNotFound = lit ''unknown region''"
| "region_error_text RegionPacketEncode = lit ''packet encode failed''"
| "region_error_text PrivateRegionUnsupported = lit ''private region keys are unsupported''"

fun config_error_text :: "config_error \<Rightarrow> rstr" where
  "config_error_text CfgUnknownSetting = lit ''unknown setting''"
| "config_error_text CfgInvalidAcl = lit ''invalid ACL rule or config full''"
| "config_error_text CfgInvalidName = lit ''invalid name''"
| "config_error_text CfgInvalidLatitude = lit ''invalid latitude''"
| "config_error_text CfgInvalidLongitude = lit ''invalid longitude''"
| "config_error_text CfgInvalidFrequency = lit ''invalid frequency''"
| "config_error_text CfgInvalidTransmitPower = lit ''invalid transmit power''"
| "config_error_text CfgInvalidDutyCycle = lit ''invalid duty cycle''"
| "config_error_text CfgInvalidFloodMaxHops = lit ''invalid flood max hops''"
| "config_error_text CfgInvalidPathHashMode = lit ''invalid path hash mode''"
| "config_error_text CfgInvalidTier = lit ''invalid tier (expected 0..10)''"
| "config_error_text CfgInvalidNtpHost = lit ''invalid NTP host''"
| "config_error_text CfgInvalidWifiConfig = lit ''invalid Wi-Fi setting''"
| "config_error_text CfgInheritedRegion = lit ''inherited region cannot be removed; use region denyf''"
| "config_error_text (CfgRegion e) = lit ''region: '' @ region_error_text e"

fun storage_error_text :: "storage_error \<Rightarrow> rstr" where
  "storage_error_text StNotAvailable = lit ''NotAvailable''"
| "storage_error_text StNotFound = lit ''NotFound''"
| "storage_error_text StBufferTooSmall = lit ''BufferTooSmall''"
| "storage_error_text StInvalidKey = lit ''InvalidKey''"
| "storage_error_text StCorrupt = lit ''Corrupt''"
| "storage_error_text StIo = lit ''Io''"

fun update_error_text :: "config_update_error \<Rightarrow> rstr" where
  "update_error_text (UpdateInvalid e) = config_error_text e"
| "update_error_text (UpdateStorage e) = lit ''Storage write failed: '' @ storage_error_text e"

definition denied_text :: rstr where
  "denied_text = lit ''CLI: denied, command requires passworded login''"

definition help_text :: rstr where
  "help_text = lit ''Help: https://github.com/neilalexander/mcrs/blob/main/CONFIG.md''"

text \<open>\<open>SocketAddrV4\<close> prints as the four numbers of the address and the port.\<close>

definition socket_text :: "bytes \<Rightarrow> u16 \<Rightarrow> rstr" where
  "socket_text octets port =
     concat (map (\<lambda>i. (if i = 0 then [] else [46]) @ show_word (octets ! i)) [0..<4]) @ [58] @ show_word port"

fun ota_status_text :: "ota_status \<Rightarrow> rstr" where
  "ota_status_text OtaStopped = lit ''OTA: stopped''"
| "ota_status_text OtaWaiting = lit ''OTA: waiting for the network''"
| "ota_status_text (OtaServing octets port) = lit ''OTA: serving http://'' @ socket_text octets port @ lit ''/''"
| "ota_status_text OtaPendingBootloader = lit ''OTA: rebooting into the bootloader''"

definition discovery_tag :: "u64 \<Rightarrow> u32" where
  "discovery_tag now_ms =
     (let tag = ucast now_ms XOR word_rotl 13 (ucast (drop_bit 32 now_ms) :: u32)
      in if tag = 0 then 1 else tag)"

definition append_hex_line :: "rstr \<Rightarrow> bytes \<Rightarrow> rstr" where
  "append_hex_line label bs = label @ hex_bytes bs @ [10]"

end
