(* ===== verification/Cli_Config.thy ===== *)
theory Cli_Config
  imports Cli_Text
begin

text \<open>
  The commands that read and change the configuration (\<open>app/cli.rs\<close>: \<open>handle_get_command\<close>,
  \<open>handle_set_command\<close>, \<open>handle_unset_command\<close>, \<open>handle_region_command\<close>), with the origin and privilege of
  a request. An update stores the configuration, so these handlers may fail with the storage driver's
  error, which is part of their answer.
\<close>

section \<open>Requests\<close>

datatype cli_origin = OriginSerial | OriginTcp | OriginRemote

datatype cli_privilege = PrivLocal | PrivAnonymousRemote | PrivPasswordedRemote

record cli_request =
  rq_origin :: cli_origin
  rq_privilege :: cli_privilege
  rq_sender_timestamp :: u32

fun is_local :: "cli_origin \<Rightarrow> bool" where
  "is_local OriginSerial = True"
| "is_local OriginTcp = True"
| "is_local OriginRemote = False"

fun is_passworded :: "cli_privilege \<Rightarrow> bool" where
  "is_passworded PrivLocal = True"
| "is_passworded PrivPasswordedRemote = True"
| "is_passworded PrivAnonymousRemote = False"

definition request_serial :: cli_request where
  "request_serial = \<lparr>rq_origin = OriginSerial, rq_privilege = PrivLocal, rq_sender_timestamp = 0\<rparr>"

definition request_remote :: "cli_privilege \<Rightarrow> u32 \<Rightarrow> cli_request" where
  "request_remote privilege sender_timestamp =
     \<lparr>rq_origin = OriginRemote, rq_privilege = privilege, rq_sender_timestamp = sender_timestamp\<rparr>"

definition request_tcp :: cli_request where
  "request_tcp = \<lparr>rq_origin = OriginTcp, rq_privilege = PrivLocal, rq_sender_timestamp = 0\<rparr>"

definition allows_command :: "cli_request \<Rightarrow> rstr \<Rightarrow> bool" where
  "allows_command request command =
     (if rq_origin request \<noteq> OriginRemote \<or> rq_privilege request \<noteq> PrivAnonymousRemote then True
      else command \<in> {lit ''status'', lit ''neighbours'', lit ''neighbors'', lit ''get status''})"

section \<open>Updates\<close>

text \<open>\<open>update_config\<close> in the world; what is left of an error is its message.\<close>

definition cli_update ::
  "('s, 'p) env \<Rightarrow> (app_config \<Rightarrow> app_config \<times> unit config_result) \<Rightarrow> ('s, 'p) world \<Rightarrow>
   (unit, config_update_error option \<times> ('s, 'p) world) res"
where
  "cli_update E f w =
     (let (r, ctx, s) = update_config (en_crypto E) (en_profile E) (en_storage E) f (wd_context w, wd_storage w);
          w = w\<lparr>wd_context := ctx, wd_storage := s\<rparr>
      in case r of
           Inl Panic \<Rightarrow> Panicked
         | Inl (Fail e) \<Rightarrow> Ok (Some e, w)
         | Inr _ \<Rightarrow> Ok (None, w))"

definition setter :: "(app_config \<Rightarrow> app_config config_result) \<Rightarrow> app_config \<Rightarrow> app_config \<times> unit config_result" where
  "setter f c = (case f c of Inr c' \<Rightarrow> (c', Ok ()) | Inl e \<Rightarrow> (c, Inl e))"

definition always :: "(app_config \<Rightarrow> app_config) \<Rightarrow> app_config \<Rightarrow> app_config \<times> unit config_result" where
  "always f c = (f c, Ok ())"

text \<open>The usual answer: a text read off the new configuration, or the error.\<close>

definition update_reply ::
  "('s, 'p) env \<Rightarrow> (app_config \<Rightarrow> app_config \<times> unit config_result) \<Rightarrow> (app_config \<Rightarrow> rstr) \<Rightarrow>
   ('s, 'p) world \<Rightarrow> (unit, rstr \<times> ('s, 'p) world) res"
where
  "update_reply E f ok_text w =
     and_then (cli_update E f w) (\<lambda>(e, w).
       Ok (case e of None \<Rightarrow> ok_text (wd_config w) | Some e \<Rightarrow> lit ''Error: '' @ update_error_text e, w))"

definition reply :: "rstr \<Rightarrow> ('s, 'p) world \<Rightarrow> (unit, rstr \<times> ('s, 'p) world) res" where
  "reply text w = Ok (text, w)"

section \<open>The clock\<close>

definition status_text :: "('s, 'p) env \<Rightarrow> ('s, 'p) world \<Rightarrow> rstr \<times> ('s, 'p) world" where
  "status_text E w =
     (let (now_ms, w) = now_millis E w in (status_text_of (context_status (wd_context w) now_ms), w))"

text \<open>\<open>OK - clock set\<close> shows the clock as read after it was set.\<close>

definition set_clock :: "('s, 'p) env \<Rightarrow> u32 \<Rightarrow> ('s, 'p) world \<Rightarrow> rstr \<times> ('s, 'p) world" where
  "set_clock E seconds w =
     (let (moved, w) = set_wall_clock_if_forward E seconds w in
      if moved
      then let (now, w) = now_seconds E w in (lit ''OK - clock set: '' @ show_word now, w)
      else (lit ''Error - clock cannot go backwards'', w))"

definition handle_time_set_command ::
  "('s, 'p) env \<Rightarrow> rstr \<Rightarrow> cli_request \<Rightarrow> ('s, 'p) world \<Rightarrow> rstr \<times> ('s, 'p) world"
where
  "handle_time_set_command E seconds request w =
     (if \<not> is_passworded (rq_privilege request) then (denied_text, w)
      else case parse_unsigned (2 ^ 32 - 1) (trim seconds) of
        None \<Rightarrow> (lit ''Error - bad time'', w)
      | Some n \<Rightarrow> set_clock E (word_of_nat n) w)"

section \<open>Reading settings\<close>

definition shown :: "rstr \<Rightarrow> rstr" where
  "shown text = lit ''> '' @ text"

definition frequency_text :: "radio_config \<Rightarrow> rstr" where
  "frequency_text radio = format_scaled (rc_receive_frequency_hz radio) 1000000 3"

definition bandwidth_text :: "radio_config \<Rightarrow> rstr" where
  "bandwidth_text radio = format_scaled (bw_hz (rc_bandwidth radio)) 1000 3"

definition get_wifi :: "wifi_config \<Rightarrow> rstr \<Rightarrow> rstr" where
  "get_wifi wifi key =
     (if key = lit ''ssid'' then shown (wf_ssid wifi)
      else if key = lit ''pass'' then shown (wf_password wifi)
      else if key = lit ''telnet'' then shown (on_off_text (wf_telnet wifi))
      else lit ''Unknown config: wifi.'' @ key)"

text \<open>The keys whose value is read off the configuration.\<close>

definition get_setting :: "app_config \<Rightarrow> cli_request \<Rightarrow> rstr \<Rightarrow> rstr" where
  "get_setting c request key =
     (if key = lit ''owner.info'' then shown (map (\<lambda>ch. if ch = 10 then 124 else ch) (cf_owner_info c))
      else if key = lit ''name'' then shown (cf_node_name c)
      else if key = lit ''radio'' then
        shown (frequency_text (cf_radio c) @ [44] @ bandwidth_text (cf_radio c) @ [44]
          @ show_nat (sf_factor (rc_spreading_factor (cf_radio c))) @ [44]
          @ show_nat (cr_denominator (rc_coding_rate (cf_radio c))))
      else if key = lit ''tx'' then shown (show_int (rc_transmit_power_dbm (cf_radio c)))
      else if key = lit ''dutycycle'' then shown (show_nat (cf_duty_cycle_percent c))
      else if key = lit ''lat'' then shown (format_optional_coordinate (cf_latitude_microdegrees c))
      else if key = lit ''lon'' then shown (format_optional_coordinate (cf_longitude_microdegrees c))
      else if key = lit ''freq'' then shown (frequency_text (cf_radio c))
      else if key = lit ''public.key'' then shown (hex_bytes (id_public_key (ac_identity c)))
      else if key = lit ''prv.key'' then
        (if is_local (rq_origin request) then shown (hex_bytes (private_key_bytes (cf_private_key c))) else denied_text)
      else if key = lit ''password'' then
        (if is_local (rq_origin request) then shown (cf_remote_cli_password c) else denied_text)
      else if key = lit ''flood.max.unscoped'' then shown (show_nat (cf_flood_max_unscoped_hops c))
      else if key = lit ''flood.max.advert'' then shown (show_nat (cf_flood_max_advert_hops c))
      else if key = lit ''repeat'' then shown (repeat_text (cf_repeat_enabled c))
      else if key = lit ''advert.interval'' then shown (show_nat (cf_advert_interval_minutes c))
      else if key = lit ''flood.advert.interval'' then shown (show_nat (cf_flood_advert_interval_hours c))
      else if key = lit ''path.hash.mode'' then shown (show_nat (cf_path_hash_mode c))
      else if key = lit ''tier'' then shown (show_nat (cf_tier c))
      else if key = lit ''loop.detect'' then shown (loop_as_str (cf_loop_detection c))
      else if key = lit ''ntp'' then shown (cf_ntp c)
      else lit ''Unknown config: '' @ key)"

definition handle_get_command ::
  "('s, 'p) env \<Rightarrow> rstr \<Rightarrow> cli_request \<Rightarrow> ('s, 'p) world \<Rightarrow> rstr \<times> ('s, 'p) world"
where
  "handle_get_command E config request w =
     (case strip_prefix config (lit ''wifi.'') of
        Some key \<Rightarrow>
          (if \<not> is_local (rq_origin request) then (denied_text, w)
           else (get_wifi (cf_wifi (wd_config w)) key, w))
      | None \<Rightarrow>
          (if config = lit ''status'' then status_text E w
           else (get_setting (wd_config w) request config, w)))"

section \<open>Changing settings\<close>

text \<open>The first of the given prefixes that the command starts with decides; its handler gets the rest,
  trimmed.\<close>

fun dispatch :: "(rstr \<times> (rstr \<Rightarrow> 'r)) list \<Rightarrow> rstr \<Rightarrow> 'r \<Rightarrow> 'r" where
  "dispatch [] command otherwise = otherwise"
| "dispatch ((prefix, handler) # rest) command otherwise =
     (case strip_prefix command prefix of
        Some value' \<Rightarrow> handler (trim value')
      | None \<Rightarrow> dispatch rest command otherwise)"

text \<open>A value that does not parse is refused before anything changes.\<close>

definition parsed ::
  "'a option \<Rightarrow> string \<Rightarrow> ('a \<Rightarrow> ('s, 'p) world \<Rightarrow> (unit, rstr \<times> ('s, 'p) world) res) \<Rightarrow>
   ('s, 'p) world \<Rightarrow> (unit, rstr \<times> ('s, 'p) world) res"
where
  "parsed v message f w = (case v of None \<Rightarrow> reply (lit message) w | Some x \<Rightarrow> f x w)"

definition set_ntp_command :: "('s, 'p) env \<Rightarrow> rstr \<Rightarrow> ('s, 'p) world \<Rightarrow> (unit, rstr \<times> ('s, 'p) world) res" where
  "set_ntp_command E config =
     (let host = trim (case strip_prefix config (lit ''ntp'') of Some h \<Rightarrow> h | None \<Rightarrow> [])
      in update_reply E (setter (\<lambda>c. set_ntp c host)) (\<lambda>_. lit ''OK - applies at next NTP sync''))"

definition set_acl_command :: "('s, 'p) env \<Rightarrow> rstr \<Rightarrow> ('s, 'p) world \<Rightarrow> (unit, rstr \<times> ('s, 'p) world) res" where
  "set_acl_command E config =
     (case split_ascii_whitespace config of
        [_, key, role] \<Rightarrow>
          if role \<noteq> lit ''admin'' \<and> role \<noteq> lit ''deny''
          then reply (lit ''Error, use admin|deny (remove with unset acl <pubkey>)'')
          else update_reply E (setter (\<lambda>c. set_acl_rule (en_crypto E) (en_profile E) c key role)) (\<lambda>_. lit ''OK'')
      | _ \<Rightarrow> reply (lit ''Error, use set acl <pubkey> admin|deny''))"

definition set_wifi_field ::
  "('s, 'p) env \<Rightarrow> rstr \<Rightarrow> rstr \<Rightarrow> ('s, 'p) world \<Rightarrow> (unit, rstr \<times> ('s, 'p) world) res"
where
  "set_wifi_field E key v =
     (let ok = (\<lambda>_. lit ''OK - reboot to apply'') in
      if key = lit ''ssid'' then update_reply E (setter (\<lambda>c. set_wifi_ssid c v)) ok
      else if key = lit ''pass'' then update_reply E (setter (\<lambda>c. set_wifi_password c v)) ok
      else if key = lit ''telnet'' then
        parsed (parse_switch v) ''Error, invalid wifi.telnet value'' (\<lambda>enabled.
          update_reply E (always (\<lambda>c. set_wifi_telnet c enabled)) ok)
      else reply (lit ''Error, unknown Wi-Fi setting''))"

definition set_wifi_command ::
  "('s, 'p) env \<Rightarrow> cli_request \<Rightarrow> rstr \<Rightarrow> ('s, 'p) world \<Rightarrow> (unit, rstr \<times> ('s, 'p) world) res"
where
  "set_wifi_command E request assignment =
     (if \<not> is_local (rq_origin request) then reply denied_text
      else case split_once 32 assignment of
        Some (key, v) \<Rightarrow> set_wifi_field E (trim key) (trim v)
      | None \<Rightarrow> if trim assignment = lit ''pass'' then set_wifi_field E (lit ''pass'') []
                else reply (lit ''Error, missing Wi-Fi value''))"

definition set_location_command ::
  "('s, 'p) env \<Rightarrow> rstr \<Rightarrow> int option option \<Rightarrow> (app_config \<Rightarrow> int option \<Rightarrow> app_config config_result) \<Rightarrow>
   (app_config \<Rightarrow> int option) \<Rightarrow> ('s, 'p) world \<Rightarrow> (unit, rstr \<times> ('s, 'p) world) res"
where
  "set_location_command E label coordinate set_field get_field w =
     (case coordinate of
        None \<Rightarrow> reply (lit ''Error, invalid '' @ label) w
      | Some v \<Rightarrow> update_reply E (setter (\<lambda>c. set_field c v))
                    (\<lambda>c. lit ''OK - '' @ label @ lit '' now: '' @ format_optional_coordinate (get_field c)) w)"

definition set_private_key_command ::
  "('s, 'p) env \<Rightarrow> rstr \<Rightarrow> ('s, 'p) world \<Rightarrow> (unit, rstr \<times> ('s, 'p) world) res"
where
  "set_private_key_command E hex =
     parsed (private_key_from_hex hex) ''Error, bad key'' (\<lambda>key.
       update_reply E (always (\<lambda>c. set_private_key c key))
         (\<lambda>_. lit ''OK, reboot to apply! New pubkey: ''
              @ hex_bytes (id_public_key (identity_from_private_key (en_crypto E) key))))"

definition set_radio_command ::
  "('s, 'p) env \<Rightarrow> rstr \<Rightarrow> ('s, 'p) world \<Rightarrow> (unit, rstr \<times> ('s, 'p) world) res"
where
  "set_radio_command E params w =
     parsed (parse_radio_config params (cf_radio (wd_config w))) ''Error, invalid radio params'' (\<lambda>radio.
       update_reply E (setter (\<lambda>c. set_radio c radio)) (\<lambda>_. lit ''OK - reboot to apply'')) w"

definition set_frequency_command ::
  "('s, 'p) env \<Rightarrow> rstr \<Rightarrow> ('s, 'p) world \<Rightarrow> (unit, rstr \<times> ('s, 'p) world) res"
where
  "set_frequency_command E freq w =
     parsed (parse_decimal_scaled freq 1000000) ''Error, invalid frequency'' (\<lambda>hz.
       let radio = (cf_radio (wd_config w))\<lparr>rc_receive_frequency_hz := hz\<rparr>
       in update_reply E (setter (\<lambda>c. set_radio c radio)) (\<lambda>_. lit ''OK - reboot to apply'')) w"

text \<open>Names, numbers and switches: how the text is read, what is stored, what the answer shows.\<close>

definition text_arms ::
  "('s, 'p) env \<Rightarrow> cli_request \<Rightarrow> (rstr \<times> (rstr \<Rightarrow> ('s, 'p) world \<Rightarrow> (unit, rstr \<times> ('s, 'p) world) res)) list"
where
  "text_arms E request =
     [(lit ''name '', \<lambda>v. update_reply E (setter (\<lambda>c. set_node_name c v))
         (\<lambda>c. lit ''OK - name now: '' @ cf_node_name c)),
      (lit ''password '', \<lambda>v. update_reply E (always (\<lambda>c. set_remote_cli_password c v)) (\<lambda>_. lit ''OK'')),
      (lit ''time '', \<lambda>v w. Ok (handle_time_set_command E v request w)),
      (lit ''lat '', \<lambda>v. set_location_command E (lit ''latitude'') (parse_latitude_microdegrees v)
         set_latitude_microdegrees cf_latitude_microdegrees),
      (lit ''lon '', \<lambda>v. set_location_command E (lit ''longitude'') (parse_longitude_microdegrees v)
         set_longitude_microdegrees cf_longitude_microdegrees),
      (lit ''prv.key '', set_private_key_command E),
      (lit ''radio '', set_radio_command E)]"

definition number_arms ::
  "('s, 'p) env \<Rightarrow> (rstr \<times> (rstr \<Rightarrow> ('s, 'p) world \<Rightarrow> (unit, rstr \<times> ('s, 'p) world) res)) list"
where
  "number_arms E =
     [(lit ''tx '', \<lambda>v. parsed (parse_i32 (trim v)) ''Error, invalid tx power'' (\<lambda>power.
         update_reply E (\<lambda>c. set_transmit_power_dbm c power) (\<lambda>_. lit ''OK - reboot to apply''))),
      (lit ''dutycycle '', \<lambda>v. parsed (parse_unsigned 255 v) ''Error, invalid duty cycle percentage'' (\<lambda>percent.
         update_reply E (setter (\<lambda>c. set_duty_cycle_percent c percent))
           (\<lambda>_. lit ''OK - dutycycle now: '' @ show_nat percent @ lit ''%''))),
      (lit ''flood.max.unscoped '', \<lambda>v. parsed (parse_flood_max_hops v) ''Error, invalid flood max hops'' (\<lambda>hops.
         update_reply E (setter (\<lambda>c. set_flood_max_unscoped_hops c hops))
           (\<lambda>_. lit ''OK - flood.max.unscoped now: '' @ show_nat hops))),
      (lit ''flood.max.advert '', \<lambda>v. parsed (parse_flood_max_hops v) ''Error, invalid flood max hops'' (\<lambda>hops.
         update_reply E (setter (\<lambda>c. set_flood_max_advert_hops c hops))
           (\<lambda>_. lit ''OK - flood.max.advert now: '' @ show_nat hops))),
      (lit ''repeat '', \<lambda>v. parsed (parse_repeat v) ''Error, invalid repeat setting (expected on or off)'' (\<lambda>enabled.
         update_reply E (always (\<lambda>c. set_repeat_enabled c enabled))
           (\<lambda>_. lit ''OK - repeat is now '' @ (if enabled then lit ''ON'' else lit ''OFF'')))),
      (lit ''advert.interval '', \<lambda>v. parsed (parse_unsigned (2 ^ 32 - 1) v)
         ''Error, invalid zero-hop advert interval (expected whole minutes, 0 disables)'' (\<lambda>minutes.
         update_reply E (always (\<lambda>c. set_advert_interval_minutes c minutes))
           (\<lambda>c. lit ''OK - advert.interval now: '' @ show_nat (cf_advert_interval_minutes c)))),
      (lit ''flood.advert.interval '', \<lambda>v. parsed (parse_unsigned (2 ^ 32 - 1) v)
         ''Error, invalid flood advert interval (expected whole hours, 0 disables)'' (\<lambda>hours.
         update_reply E (always (\<lambda>c. set_flood_advert_interval_hours c hours))
           (\<lambda>_. lit ''OK - flood.advert.interval now: '' @ show_nat hours))),
      (lit ''path.hash.mode '', \<lambda>v. parsed (parse_path_hash_mode v) ''Error, invalid path hash mode'' (\<lambda>mode.
         update_reply E (setter (\<lambda>c. set_path_hash_mode c mode))
           (\<lambda>_. lit ''OK - path.hash.mode now: '' @ show_nat mode))),
      (lit ''tier '', \<lambda>v. parsed (parse_unsigned 255 v) ''Error, invalid tier (expected 0..10)'' (\<lambda>tier.
         update_reply E (setter (\<lambda>c. set_tier c tier)) (\<lambda>_. lit ''OK - tier now: '' @ show_nat tier))),
      (lit ''loop.detect '', \<lambda>v. parsed (loop_parse v) ''Error, expected off, minimal, moderate, or strict'' (\<lambda>mode.
         update_reply E (always (\<lambda>c. set_loop_detection c mode))
           (\<lambda>_. lit ''OK - loop.detect now: '' @ loop_as_str mode)))]"

definition set_arms ::
  "('s, 'p) env \<Rightarrow> cli_request \<Rightarrow> (rstr \<times> (rstr \<Rightarrow> ('s, 'p) world \<Rightarrow> (unit, rstr \<times> ('s, 'p) world) res)) list"
where
  "set_arms E request = text_arms E request @ number_arms E
     @ (if is_local (rq_origin request) then [(lit ''freq '', set_frequency_command E)] else [])"

definition handle_set_command ::
  "('s, 'p) env \<Rightarrow> rstr \<Rightarrow> cli_request \<Rightarrow> ('s, 'p) world \<Rightarrow> (unit, rstr \<times> ('s, 'p) world) res"
where
  "handle_set_command E config request w =
     (if \<not> is_passworded (rq_privilege request) then reply denied_text w
      else if config = lit ''ntp'' \<or> starts_with config (lit ''ntp '') then set_ntp_command E config w
      else if config = lit ''acl'' \<or> starts_with config (lit ''acl '') then set_acl_command E config w
      else case strip_prefix config (lit ''wifi.'') of
        Some assignment \<Rightarrow> set_wifi_command E request assignment w
      | None \<Rightarrow>
          (case (if config = lit ''owner.info'' then Some [] else strip_prefix config (lit ''owner.info '')) of
             Some owner_info \<Rightarrow>
               update_reply E (always (\<lambda>c. set_owner_info c owner_info)) (\<lambda>_. lit ''OK'') w
           | None \<Rightarrow> dispatch (set_arms E request) config (reply (lit ''Unknown config: '' @ config)) w))"

section \<open>Resetting settings\<close>

definition handle_unset_command ::
  "('s, 'p) env \<Rightarrow> rstr \<Rightarrow> cli_request \<Rightarrow> ('s, 'p) world \<Rightarrow> (unit, rstr \<times> ('s, 'p) world) res"
where
  "handle_unset_command E name request w =
     (if \<not> is_passworded (rq_privilege request) then reply denied_text w
      else if name = [] then reply (lit ''Error, missing config name'') w
      else if (starts_with name (lit ''wifi.'') \<or> starts_with name (lit ''mqtt.'') \<or> name = lit ''freq'')
        \<and> \<not> is_local (rq_origin request) then reply denied_text w
      else and_then (cli_update E (\<lambda>c. config_unset (en_crypto E) (en_profile E) c name) w) (\<lambda>(e, w).
        Ok (case e of
              None \<Rightarrow>
                if name = lit ''ntp'' then lit ''OK - reset to default; applies at next NTP sync''
                else if name \<in> {lit ''wifi.ssid'', lit ''wifi.pass'', lit ''wifi.telnet'', lit ''radio'',
                                lit ''freq'', lit ''tx''} then lit ''OK - reset to default; reboot to apply''
                else lit ''OK - reset to default''
            | Some e \<Rightarrow>
                if e = UpdateInvalid CfgUnknownSetting then lit ''Unknown config: '' @ name
                else lit ''Error: '' @ update_error_text e, w)))"

section \<open>Regions\<close>

definition names_or_none :: "rstr \<Rightarrow> rstr" where
  "names_or_none names = (if names = [] then lit ''-none-'' else names)"

definition default_region_text :: "app_config \<Rightarrow> rstr" where
  "default_region_text c =
     (case default_region (cf_regions c) of Some e \<Rightarrow> re_name e | None \<Rightarrow> lit ''<null>'')"

definition quoted :: "string \<Rightarrow> string" where
  "quoted s = CHR 0x27 # s @ [CHR 0x27]"

definition region_list :: "app_config \<Rightarrow> rstr option \<Rightarrow> rstr" where
  "region_list c which =
     (if which = Some (lit ''allowed'') then names_or_none (allowed_names (cf_regions c))
      else if which = Some (lit ''denied'') then names_or_none (denied_names (cf_regions c))
      else lit (''Err - use '' @ quoted ''allowed'' @ '' or '' @ quoted ''denied''))"

definition region_get :: "app_config \<Rightarrow> rstr option \<Rightarrow> rstr" where
  "region_get c name =
     (case name of
        None \<Rightarrow> lit ''Err - missing region''
      | Some name \<Rightarrow>
          (case find_by_name_prefix (cf_regions c) name of
             Some e \<Rightarrow> lit '' '' @ re_name e @ lit '' '' @ (if allows_flood e then lit ''F'' else [])
           | None \<Rightarrow> lit ''Err - unknown region''))"

text \<open>A change to the region table: refused without privilege, then without a name.\<close>

definition region_change ::
  "('s, 'p) env \<Rightarrow> cli_request \<Rightarrow> rstr option \<Rightarrow> (rstr \<Rightarrow> app_config \<Rightarrow> app_config config_result) \<Rightarrow> string \<Rightarrow>
   ('s, 'p) world \<Rightarrow> (unit, rstr \<times> ('s, 'p) world) res"
where
  "region_change E request name change ok_text w =
     (if \<not> is_passworded (rq_privilege request) then reply denied_text w
      else parsed name ''Err - missing region'' (\<lambda>name.
        update_reply E (setter (change name)) (\<lambda>_. lit ok_text)) w)"

definition region_default ::
  "('s, 'p) env \<Rightarrow> cli_request \<Rightarrow> rstr option \<Rightarrow> ('s, 'p) world \<Rightarrow> (unit, rstr \<times> ('s, 'p) world) res"
where
  "region_default E request name w =
     (case name of
        None \<Rightarrow> reply (lit ''Default scope is '' @ default_region_text (wd_config w)) w
      | Some name \<Rightarrow>
          if \<not> is_passworded (rq_privilege request) then reply denied_text w
          else update_reply E
            (\<lambda>c. set_default_region c (if name \<noteq> lit ''<null>'' then Some name else None))
            (\<lambda>c. lit ''Default scope is now '' @ default_region_text c) w)"

definition region_capture_command ::
  "('s, 'p) env \<Rightarrow> cli_request \<Rightarrow> rstr option \<Rightarrow> ('s, 'p) world \<Rightarrow> (unit, rstr \<times> ('s, 'p) world) res"
where
  "region_capture_command E request v w =
     (case v of
        None \<Rightarrow> reply (lit ''Region capture is '' @ on_off_text (cf_region_capture (wd_config w))) w
      | Some v \<Rightarrow>
          if \<not> is_passworded (rq_privilege request) then reply denied_text w
          else parsed (parse_switch v) (''Err - use '' @ quoted ''on'' @ '' or '' @ quoted ''off'') (\<lambda>enabled.
            update_reply E (always (\<lambda>c. set_region_capture c enabled))
              (\<lambda>_. lit ''Region capture is now '' @ on_off_text enabled)) w)"

definition handle_region_command ::
  "('s, 'p) env \<Rightarrow> rstr \<Rightarrow> cli_request \<Rightarrow> ('s, 'p) world \<Rightarrow> (unit, rstr \<times> ('s, 'p) world) res"
where
  "handle_region_command E command request w =
     (case drop 1 (split_ascii_whitespace command) of
        [] \<Rightarrow> reply (write_tree (cf_regions (wd_config w))) w
      | action # rest \<Rightarrow>
          let argument = (case rest of [] \<Rightarrow> None | a # _ \<Rightarrow> Some a); C = en_crypto E; P = en_profile E in
          if action = lit ''list'' then reply (region_list (wd_config w) argument) w
          else if action = lit ''get'' then reply (region_get (wd_config w) argument) w
          else if action = lit ''default'' then region_default E request argument w
          else if action = lit ''capture'' then region_capture_command E request argument w
          else if action = lit ''put'' then
            region_change E request argument (\<lambda>name c. config_put_region c name) ''OK - (flood allowed)'' w
          else if action = lit ''remove'' then
            region_change E request argument (\<lambda>name c. config_remove_region C P c name) ''OK'' w
          else if action = lit ''allowf'' \<or> action = lit ''denyf'' then
            region_change E request argument
              (\<lambda>name c. set_region_flood_allowed c name (action = lit ''allowf'')) ''OK'' w
          else if action = lit ''save'' then reply (lit ''OK'') w
          else if action = lit ''load'' then reply (lit ''OK - use app.conf'') w
          else reply (lit ''Err - ??'') w)"

end
