(* ===== verification/Discovery.thy ===== *)
theory Discovery
  imports Platform_Api Image_Config
begin

text \<open>
  Announcing this repeater and finding the others (\<open>app/discovery.rs\<close>): signed adverts, direct or
  flooded within the default region, and the zero-hop discovery exchange.
\<close>

section \<open>Adverts\<close>

fun fit_advert_chars :: "nat \<Rightarrow> rstr \<Rightarrow> rstr \<Rightarrow> rstr" where
  "fit_advert_chars limit [] out = out"
| "fit_advert_chars limit (c # cs) out =
     (if limit < str_len out + len_utf8 c then out else fit_advert_chars limit cs (out @ [c]))"

definition advert_name :: "rstr \<Rightarrow> bool \<Rightarrow> rstr option" where
  "advert_name name has_location =
     (let fixed_len = 1 + (if has_location then 8 else 0);
          max_name_len = MAX_ADVERT_DATA_SIZE - fixed_len
      in if max_name_len = 0 then None
         else let out = fit_advert_chars max_name_len name [] in
           if out = [] then None else Some out)"

definition advert_path :: "app_config \<Rightarrow> path option" where
  "advert_path config =
     do { hs \<leftarrow> res_ok (hash_size_from_code (word_of_nat (cf_path_hash_mode config)));
          res_ok (path_new hs []) }"

definition advert_app_data_of :: "app_config \<Rightarrow> advert_app_data" where
  "advert_app_data_of config =
     (let location = map_option (\<lambda>(lat, lon). (word_of_int lat, word_of_int lon)) (location_of config) in
      \<lparr>ad_node_type = NodeRepeater, ad_location = location, ad_feature1 = None, ad_feature2 = None,
       ad_name = advert_name (cf_node_name config) (location \<noteq> None)\<rparr>)"

definition advert_packet :: "crypto \<Rightarrow> app_config \<Rightarrow> route_type \<Rightarrow> u32 \<Rightarrow> packet option" where
  "advert_packet C config route timestamp =
     (let app_data = advert_app_data_of config in
      do { app_data_bytes \<leftarrow> res_ok (app_data_encode app_data);
           let public_key = id_public_key (ac_identity config);
           let signed = public_key @ u32_to_le timestamp @ app_data_bytes;
           path \<leftarrow> advert_path config;
           Some \<lparr>route_type = route, transport_codes = None, packet_path = Normal path,
                 packet_payload = PAdvert
                   \<lparr>av_public_key = public_key, av_timestamp = timestamp,
                    av_signature = identity_sign C (ac_identity config) signed,
                    av_app_data = Some app_data\<rparr>\<rparr> })"

definition advert :: "crypto \<Rightarrow> app_config \<Rightarrow> route_type \<Rightarrow> u32 \<Rightarrow> bytes option" where
  "advert C config route timestamp =
     do { packet \<leftarrow> advert_packet C config route timestamp; res_ok (packet_encode packet) }"

definition zero_hop_advert :: "crypto \<Rightarrow> app_config \<Rightarrow> u32 \<Rightarrow> bytes option" where
  "zero_hop_advert C config timestamp = advert C config Direct timestamp"

definition flood_advert :: "crypto \<Rightarrow> app_config \<Rightarrow> u32 \<Rightarrow> bytes option" where
  "flood_advert C config timestamp =
     do { packet \<leftarrow> advert_packet C config Flood timestamp;
          (_, packet) \<leftarrow> res_ok (apply_default_scope C (cf_regions config) packet);
          res_ok (packet_encode packet) }"

section \<open>Neighbour discovery\<close>

definition zero_hop_control :: "control_payload \<Rightarrow> packet" where
  "zero_hop_control payload =
     \<lparr>route_type = Direct, transport_codes = None, packet_path = Normal path_empty,
      packet_payload = PControl payload\<rparr>"

definition repeater_filter :: u8 where
  "repeater_filter = push_bit (unat (advert_node_type_to_nibble NodeRepeater)) 1"

definition discover_neighbours_request :: "u32 \<Rightarrow> bytes option" where
  "discover_neighbours_request tag =
     res_ok (packet_encode (zero_hop_control (discover_request repeater_filter tag (Some 0) False)))"

definition is_zero_hop :: "packet \<Rightarrow> bool" where
  "is_zero_hop packet =
     (case packet_path packet of
        TraceRoute _ \<Rightarrow> False
      | Normal path \<Rightarrow> is_direct (route_type packet) \<and> hop_count path = 0)"

text \<open>The clock is read only for a request that asks for repeaters heard since a time.\<close>

definition handle_discover_request ::
  "('s, 'p) env \<Rightarrow> i16 \<Rightarrow> bool \<Rightarrow> u8 \<Rightarrow> u32 \<Rightarrow> u32 option \<Rightarrow> ('s, 'p) world \<Rightarrow>
   bytes option \<times> ('s, 'p) world"
where
  "handle_discover_request E snr_quarters prefix_only type_filter tag since w =
     (if \<not> cf_repeat_enabled (wd_config w) then (None, w)
      else if type_filter AND repeater_filter = 0 then (None, w)
      else let (in_future, w) =
             (case since of
                None \<Rightarrow> (False, w)
              | Some t \<Rightarrow> let (now, w) = now_seconds E w in (now < t, w))
        in if in_future then (None, w)
        else let public_key = context_public_key (wd_context w);
                 prefix_len = (if prefix_only then 8 else length public_key);
                 payload = discover_response NodeRepeater (clamp_i16_i8 snr_quarters) tag
                             (take prefix_len public_key)
          in (res_ok (packet_encode (zero_hop_control payload)), w))"

definition handle_discover_response ::
  "i16 \<Rightarrow> i16 \<Rightarrow> u64 \<Rightarrow> advert_node_type \<Rightarrow> u32 \<Rightarrow> bytes \<Rightarrow> app_context \<Rightarrow> app_context"
where
  "handle_discover_response rssi snr_quarters now_ms node_type tag pubkey ctx =
     (if node_type \<noteq> NodeRepeater \<or> length pubkey \<noteq> PUB_KEY_SIZE then ctx
      else let (accepted, ctx) = accept_discover_response ctx tag now_ms in
        if \<not> accepted then ctx
        else observe_neighbour_public_key ctx pubkey rssi snr_quarters now_ms)"

definition handle_control_packet ::
  "('s, 'p) env \<Rightarrow> packet \<Rightarrow> i16 \<Rightarrow> i16 \<Rightarrow> u64 \<Rightarrow> ('s, 'p) world \<Rightarrow> bytes option \<times> ('s, 'p) world"
where
  "handle_control_packet E packet rssi snr_quarters now_ms w =
     (if \<not> is_zero_hop packet then (None, w)
      else case packet_payload packet of
        PControl payload \<Rightarrow>
          (case res_ok (control_message_of payload) of
             None \<Rightarrow> (None, w)
           | Some (DiscoverRequest prefix_only type_filter tag since) \<Rightarrow>
               handle_discover_request E snr_quarters prefix_only type_filter tag since w
           | Some (DiscoverResponse node_type _ tag pubkey) \<Rightarrow>
               (None, w\<lparr>wd_context := handle_discover_response rssi snr_quarters now_ms node_type tag pubkey
                                        (wd_context w)\<rparr>)
           | Some (UnknownControl _) \<Rightarrow> (None, w))
      | _ \<Rightarrow> (None, w))"

section \<open>Adverts verify\<close>

lemma fit_advert_chars_bound:
  "str_len out \<le> limit \<Longrightarrow> valid_str out \<Longrightarrow> valid_str cs \<Longrightarrow>
     str_len (fit_advert_chars limit cs out) \<le> limit \<and> valid_str (fit_advert_chars limit cs out)"
  by (induction limit cs out rule: fit_advert_chars.induct) (auto simp: not_less)

lemma advert_name_bound:
  assumes "valid_str name" and "advert_name name loc = Some out"
  shows "length (str_bytes out) \<le> (if loc then 23 else 31)" and "valid_str out"
  using assms fit_advert_chars_bound [of "[]" "if loc then 23 else 31" name]
  by (auto simp: advert_name_def Let_def MAX_ADVERT_DATA_SIZE_def str_len_def split: if_splits)

text \<open>Whatever the node is called and wherever it is, its application data fits an advert.\<close>

lemma advert_app_data_encodes:
  assumes "valid_str (cf_node_name config)"
  shows "app_data_wf (advert_app_data_of config)"
    and "\<exists>bs. app_data_encode (advert_app_data_of config) = Ok bs \<and> length bs \<le> 32"
proof -
  let ?d = "advert_app_data_of config"
  have n: "length (str_bytes out) \<le> (if ad_location ?d \<noteq> None then 23 else 31) \<and> valid_str out"
    if "ad_name ?d = Some out" for out
    using that advert_name_bound [OF assms] by (auto simp: advert_app_data_of_def Let_def)
  show "app_data_wf ?d"
    using n by (auto simp: app_data_wf_def advert_app_data_of_def Let_def split: option.split)
  have "length (opt_bytes str_bytes (ad_name ?d)) \<le> (if ad_location ?d \<noteq> None then 23 else 31)"
    using n by (auto simp: opt_bytes_def split: option.split)
  moreover have "length (opt_bytes location_bytes (ad_location ?d)) = (if ad_location ?d \<noteq> None then 8 else 0)"
    by (auto simp: opt_bytes_def location_bytes_def split: option.split)
  moreover have "ad_feature1 ?d = None" "ad_feature2 ?d = None"
    by (simp_all add: advert_app_data_of_def Let_def)
  ultimately show "\<exists>bs. app_data_encode ?d = Ok bs \<and> length bs \<le> 32"
    by (auto simp: app_data_encode_bytes opt_bytes_def [of u16_to_le])
qed

lemma identity_signature_verifies:
  assumes "crypto_laws C" and "signature_laws C" and "private_key_wf k"
  defines "i \<equiv> identity_from_private_key C k"
  shows "ed25519_verify C (id_public_key i) m (identity_sign C i m)" and "verifying_key_ok C (id_public_key i)"
proof -
  have "length (expanded_bytes C k) = 64"
    using assms(3) crypto_lengths(2) [OF assms(1)] by (cases k) (simp_all add: private_key_wf_def)
  then show "ed25519_verify C (id_public_key i) m (identity_sign C i m)" "verifying_key_ok C (id_public_key i)"
    using assms(2,3) unfolding i_def
    by (cases k; simp add: identity_from_private_key_def identity_sign_def Let_def signature_laws_def
        private_key_wf_def)+
qed

lemma advert_path_total:
  assumes "cf_path_hash_mode config \<le> 2"
  obtains path where "advert_path config = Some path" and "path_wf path" and "hop_count path = 0"
proof -
  have "cf_path_hash_mode config \<in> {0, 1, 2}" using assms by auto
  then obtain hs where hs: "hash_size_from_code (word_of_nat (cf_path_hash_mode config)) = Ok hs"
    by (auto simp: hash_size_from_code_def)
  have wf: "path_wf \<lparr>path_hash_size = hs, path_bytes = []\<rparr>" by (simp add: path_wf_def hop_count_def)
  moreover from wf have "res_ok (path_new hs []) = Some \<lparr>path_hash_size = hs, path_bytes = []\<rparr>" by simp
  ultimately show thesis
    using that hs by (simp add: advert_path_def hop_count_def del: path_new_Ok_iff)
qed

text \<open>What \<open>advert_packet\<close> builds, for a configuration whose identity belongs to its key.\<close>

definition announcing :: "crypto \<Rightarrow> app_config \<Rightarrow> bool" where
  "announcing C config \<longleftrightarrow> private_key_wf (cf_private_key config)
     \<and> ac_identity config = identity_from_private_key C (cf_private_key config)
     \<and> valid_str (cf_node_name config) \<and> cf_path_hash_mode config \<le> 2"

lemma advert_packet_total:
  assumes laws: "crypto_laws C" "signature_laws C" and ok: "announcing C config"
  obtains a path where
    "advert_packet C config route t = Some \<lparr>route_type = route, transport_codes = None,
       packet_path = Normal path, packet_payload = PAdvert a\<rparr>"
    and "path_wf path" and "hop_count path = 0" and "advert_wf a" and "verify_signature C a"
    and "av_public_key a = id_public_key (ac_identity config)"
    and "av_app_data a = Some (advert_app_data_of config)"
    and "\<exists>pl. advert_encode a [] = Ok pl \<and> length pl \<le> 184"
proof -
  let ?i = "ac_identity config"
  have i: "?i = identity_from_private_key C (cf_private_key config)" and k: "private_key_wf (cf_private_key config)"
    and name: "valid_str (cf_node_name config)" and mode: "cf_path_hash_mode config \<le> 2"
    using ok by (simp_all add: announcing_def)
  obtain path where path: "advert_path config = Some path" "path_wf path" "hop_count path = 0"
    using advert_path_total [OF mode] .
  obtain bs where bs: "app_data_encode (advert_app_data_of config) = Ok bs" "length bs \<le> 32"
    using advert_app_data_encodes [OF name] by blast
  let ?m = "id_public_key ?i @ u32_to_le t @ bs"
  let ?a = "\<lparr>av_public_key = id_public_key ?i, av_timestamp = t, av_signature = identity_sign C ?i ?m,
             av_app_data = Some (advert_app_data_of config)\<rparr>"
  have len: "length (id_public_key ?i) = 32" "length (identity_sign C ?i ?m) = 64"
    using identity_lengths(1) [OF laws(1)] identity_sign_length [OF laws(1)] by (simp_all add: i)
  have "verify_signature C ?a"
    using identity_signature_verifies [OF laws k] bs(1)
    by (simp add: verify_signature_def signed_message_def opt_app_data_bytes_def i)
  moreover have "advert_wf ?a"
    using len advert_app_data_encodes(1) [OF name] by (simp add: advert_wf_def)
  moreover have "\<exists>pl. advert_encode ?a [] = Ok pl \<and> length pl \<le> 184"
    using bs len by (simp add: advert_encode_def opt_app_data_bytes_def)
  ultimately show thesis
    using that [of path ?a] path bs(1) by (simp add: advert_packet_def Let_def)
qed

section \<open>Adverts are heard\<close>

text \<open>A neighbour with this key, heard just now with these signal values.\<close>

definition heard :: "neighbour_table \<Rightarrow> bytes \<Rightarrow> u64 \<Rightarrow> i16 \<Rightarrow> i16 \<Rightarrow> bool" where
  "heard t key now rssi snr \<longleftrightarrow> (\<exists>n \<in> set (nt_entries t). nb_public_key n = key \<and> nb_last_seen_ms n = now
     \<and> nb_last_rssi n = rssi \<and> nb_last_snr_quarters n = snr)"

lemma observe_packet_heard:
  assumes "immediate_neighbour C packet = Some key" and "neighbours_inv h t"
    and "\<not> public_key_matches_hash key h" and "0 < nt_capacity t"
  shows "heard (observe_packet C t packet rssi snr now h) key now rssi snr"
  using observe_public_key_present [OF assms(2-4)] assms(1,3) by (simp add: heard_def observe_packet_def)

text \<open>An advert is heard on any route that is not relayed, with or without a region's code.\<close>

lemma advert_decodes:
  assumes "advert_wf a" and "path_wf path" and "hop_count path = 0"
    and "packet_encode \<lparr>route_type = r, transport_codes = codes, packet_path = Normal path, packet_payload = PAdvert a\<rparr> = Ok bs"
    and "verify_signature C a" and "av_app_data a = Some d" and "ad_node_type d = NodeRepeater"
  shows "\<exists>packet. packet_decode bs = Ok packet \<and> immediate_neighbour C packet = Some (av_public_key a)"
proof -
  let ?p = "\<lparr>route_type = r, transport_codes = codes, packet_path = Normal path, packet_payload = PAdvert a\<rparr>"
  have "packet_decode bs = Ok ?p"
    using assms(1,4) by (intro packet_decode_encode) (simp_all add: packet_wf_def packet_kind_def)
  moreover have "immediate_neighbour C ?p = Some (av_public_key a)"
    using assms by (cases r) (simp_all add: immediate_neighbour_def)
  ultimately show ?thesis by blast
qed

lemma apply_default_scope_shape:
  assumes "apply_default_scope C m p = Ok (scoped, q)"
  shows "\<exists>r codes. q = p\<lparr>route_type := r, transport_codes := codes\<rparr>"
proof -
  have same: "\<exists>r codes. q = q\<lparr>route_type := r, transport_codes := codes\<rparr>"
    by (intro exI [of _ "route_type q"] exI [of _ "transport_codes q"]) simp
  have "\<exists>r codes. q = p\<lparr>route_type := r, transport_codes := codes\<rparr>"
    if "apply_scope C p region = Ok q" for region
    using that by (auto simp: apply_scope_def and_then_Ok_iff split: if_splits)
  then show ?thesis using same assms by (auto simp: apply_default_scope_def and_then_Ok_iff split: option.splits)
qed

section \<open>Properties\<close>

text \<open>C18: A repeater's adverts are learned. Whatever its name and position, the zero-hop advert can be
  built; it and the flooded advert, with the region's code when there is a default region, decode at a repeater
  that hears them directly, and once that repeater has observed the packet its neighbour table has this node's
  key with the time and the signal values of the reception, unless the two share a node hash or the table
  has no room at all.\<close>

theorem advert_is_learned:
  assumes "crypto_laws C" and "signature_laws C" and "announcing C config"
    and "neighbours_inv h t" and "0 < nt_capacity t"
    and "\<not> public_key_matches_hash (id_public_key (ac_identity config)) h"
  shows "(\<exists>bs. zero_hop_advert C config timestamp = Some bs)
    \<and> (\<forall>bs. zero_hop_advert C config timestamp = Some bs \<or> flood_advert C config timestamp = Some bs \<longrightarrow>
         (\<exists>packet. packet_decode bs = Ok packet
            \<and> heard (observe_packet C t packet rssi snr now h) (id_public_key (ac_identity config)) now rssi snr))"
proof -
  let ?key = "id_public_key (ac_identity config)"
  let ?d = "advert_app_data_of config"
  have d: "ad_node_type ?d = NodeRepeater" by (simp add: advert_app_data_of_def Let_def)
  have built: "\<exists>a path. advert_packet C config r timestamp = Some \<lparr>route_type = r, transport_codes = None,
        packet_path = Normal path, packet_payload = PAdvert a\<rparr> \<and> path_wf path \<and> hop_count path = 0
      \<and> advert_wf a \<and> verify_signature C a \<and> av_public_key a = ?key \<and> av_app_data a = Some ?d
      \<and> (\<exists>pl. advert_encode a [] = Ok pl \<and> length pl \<le> 184)" for r
    using advert_packet_total [OF assms(1-3), of r timestamp] by metis
  have learned: "\<exists>packet. packet_decode bs = Ok packet
      \<and> heard (observe_packet C t packet rssi snr now h) ?key now rssi snr"
    if "path_wf path" "hop_count path = 0" "advert_wf a" "verify_signature C a" "av_public_key a = ?key"
      "av_app_data a = Some ?d"
      "packet_encode \<lparr>route_type = r, transport_codes = codes, packet_path = Normal path, packet_payload = PAdvert a\<rparr> = Ok bs"
    for a path r codes bs
    using advert_decodes [OF that(3,1,2,7,4,6) d] observe_packet_heard [OF _ assms(4,6,5)] that(5) by metis
  have zero: "\<exists>bs. zero_hop_advert C config timestamp = Some bs"
  proof -
    obtain a path pl where p: "advert_packet C config Direct timestamp = Some \<lparr>route_type = Direct, transport_codes = None,
        packet_path = Normal path, packet_payload = PAdvert a\<rparr>" (is "_ = Some ?p")
      and path: "path_wf path" and pl: "advert_encode a [] = Ok pl" "length pl \<le> 184"
      using built [of Direct] by blast
    obtain bs where "packet_encode ?p = Ok bs"
      using path pl by (rule_tac packet_encodes [of ?p path pl]) (simp_all add: packet_kind_def validate_semantics_def)
    then show ?thesis using p by (simp add: zero_hop_advert_def advert_def)
  qed
  have heard_direct: "\<exists>packet. packet_decode bs = Ok packet
      \<and> heard (observe_packet C t packet rssi snr now h) ?key now rssi snr"
    if "zero_hop_advert C config timestamp = Some bs" for bs
  proof -
    obtain a path where p: "advert_packet C config Direct timestamp = Some \<lparr>route_type = Direct, transport_codes = None,
        packet_path = Normal path, packet_payload = PAdvert a\<rparr>"
      and l: "path_wf path" "hop_count path = 0" "advert_wf a" "verify_signature C a" "av_public_key a = ?key"
        "av_app_data a = Some ?d"
      using built [of Direct] by blast
    show ?thesis
      using that p by (intro learned [OF l, of Direct None]) (simp add: zero_hop_advert_def advert_def res_ok_Some_iff)
  qed
  have heard_flood: "\<exists>packet. packet_decode bs = Ok packet
      \<and> heard (observe_packet C t packet rssi snr now h) ?key now rssi snr"
    if flooded: "flood_advert C config timestamp = Some bs" for bs
  proof -
    obtain a path where p: "advert_packet C config Flood timestamp = Some \<lparr>route_type = Flood, transport_codes = None,
        packet_path = Normal path, packet_payload = PAdvert a\<rparr>" (is "_ = Some ?p")
      and l: "path_wf path" "hop_count path = 0" "advert_wf a" "verify_signature C a" "av_public_key a = ?key"
        "av_app_data a = Some ?d"
      using built [of Flood] by blast
    obtain scoped q where q: "apply_default_scope C (cf_regions config) ?p = Ok (scoped, q)" "packet_encode q = Ok bs"
      using flooded p by (auto simp: flood_advert_def res_ok_Some_iff bind_eq_Some_conv)
    obtain r codes where "q = ?p\<lparr>route_type := r, transport_codes := codes\<rparr>"
      using apply_default_scope_shape [OF q(1)] by blast
    then show ?thesis using q(2) by (intro learned [OF l, of r codes]) simp
  qed
  show ?thesis using zero heard_direct heard_flood by blast
qed

lemma announcing_image_node: "announcing toy_crypto image_node"
proof -
  have "valid_str (hex_bytes bs)" for bs
    using hex_bytes_chars [where bs = bs] by (fastforce simp: valid_str_def list_all_iff is_scalar_def)
  then have "valid_str (case fit_node_name (generated_node_name C k) of Inl x \<Rightarrow> lit ''Repeater'' | Inr name \<Rightarrow> name)"
    for C k
    by (auto simp: generated_node_name_def intro: fit_node_name_valid split: sum.split)
  then show ?thesis
    by (simp add: announcing_def image_node_def from_stored_def image_config_def empty_config_def
        stored_config.defs app_config.defs private_key_wf_def)
qed

lemma image_node_public_key: "id_public_key (ac_identity image_node) = replicate 32 1"
  by (simp add: image_node_def from_stored_def stored_config.defs app_config.defs identity_from_private_key_def
      toy_crypto_def image_config_def empty_config_def Let_def)

theorem advert_is_learned_witness:
  "\<exists>bs packet. zero_hop_advert toy_crypto image_node 5 = Some bs \<and> packet_decode bs = Ok packet
      \<and> heard (observe_packet toy_crypto (neighbours_new 2) packet 3 4 9 [7, 7, 7, 7])
          (id_public_key (ac_identity image_node)) 9 3 4"
proof -
  have other: "\<not> public_key_matches_hash (id_public_key (ac_identity image_node)) [7, 7, 7, 7]"
    unfolding image_node_public_key by code_simp
  have room: "0 < nt_capacity (neighbours_new 2)" by (simp add: neighbours_new_def)
  show ?thesis
    using advert_is_learned [OF toy_crypto_laws toy_signature_laws announcing_image_node neighbours_inv_new room other, of 5 3 4 9] by blast
qed

end
