(* ===== verification/Cli.thy ===== *)
theory Cli
  imports Cli_Config Discovery
begin

text \<open>
  The command line (\<open>app/cli.rs\<close>): \<open>handle_command\<close>, whoever it comes from, and the console's line
  editor. A command answers with text and, for some, a reboot once the answer is out.
\<close>

datatype post_reply_action = Reboot

record cli_response =
  cr_text :: rstr
  cr_post_reply :: "post_reply_action option"

type_synonym ('s, 'p) answer = "(unit, (rstr \<times> post_reply_action option) \<times> ('s, 'p) world) res"

definition output_text :: "rstr \<Rightarrow> ('s, 'p) world \<Rightarrow> ('s, 'p) answer" where
  "output_text text w = Ok ((text, None), w)"

text \<open>A guard most commands share: the caller must have given the password or be local.\<close>

definition passworded :: "cli_request \<Rightarrow> (('s, 'p) world \<Rightarrow> ('s, 'p) answer) \<Rightarrow> ('s, 'p) world \<Rightarrow> ('s, 'p) answer" where
  "passworded request f w =
     (if \<not> is_passworded (rq_privilege request) then output_text denied_text w else f w)"

section \<open>Commands\<close>

definition enqueue_command_packet ::
  "('s, 'p) env \<Rightarrow> bytes option \<Rightarrow> string \<Rightarrow> ('s, 'p) world \<Rightarrow> rstr \<times> ('s, 'p) world"
where
  "enqueue_command_packet E packet success w =
     (case packet of
        None \<Rightarrow> (lit ''Error - packet encode failed'', w)
      | Some bs \<Rightarrow>
          let (queued, w) = queue_packet E enqueue_outbound bs w
          in (if queued then lit success else lit ''Error - outbound queue full'', w))"

definition advert_command ::
  "('s, 'p) env \<Rightarrow> (crypto \<Rightarrow> app_config \<Rightarrow> u32 \<Rightarrow> bytes option) \<Rightarrow> string \<Rightarrow> ('s, 'p) world \<Rightarrow> ('s, 'p) answer"
where
  "advert_command E build success w =
     (let (now, w) = now_seconds E w; (text, w) = enqueue_command_packet E (build (en_crypto E) (wd_config w) now) success w
      in output_text text w)"

definition discover_command :: "('s, 'p) env \<Rightarrow> ('s, 'p) world \<Rightarrow> ('s, 'p) answer" where
  "discover_command E w =
     (let (now_ms, w) = now_millis E w; tag = discovery_tag now_ms;
          (text, w) = enqueue_command_packet E (discover_neighbours_request tag) ''OK - Discover sent'' w;
          w = (if starts_with text (lit ''OK'')
               then w\<lparr>wd_context := start_discover_neighbours (wd_context w) tag now_ms\<rparr> else w)
      in output_text text w)"

definition export_command :: "('s, 'p) env \<Rightarrow> rstr \<Rightarrow> cli_request \<Rightarrow> ('s, 'p) world \<Rightarrow> ('s, 'p) answer" where
  "export_command E command request w =
     (if is_local (rq_origin request) \<and> is_passworded (rq_privilege request)
      then (case (if command = lit ''export config delta''
                  then export_config_delta (en_crypto E) (en_profile E) (wd_config w)
                  else export_config (en_crypto E) (en_profile E) (wd_config w)
                         (command \<noteq> lit ''export config all'')) of
              Inr text \<Rightarrow> output_text text w
            | Inl _ \<Rightarrow> Panicked)
      else output_text (lit ''CLI: denied, export config requires privileged serial or telnet'') w)"

definition ota_start :: "('s, 'p) env \<Rightarrow> ('s, 'p) world \<Rightarrow> ('s, 'p) answer" where
  "ota_start E w =
     (let w = w\<lparr>wd_platform := pl_start_ota (en_platform E) (wd_platform w)\<rparr>;
          (status, w) = ota_status_of E w
      in Ok ((ota_status_text status, if status = OtaPendingBootloader then Some Reboot else None), w))"

definition ota_stop :: "('s, 'p) env \<Rightarrow> ('s, 'p) world \<Rightarrow> ('s, 'p) answer" where
  "ota_stop E w =
     (let w = w\<lparr>wd_platform := pl_stop_ota (en_platform E) (wd_platform w)\<rparr>; (status, w) = ota_status_of E w
      in output_text (ota_status_text status) w)"

definition ota_status_command :: "('s, 'p) env \<Rightarrow> ('s, 'p) world \<Rightarrow> ('s, 'p) answer" where
  "ota_status_command E w = (let (status, w) = ota_status_of E w in output_text (ota_status_text status) w)"

definition erase_command :: "('s, 'p) env \<Rightarrow> ('s, 'p) world \<Rightarrow> ('s, 'p) answer" where
  "erase_command E w =
     (case reset_config (en_storage E) (wd_storage w) of
        (Inr _, s) \<Rightarrow> Ok ((lit ''OK - config reset, rebooting'', Some Reboot), w\<lparr>wd_storage := s\<rparr>)
      | (Inl (Fail e), s) \<Rightarrow>
          output_text (lit ''Error - config reset failed: '' @ storage_error_text e) (w\<lparr>wd_storage := s\<rparr>)
      | (Inl Panic, s) \<Rightarrow> Panicked)"

definition identity_text :: "app_config \<Rightarrow> rstr" where
  "identity_text c =
     writeln (lit ''Identity key source: '' @ ac_identity_label c)
     @ writeln (lit ''Node name: '' @ cf_node_name c)
     @ writeln (lit ''Identity latitude: '' @ format_optional_coordinate (cf_latitude_microdegrees c))
     @ writeln (lit ''Identity longitude: '' @ format_optional_coordinate (cf_longitude_microdegrees c))
     @ append_hex_line (lit ''Identity public key: '') (id_public_key (ac_identity c))
     @ append_hex_line (lit ''Identity node hash: '') (id_node_hash (ac_identity c))"

definition radio_text :: "app_config \<Rightarrow> rstr" where
  "radio_text c =
     lit ''Radio: freq='' @ frequency_text (cf_radio c) @ lit '' bw='' @ bandwidth_text (cf_radio c)
     @ lit '' sf='' @ show_nat (sf_factor (rc_spreading_factor (cf_radio c)))
     @ lit '' cr=4/'' @ show_nat (cr_denominator (rc_coding_rate (cf_radio c)))
     @ lit '' tx_power='' @ show_int (rc_transmit_power_dbm (cf_radio c)) @ lit ''dBm dutycycle=''
     @ show_nat (cf_duty_cycle_percent c) @ lit ''% region.default='' @ default_region_text c"

definition clock_sync :: "('s, 'p) env \<Rightarrow> cli_request \<Rightarrow> ('s, 'p) world \<Rightarrow> ('s, 'p) answer" where
  "clock_sync E request w =
     (if rq_sender_timestamp request = 0 then output_text (lit ''Error - no remote timestamp available'') w
      else let (text, w) = set_clock E (sat_add (rq_sender_timestamp request) 1) w in output_text text w)"

text \<open>The commands that are single words; None is the empty command, which has no answer.\<close>

definition word_command ::
  "('s, 'p) env \<Rightarrow> rstr \<Rightarrow> cli_request \<Rightarrow> ('s, 'p) world \<Rightarrow>
   (unit, (rstr \<times> post_reply_action option) option \<times> ('s, 'p) world) res"
where
  "word_command E command request w =
     (if command = [] then Ok (None, w)
      else map_res (\<lambda>(out, w). (Some out, w))
       (if command = lit ''help'' \<or> command = lit ''?'' then output_text help_text w
        else if command \<in> {lit ''export config'', lit ''export config all'', lit ''export config delta''}
          then export_command E command request w
        else if command = lit ''reboot'' then
          passworded request (\<lambda>w. Ok ((lit ''OK - rebooting'', Some Reboot), w)) w
        else if command = lit ''ota start'' then passworded request (ota_start E) w
        else if command = lit ''ota stop'' then passworded request (ota_stop E) w
        else if command = lit ''ota status'' then ota_status_command E w
        else if command = lit ''erase config'' then passworded request (erase_command E) w
        else if command = lit ''identity'' \<or> command = lit ''id'' then output_text (identity_text (wd_config w)) w
        else if command = lit ''neighbours'' \<or> command = lit ''neighbors'' then
          output_text (write_summary (cx_neighbours (wd_context w))) w
        else if command = lit ''advert.zerohop'' then
          passworded request (advert_command E zero_hop_advert ''OK - zerohop advert sent'') w
        else if command = lit ''advert'' then
          passworded request (advert_command E flood_advert ''OK - Advert sent'') w
        else if command = lit ''discover.neighbours'' \<or> command = lit ''discover.neighbors'' then
          passworded request (discover_command E) w
        else if command = lit ''radio'' then output_text (radio_text (wd_config w)) w
        else if command = lit ''clock'' then
          (let (now, w) = now_seconds E w in output_text (lit ''Clock: '' @ show_word now) w)
        else if command = lit ''clock sync'' then passworded request (clock_sync E request) w
        else if command = lit ''status'' then (let (text, w) = status_text E w in output_text text w)
        else if command = lit ''ver'' \<or> command = lit ''version'' then output_text (en_firmware_version E) w
        else output_text (lit ''CLI: unknown command; use help'') w))"

definition password_command ::
  "('s, 'p) env \<Rightarrow> cli_request \<Rightarrow> rstr \<Rightarrow> ('s, 'p) world \<Rightarrow> (unit, rstr \<times> ('s, 'p) world) res"
where
  "password_command E request password w =
     (if \<not> is_passworded (rq_privilege request) then reply denied_text w
      else update_reply E (always (\<lambda>c. set_remote_cli_password c password))
             (\<lambda>c. lit ''Password now: '' @ cf_remote_cli_password c) w)"

definition respond ::
  "(unit, rstr \<times> ('s, 'p) world) res \<Rightarrow> (unit, cli_response option \<times> ('s, 'p) world) res"
where
  "respond r = map_res (\<lambda>(text, w). (Some \<lparr>cr_text = text, cr_post_reply = None\<rparr>, w)) r"

text \<open>The commands with an argument are tried in the code's order before the single words.\<close>

definition handle_command ::
  "('s, 'p) env \<Rightarrow> rstr \<Rightarrow> cli_request \<Rightarrow> ('s, 'p) world \<Rightarrow>
   (unit, cli_response option \<times> ('s, 'p) world) res"
where
  "handle_command E command request w =
     (if \<not> allows_command request command then respond (reply denied_text w)
      else dispatch
        [(lit ''time '', \<lambda>seconds w. respond (Ok (handle_time_set_command E seconds request w))),
         (lit ''get '', \<lambda>config w. respond (Ok (handle_get_command E config request w))),
         (lit ''set '', \<lambda>config w. respond (handle_set_command E config request w)),
         (lit ''unset '', \<lambda>name w. respond (handle_unset_command E name request w))] command
        (\<lambda>w. if command = lit ''region'' \<or> starts_with command (lit ''region '')
             then respond (handle_region_command E command request w)
             else dispatch
               [(lit ''password '', \<lambda>password w. respond (password_command E request password w))] command
               (\<lambda>w. map_res (\<lambda>(out, w). (map_option (\<lambda>(text, post).
                             \<lparr>cr_text = text, cr_post_reply = post\<rparr>) out, w))
                     (word_command E command request w)) w) w)"

section \<open>The line editor\<close>

record cli =
  cl_line :: bytes
  cl_len :: nat
  cl_last_was_carriage_return :: bool

datatype serial_echo = EchoNone | EchoByte | EchoBytes bytes

definition cli_new :: cli where
  "cli_new = \<lparr>cl_line = replicate LINE_BUFFER_LEN 0, cl_len = 0, cl_last_was_carriage_return = False\<rparr>"

definition is_ascii_control :: "u8 \<Rightarrow> bool" where
  "is_ascii_control b \<longleftrightarrow> b < 0x20 \<or> b = 0x7F"

definition echo_for_byte :: "cli \<Rightarrow> u8 \<Rightarrow> serial_echo \<times> cli" where
  "echo_for_byte c b =
     (if b = 13 then (EchoBytes [13, 10], c\<lparr>cl_last_was_carriage_return := True\<rparr>)
      else if b = 10 \<and> cl_last_was_carriage_return c then (EchoNone, c\<lparr>cl_last_was_carriage_return := False\<rparr>)
      else if b = 10 then (EchoBytes [13, 10], c)
      else if (b = 0x08 \<or> b = 0x7F) \<and> 0 < cl_len c
        then (EchoBytes [8, 32, 8], c\<lparr>cl_last_was_carriage_return := False\<rparr>)
      else if \<not> is_ascii_control b \<and> cl_len c < length (cl_line c)
        then (EchoByte, c\<lparr>cl_last_was_carriage_return := False\<rparr>)
      else (EchoNone, c\<lparr>cl_last_was_carriage_return := False\<rparr>))"

text \<open>What a submitted line asks for: a line that is not text is an empty command. The flag says the
  device reboots.\<close>

definition submit ::
  "('s, 'p) env \<Rightarrow> cli \<Rightarrow> ('s, 'p) world \<Rightarrow> (unit, bool \<times> cli \<times> ('s, 'p) world) res"
where
  "submit E c w =
     (if cl_len c = 0 then Ok (False, c, w)
      else and_then (slice_to (cl_line c) (cl_len c)) (\<lambda>line.
        let command = (case from_utf8 line of Some s \<Rightarrow> s | None \<Rightarrow> []); c = c\<lparr>cl_len := 0\<rparr> in
        and_then (handle_command E (trim command) request_serial w) (\<lambda>(response, w).
          Ok (case response of None \<Rightarrow> False | Some r \<Rightarrow> cr_post_reply r = Some Reboot, c, w))))"

definition accept_byte ::
  "('s, 'p) env \<Rightarrow> cli \<Rightarrow> u8 \<Rightarrow> ('s, 'p) world \<Rightarrow> (unit, bool \<times> cli \<times> ('s, 'p) world) res"
where
  "accept_byte E c b w =
     (if b = 13 \<or> b = 10 then submit E c w
      else if b = 0x08 \<or> b = 0x7F then Ok (False, c\<lparr>cl_len := cl_len c - 1\<rparr>, w)
      else if is_ascii_control b then Ok (False, c, w)
      else if cl_len c < length (cl_line c)
        then Ok (False, c\<lparr>cl_line := (cl_line c)[cl_len c := b], cl_len := cl_len c + 1\<rparr>, w)
      else Ok (False, c\<lparr>cl_len := 0\<rparr>, w))"

definition handle_privileged_tcp_command ::
  "('s, 'p) env \<Rightarrow> rstr \<Rightarrow> ('s, 'p) world \<Rightarrow> (unit, cli_response option \<times> ('s, 'p) world) res"
where
  "handle_privileged_tcp_command E command w = handle_command E (trim command) request_tcp w"

text \<open>One byte from the console: what is written back, then what it does.\<close>

definition console_byte ::
  "('s, 'p) env \<Rightarrow> cli \<Rightarrow> u8 \<Rightarrow> ('s, 'p) world \<Rightarrow> (unit, bytes \<times> bool \<times> cli \<times> ('s, 'p) world) res"
where
  "console_byte E c b w =
     (let (echo, c) = echo_for_byte c b;
          written = (case echo of EchoNone \<Rightarrow> [] | EchoByte \<Rightarrow> [b] | EchoBytes bs \<Rightarrow> bs)
      in map_res (\<lambda>st. (written, st)) (accept_byte E c b w))"

end
