(* ===== verification/App_Crypto.thy ===== *)
theory App_Crypto
  imports Remote_Logins Identity "HOL-Library.Monad_Syntax"
begin

text \<open>
  The encrypted payloads of the repeater (\<open>app/crypto.rs\<close>): AES-128 over zero-padded blocks with a
  two-byte keyed digest over the ciphertext, the decryption of anonymous requests and of the requests
  of known sessions, and the packets that carry the answers. The clock is an argument.
\<close>

record anonymous_plaintext =
  an_sender_pubkey :: bytes
  an_shared_secret :: bytes
  an_plaintext :: bytes

record authenticated_plaintext =
  au_sender_pubkey :: bytes
  au_shared_secret :: bytes
  au_privilege :: remote_privilege
  au_reply_path :: path
  au_plaintext :: bytes

section \<open>Blocks\<close>

text \<open>\<open>as_chunks_mut::<16>().0\<close>: the complete blocks are transformed, a shorter rest stays as it is.\<close>

function map_blocks :: "(bytes \<Rightarrow> bytes) \<Rightarrow> bytes \<Rightarrow> bytes" where
  "map_blocks f bs =
     (if length bs < CIPHER_BLOCK_SIZE then bs
      else f (take CIPHER_BLOCK_SIZE bs) @ map_blocks f (drop CIPHER_BLOCK_SIZE bs))"
  by pat_completeness auto
termination
  by (relation "measure (\<lambda>(f, bs). length bs)") (auto simp: CIPHER_BLOCK_SIZE_def)

declare map_blocks.simps [simp del]

definition next_multiple_of :: "nat \<Rightarrow> nat \<Rightarrow> nat" where
  "next_multiple_of n k = (n + (k - 1)) div k * k"

definition zero_pad :: "bytes \<Rightarrow> bytes" where
  "zero_pad bs = bs @ replicate (next_multiple_of (length bs) CIPHER_BLOCK_SIZE - length bs) 0"

definition strip_zeros :: "bytes \<Rightarrow> bytes" where
  "strip_zeros bs = rev (dropWhile (\<lambda>b. b = 0) (rev bs))"

text \<open>\<open>Aes128::new_from_slice\<close> accepts a key of 16 bytes and no other.\<close>

definition aes128_key :: "bytes \<Rightarrow> bytes option" where
  "aes128_key key = (if length key = CIPHER_KEY_SIZE then Some key else None)"

section \<open>Encryption\<close>

definition mac_for_ciphertext :: "crypto \<Rightarrow> bytes \<Rightarrow> bytes \<Rightarrow> bytes" where
  "mac_for_ciphertext C shared_secret ciphertext =
     (let digest = hmac_sha256 C shared_secret ciphertext in [digest ! 0, digest ! 1])"

definition encrypt_payload :: "crypto \<Rightarrow> bytes \<Rightarrow> bytes \<Rightarrow> (bytes \<times> bytes) option" where
  "encrypt_payload C shared_secret plaintext =
     do { key \<leftarrow> aes128_key (take 16 shared_secret);
          let ciphertext = map_blocks (aes128_encrypt C key) (zero_pad plaintext);
          Some (mac_for_ciphertext C shared_secret ciphertext, ciphertext) }"

definition decrypt_payload :: "crypto \<Rightarrow> bytes \<Rightarrow> bytes \<Rightarrow> bytes option" where
  "decrypt_payload C shared_secret ciphertext =
     do { key \<leftarrow> aes128_key (take 16 shared_secret);
          Some (strip_zeros (map_blocks (aes128_decrypt C key) ciphertext)) }"

definition verify_mac :: "crypto \<Rightarrow> bytes \<Rightarrow> anonymous_request_payload \<Rightarrow> bool" where
  "verify_mac C shared_secret payload \<longleftrightarrow>
     mac_for_ciphertext C shared_secret (ar_ciphertext payload) = ar_mac payload"

definition verify_direct_mac :: "crypto \<Rightarrow> bytes \<Rightarrow> direct_encrypted_payload \<Rightarrow> bool" where
  "verify_direct_mac C shared_secret payload \<longleftrightarrow>
     mac_for_ciphertext C shared_secret (de_ciphertext payload) = de_mac payload"

section \<open>Requests\<close>

definition decrypt_anonymous_request ::
  "crypto \<Rightarrow> anonymous_request_payload \<Rightarrow> identity \<Rightarrow> anonymous_plaintext option"
where
  "decrypt_anonymous_request C payload i =
     (if ar_destination_hash payload \<noteq> id_public_key i ! 0 then None
      else if ar_ciphertext payload = [] \<or> length (ar_ciphertext payload) mod 16 \<noteq> 0 then None
      else do { shared_secret \<leftarrow> shared_secret_with C i (ar_sender_pubkey payload);
                if \<not> verify_mac C shared_secret payload then None
                else do { key \<leftarrow> aes128_key (take 16 shared_secret);
                          let plaintext = map_blocks (aes128_decrypt C key) (ar_ciphertext payload);
                          Some \<lparr>an_sender_pubkey = ar_sender_pubkey payload,
                                an_shared_secret = shared_secret,
                                an_plaintext = strip_zeros plaintext\<rparr> } })"

fun decrypt_with_sessions ::
  "crypto \<Rightarrow> direct_encrypted_payload \<Rightarrow> remote_session option list \<Rightarrow> authenticated_plaintext option"
where
  "decrypt_with_sessions C payload [] = None"
| "decrypt_with_sessions C payload (None # sessions) = decrypt_with_sessions C payload sessions"
| "decrypt_with_sessions C payload (Some session # sessions) =
     (if de_source_hash payload \<noteq> rs_public_key session ! 0
      then decrypt_with_sessions C payload sessions
      else if \<not> verify_direct_mac C (rs_shared_secret session) payload
      then decrypt_with_sessions C payload sessions
      else do { plaintext \<leftarrow> decrypt_payload C (rs_shared_secret session) (de_ciphertext payload);
                Some \<lparr>au_sender_pubkey = rs_public_key session,
                      au_shared_secret = rs_shared_secret session,
                      au_privilege = rs_privilege session, au_reply_path = rs_reply_path session,
                      au_plaintext = plaintext\<rparr> })"

definition decrypt_authenticated_direct_payload ::
  "crypto \<Rightarrow> direct_encrypted_payload \<Rightarrow> identity \<Rightarrow> remote_session option list \<Rightarrow>
   authenticated_plaintext option"
where
  "decrypt_authenticated_direct_payload C payload i sessions =
     (if de_destination_hash payload \<noteq> id_public_key i ! 0 then None
      else if \<not> has_complete_ciphertext_blocks payload then None
      else decrypt_with_sessions C payload sessions)"

section \<open>Answers\<close>

datatype encoding_kind = EncResponse | EncTextMessage

definition encode_direct_payload ::
  "crypto \<Rightarrow> encoding_kind \<Rightarrow> bytes \<Rightarrow> bytes \<Rightarrow> bytes \<Rightarrow> bytes \<Rightarrow> path \<Rightarrow> bytes option"
where
  "encode_direct_payload C kind shared_secret requester_public_key responder_public_key plaintext reply_path =
     do { (mac, ciphertext) \<leftarrow> encrypt_payload C shared_secret plaintext;
          let payload = \<lparr>de_destination_hash = requester_public_key ! 0,
                         de_source_hash = responder_public_key ! 0,
                         de_mac = mac, de_ciphertext = ciphertext\<rparr>;
          res_ok (packet_encode
            \<lparr>route_type = Direct, transport_codes = None, packet_path = Normal reply_path,
             packet_payload = (case kind of EncResponse \<Rightarrow> PResponse payload
                                          | EncTextMessage \<Rightarrow> PTextMessage payload)\<rparr>) }"

definition encode_response_plaintext ::
  "crypto \<Rightarrow> bytes \<Rightarrow> bytes \<Rightarrow> bytes \<Rightarrow> bytes \<Rightarrow> path \<Rightarrow> bytes option"
where
  "encode_response_plaintext C shared_secret requester_public_key responder_public_key plaintext reply_path =
     encode_direct_payload C EncResponse shared_secret requester_public_key responder_public_key
       plaintext reply_path"

definition u64_to_le :: "u64 \<Rightarrow> bytes" where
  "u64_to_le n = map (\<lambda>i. ucast (drop_bit (8 * i) n)) [0..<8]"

definition response_nonce :: "crypto \<Rightarrow> u64 \<Rightarrow> bytes \<Rightarrow> bytes \<Rightarrow> bytes \<Rightarrow> bytes" where
  "response_nonce C now_ms shared_secret requester_public_key responder_public_key =
     (let digest = hmac_sha256 C shared_secret
                     (u64_to_le now_ms @ requester_public_key @ responder_public_key)
      in [digest ! 0, digest ! 1, digest ! 2, digest ! 3])"

definition login_response ::
  "crypto \<Rightarrow> u32 \<Rightarrow> u64 \<Rightarrow> bytes \<Rightarrow> bytes \<Rightarrow> bytes \<Rightarrow> u8 \<Rightarrow> repeater_login_response_plaintext"
where
  "login_response C now_seconds now_ms shared_secret requester_public_key responder_public_key
       acl_permissions =
     \<lparr>lr_server_timestamp = now_seconds, lr_keep_alive_interval = 0,
      lr_legacy_permissions = of_bool (acl_permissions = PERM_ACL_ADMIN),
      lr_acl_permissions = acl_permissions,
      lr_nonce = response_nonce C now_ms shared_secret requester_public_key responder_public_key,
      lr_firmware_version_level = 2\<rparr>"

definition encode_login_response ::
  "crypto \<Rightarrow> u32 \<Rightarrow> u64 \<Rightarrow> bytes \<Rightarrow> bytes \<Rightarrow> bytes \<Rightarrow> u8 \<Rightarrow> path \<Rightarrow> bytes option"
where
  "encode_login_response C now_seconds now_ms shared_secret requester_public_key responder_public_key
       acl_permissions reply_path =
     encode_response_plaintext C shared_secret requester_public_key responder_public_key
       (login_response_encode (login_response C now_seconds now_ms shared_secret
          requester_public_key responder_public_key acl_permissions)) reply_path"

definition encode_cli_text_response ::
  "crypto \<Rightarrow> u32 \<Rightarrow> bytes \<Rightarrow> bytes \<Rightarrow> bytes \<Rightarrow> u32 \<Rightarrow> bytes \<Rightarrow> path \<Rightarrow> bytes option"
where
  "encode_cli_text_response C now_seconds shared_secret requester_public_key responder_public_key
       request_timestamp message reply_path =
     (let timestamp = (if now_seconds = request_timestamp then now_seconds + 1 else now_seconds)
      in do { plaintext \<leftarrow> res_ok (text_message_encode
                \<lparr>tm_timestamp = timestamp, tm_text_type = CliData, tm_attempt = 0,
                 tm_message = message\<rparr>);
              encode_direct_payload C EncTextMessage shared_secret requester_public_key
                responder_public_key plaintext reply_path })"

definition encode_path_response_packet ::
  "crypto \<Rightarrow> bytes \<Rightarrow> bytes \<Rightarrow> bytes \<Rightarrow> bytes \<Rightarrow> path \<Rightarrow> packet option"
where
  "encode_path_response_packet C shared_secret requester_public_key responder_public_key plaintext
       discovered_path =
     do { outer_path \<leftarrow> res_ok (path_new (path_hash_size discovered_path) []);
          path_plaintext \<leftarrow> res_ok (path_plaintext_encode
            \<lparr>pp_path = discovered_path, pp_extra_type = Some KResponse, pp_extra_payload = plaintext\<rparr>);
          (mac, ciphertext) \<leftarrow> encrypt_payload C shared_secret path_plaintext;
          Some \<lparr>route_type = Flood, transport_codes = None, packet_path = Normal outer_path,
                packet_payload = PPath \<lparr>de_destination_hash = requester_public_key ! 0,
                  de_source_hash = responder_public_key ! 0,
                  de_mac = mac, de_ciphertext = ciphertext\<rparr>\<rparr> }"

section \<open>Encryption is undone by decryption\<close>

lemma map_blocks_short [simp]: "length bs < 16 \<Longrightarrow> map_blocks f bs = bs"
  by (subst map_blocks.simps) (simp add: CIPHER_BLOCK_SIZE_def)

lemma map_blocks_long:
  "length b = 16 \<Longrightarrow> map_blocks f (b @ bs) = f b @ map_blocks f bs"
  by (subst map_blocks.simps) (simp add: CIPHER_BLOCK_SIZE_def)

lemma map_blocks_length:
  "(\<And>b. length b = 16 \<Longrightarrow> length (f b) = 16) \<Longrightarrow> length (map_blocks f bs) = length bs"
  by (induction f bs rule: map_blocks.induct)
    (subst map_blocks.simps, auto simp: CIPHER_BLOCK_SIZE_def)

lemma map_blocks_inverse:
  assumes "\<And>b. length b = 16 \<Longrightarrow> length (f b) = 16 \<and> g (f b) = b"
  shows "map_blocks g (map_blocks f bs) = bs"
  using assms
proof (induction f bs rule: map_blocks.induct)
  case (1 f bs)
  show ?case
  proof (cases "length bs < 16")
    case False
    then have b: "length (take 16 bs) = 16" by simp
    have "map_blocks f bs = f (take 16 bs) @ map_blocks f (drop 16 bs)"
      using map_blocks_long [OF b, of f "drop 16 bs"] by simp
    with 1 False b show ?thesis by (simp add: map_blocks_long CIPHER_BLOCK_SIZE_def)
  qed simp
qed

lemma next_multiple_of_bounds:
  "n \<le> next_multiple_of n 16" "next_multiple_of n 16 < n + 16" "16 dvd next_multiple_of n 16"
proof -
  have "next_multiple_of n 16 = (n + 15) - (n + 15) mod 16"
    unfolding next_multiple_of_def by (simp add: minus_mod_eq_div_mult)
  moreover have "(n + 15) mod 16 \<le> 15" by (rule Suc_leI [of _ "15 + 1", simplified]) simp
  ultimately show "n \<le> next_multiple_of n 16" "next_multiple_of n 16 < n + 16" by linarith+
  show "16 dvd next_multiple_of n 16" by (simp add: next_multiple_of_def)
qed

lemma zero_pad_length:
  "16 dvd length (zero_pad bs)" "length (zero_pad bs) < length bs + 16" "length bs \<le> length (zero_pad bs)"
  using next_multiple_of_bounds [of "length bs"] by (simp_all add: zero_pad_def CIPHER_BLOCK_SIZE_def)

lemma strip_zeros_snoc: "strip_zeros (bs @ [0]) = strip_zeros bs"
  by (simp add: strip_zeros_def)

lemma strip_zeros_replicate [simp]: "strip_zeros (bs @ replicate n 0) = strip_zeros bs"
proof (induction n)
  case (Suc n)
  have "strip_zeros (bs @ replicate (Suc n) 0) = strip_zeros ((bs @ replicate n 0) @ [0])"
    by (simp add: replicate_append_same)
  also have "\<dots> = strip_zeros bs" using Suc by (simp only: strip_zeros_snoc)
  finally show ?case .
qed simp

lemma strip_zeros_pad [simp]: "strip_zeros (zero_pad bs) = strip_zeros bs"
  by (simp add: zero_pad_def)

lemma strip_zeros_last: "bs \<noteq> [] \<Longrightarrow> last bs \<noteq> 0 \<Longrightarrow> strip_zeros bs = bs"
  by (cases bs rule: rev_cases) (simp_all add: strip_zeros_def)

text \<open>Only zeros at the end are lost.\<close>

lemma strip_zeros_lost: "\<exists>n. bs = strip_zeros bs @ replicate n 0"
proof (induction bs rule: rev_induct)
  case (snoc b bs)
  then obtain n where n: "bs = strip_zeros bs @ replicate n 0" by blast
  show ?case
  proof (cases "b = 0")
    case True
    then have "bs @ [b] = strip_zeros bs @ replicate (Suc n) 0"
      by (subst n) (simp add: replicate_append_same)
    with True show ?thesis by (metis strip_zeros_snoc)
  qed (simp add: strip_zeros_last exI [of _ 0])
qed (simp add: strip_zeros_def)

lemma mac_length [simp]: "length (mac_for_ciphertext C k c) = 2"
  by (simp add: mac_for_ciphertext_def Let_def)

lemma encrypt_payload_total:
  assumes "crypto_laws C" and "length secret = 32"
  obtains mac ciphertext where "encrypt_payload C secret plaintext = Some (mac, ciphertext)"
    and "mac = mac_for_ciphertext C secret ciphertext" and "16 dvd length ciphertext"
    and "length ciphertext < length plaintext + 16" and "length plaintext \<le> length ciphertext"
    and "decrypt_payload C secret ciphertext = Some (strip_zeros plaintext)"
proof -
  let ?k = "take 16 secret"
  let ?c = "map_blocks (aes128_encrypt C ?k) (zero_pad plaintext)"
  have aes: "length b = 16 \<Longrightarrow> length (aes128_encrypt C ?k b) = 16 \<and> aes128_decrypt C ?k (aes128_encrypt C ?k b) = b"
    for b using assms(1) by (simp add: crypto_laws_def)
  have k: "aes128_key ?k = Some ?k" using assms(2) by (simp add: aes128_key_def CIPHER_KEY_SIZE_def)
  have "length ?c = length (zero_pad plaintext)" by (rule map_blocks_length) (use aes in blast)
  moreover have "map_blocks (aes128_decrypt C ?k) ?c = zero_pad plaintext"
    by (rule map_blocks_inverse) (rule aes)
  ultimately show thesis
    using that [of "mac_for_ciphertext C secret ?c" ?c] zero_pad_length [of plaintext]
    by (simp add: encrypt_payload_def decrypt_payload_def k Let_def)
qed

section \<open>Answers reach the client\<close>

lemma direct_encode_length [simp]: "length (de_mac d) = 2 \<Longrightarrow> length (direct_encode d []) = 4 + length (de_ciphertext d)"
  by (simp add: direct_encode_def)

lemma encode_direct_payload_total:
  assumes "crypto_laws C" and "length secret = 32" and "path_wf path" and "length plaintext \<le> 165"
  defines "wrap kind d \<equiv> \<lparr>route_type = Direct, transport_codes = None, packet_path = Normal path,
             packet_payload = (case kind of EncResponse \<Rightarrow> PResponse d | EncTextMessage \<Rightarrow> PTextMessage d)\<rparr>"
  obtains bs d where "encode_direct_payload C kind secret requester responder plaintext path = Some bs"
    and "packet_decode bs = Ok (wrap kind d)"
    and "de_destination_hash d = requester ! 0" and "de_source_hash d = responder ! 0"
    and "verify_direct_mac C secret d" and "16 dvd length (de_ciphertext d)"
    and "decrypt_payload C secret (de_ciphertext d) = Some (strip_zeros plaintext)"
proof -
  obtain mac c where e: "encrypt_payload C secret plaintext = Some (mac, c)"
      and mac: "mac = mac_for_ciphertext C secret c" and c: "16 dvd length c" "length c < length plaintext + 16"
      and dec: "decrypt_payload C secret c = Some (strip_zeros plaintext)"
    by (rule encrypt_payload_total [OF assms(1,2)])
  let ?d = "\<lparr>de_destination_hash = requester ! 0, de_source_hash = responder ! 0, de_mac = mac, de_ciphertext = c\<rparr>"
  have wf: "packet_wf (wrap kind ?d)"
    by (cases kind) (simp_all add: packet_wf_def packet_kind_def wrap_def direct_wf_def mac)
  obtain k where "length c = 16 * k" using c(1) by blast
  then have "length c \<le> 176" using c(2) assms(4) by arith
  then obtain bs where bs: "packet_encode (wrap kind ?d) = Ok bs"
    using assms(3) by (rule_tac packet_encodes [of "wrap kind ?d" path "direct_encode ?d []"])
      (cases kind; simp add: wrap_def packet_kind_def validate_semantics_def mac)+
  show thesis
    using that [of bs ?d] bs packet_decode_encode [OF wf bs] c dec
    by (simp add: encode_direct_payload_def e verify_direct_mac_def mac wrap_def)
qed

section \<open>Sessions\<close>

text \<open>What decrypts was sent by the holder of a session's secret: the digest over the ciphertext
  was made with it.\<close>

lemma decrypt_with_sessions_SomeD:
  "decrypt_with_sessions C payload sessions = Some a \<Longrightarrow>
     \<exists>s. Some s \<in> set sessions \<and> rs_public_key s ! 0 = de_source_hash payload
       \<and> verify_direct_mac C (rs_shared_secret s) payload
       \<and> au_sender_pubkey a = rs_public_key s \<and> au_shared_secret a = rs_shared_secret s
       \<and> au_privilege a = rs_privilege s \<and> au_reply_path a = rs_reply_path s
       \<and> decrypt_payload C (rs_shared_secret s) (de_ciphertext payload) = Some (au_plaintext a)"
proof (induction sessions)
  case (Cons e sessions)
  show ?case
  proof (cases e)
    case None
    with Cons show ?thesis by auto
  next
    case (Some s)
    show ?thesis
    proof (cases "de_source_hash payload = rs_public_key s ! 0 \<and> verify_direct_mac C (rs_shared_secret s) payload")
      case True
      with Cons.prems Some show ?thesis by (intro exI [of _ s]) (auto simp: Option.bind_eq_Some_conv)
    next
      case False
      with Cons.prems Some have "decrypt_with_sessions C payload sessions = Some a" by (auto split: if_splits)
      with Cons.IH show ?thesis by fastforce
    qed
  qed
qed simp

section \<open>Properties\<close>

text \<open>C15: The answer to a command reaches the client that sent it: for a session's 32-byte secret, a
  well-formed reply path and an answer of at most 160 bytes that does not end in a zero byte, a packet is
  always built; it decodes to a direct text message on that path, marked with the client's first key byte
  and a digest that verifies, and its decryption is the answer under a timestamp other than the request's.\<close>

theorem cli_reply_reaches_client:
  assumes "crypto_laws C" and "length secret = 32" and "path_wf path"
    and "length message \<le> 160" and "message = [] \<or> last message \<noteq> 0"
  shows "\<exists>bs d plaintext timestamp.
      encode_cli_text_response C now secret requester responder request_timestamp message path = Some bs
      \<and> packet_decode bs = Ok \<lparr>route_type = Direct, transport_codes = None, packet_path = Normal path,
                              packet_payload = PTextMessage d\<rparr>
      \<and> de_destination_hash d = requester ! 0 \<and> verify_direct_mac C secret d
      \<and> decrypt_payload C secret (de_ciphertext d) = Some plaintext
      \<and> text_message_decode plaintext = Ok \<lparr>tm_timestamp = timestamp, tm_text_type = CliData,
                                            tm_attempt = 0, tm_message = message\<rparr>
      \<and> timestamp \<noteq> request_timestamp"
proof -
  define t where "t = (if now = request_timestamp then now + 1 else now)"
  let ?m = "\<lparr>tm_timestamp = t, tm_text_type = CliData, tm_attempt = 0, tm_message = message\<rparr>"
  have e: "text_message_encode ?m = Ok (u32_to_le t @ [4] @ message)"
    using assms(4) by (simp add: text_message_encode_def MAX_TEXT_LEN_def)
  have l: "length (u32_to_le t @ [4] @ message) \<le> 165" using assms(4) by simp
  have strip: "strip_zeros (u32_to_le t @ [4] @ message) = u32_to_le t @ [4] @ message"
    using assms(5) by (intro strip_zeros_last) auto
  have "text_message_decode (u32_to_le t @ [4] @ message) = Ok ?m"
    using text_message_codec.dec_enc [OF _ e] l by (simp add: text_message_wf_def)
  moreover have "t \<noteq> request_timestamp" by (simp add: t_def)
  moreover obtain bs d where
      "encode_direct_payload C EncTextMessage secret requester responder (u32_to_le t @ [4] @ message) path = Some bs"
      "packet_decode bs = Ok \<lparr>route_type = Direct, transport_codes = None, packet_path = Normal path,
                            packet_payload = PTextMessage d\<rparr>"
      "de_destination_hash d = requester ! 0" "verify_direct_mac C secret d"
      "decrypt_payload C secret (de_ciphertext d) = Some (u32_to_le t @ [4] @ message)"
    by (rule encode_direct_payload_total [OF assms(1-3) l, of EncTextMessage requester responder])
      (simp add: strip [simplified])
  moreover from this(1)
  have "encode_cli_text_response C now secret requester responder request_timestamp message path = Some bs"
    by (simp add: encode_cli_text_response_def e [simplified] t_def [symmetric] Let_def)
  ultimately show ?thesis by blast
qed

theorem cli_reply_reaches_client_witness:
  "\<exists>bs d plaintext timestamp.
      encode_cli_text_response toy_crypto 5 (replicate 32 1) (replicate 32 2) (replicate 32 3) 5 [79, 75]
        path_empty = Some bs
      \<and> packet_decode bs = Ok \<lparr>route_type = Direct, transport_codes = None, packet_path = Normal path_empty,
                              packet_payload = PTextMessage d\<rparr>
      \<and> de_destination_hash d = 2 \<and> verify_direct_mac toy_crypto (replicate 32 1) d
      \<and> decrypt_payload toy_crypto (replicate 32 1) (de_ciphertext d) = Some plaintext
      \<and> text_message_decode plaintext = Ok \<lparr>tm_timestamp = timestamp, tm_text_type = CliData,
                                            tm_attempt = 0, tm_message = [79, 75]\<rparr>
      \<and> timestamp \<noteq> 5"
  using cli_reply_reaches_client [OF toy_crypto_laws, of "replicate 32 1" path_empty "[79, 75]" 5
      "replicate 32 2" "replicate 32 3" 5]
  by simp

end
