(* ===== verification/Remote_Requests.thy ===== *)
theory Remote_Requests
  imports Cli App_Crypto
begin

text \<open>
  Requests that arrive over the radio (\<open>app/cli.rs\<close>: \<open>handle_remote_packet\<close> and what it calls):
  anonymous requests, which carry the sender's key and may log in, ask for public facts or run a
  command; and the text messages and binary requests of logged-in clients. The answer, if any, is an
  encoded packet.
\<close>

definition ANON_REQ_TYPE_REGIONS :: u8 where "ANON_REQ_TYPE_REGIONS = 0x01"
definition ANON_REQ_TYPE_OWNER :: u8 where "ANON_REQ_TYPE_OWNER = 0x02"
definition ANON_REQ_TYPE_BASIC :: u8 where "ANON_REQ_TYPE_BASIC = 0x03"
definition REQ_TYPE_GET_STATUS :: u8 where "REQ_TYPE_GET_STATUS = 0x01"
definition REQ_TYPE_GET_TELEMETRY_DATA :: u8 where "REQ_TYPE_GET_TELEMETRY_DATA = 0x03"
definition REQ_TYPE_GET_NEIGHBOURS :: u8 where "REQ_TYPE_GET_NEIGHBOURS = 0x06"
definition REQ_TYPE_GET_OWNER_INFO :: u8 where "REQ_TYPE_GET_OWNER_INFO = 0x07"
definition LPP_CHANNEL_SELF :: u8 where "LPP_CHANNEL_SELF = 1"
definition LPP_TYPE_VOLTAGE :: u8 where "LPP_TYPE_VOLTAGE = 116"

type_synonym ('s, 'p) answered = "(unit, bytes option \<times> ('s, 'p) world) res"

definition no_answer :: "('s, 'p) world \<Rightarrow> ('s, 'p) answered" where
  "no_answer w = Ok (None, w)"

section \<open>Small steps\<close>

definition plaintext_timestamp :: "bytes \<Rightarrow> u32 option" where
  "plaintext_timestamp plaintext = (if 4 \<le> length plaintext then Some (u32_of_le (take 4 plaintext)) else None)"

definition plaintext_body :: "bytes \<Rightarrow> bytes option" where
  "plaintext_body plaintext = (if length plaintext < 4 then None else Some (drop 4 plaintext))"

fun cli_privilege_for_remote :: "remote_privilege option \<Rightarrow> cli_privilege" where
  "cli_privilege_for_remote (Some Admin) = PrivPasswordedRemote"
| "cli_privilege_for_remote (Some Guest) = PrivAnonymousRemote"
| "cli_privilege_for_remote None = PrivAnonymousRemote"

fun acl_permissions_for :: "remote_privilege \<Rightarrow> u8" where
  "acl_permissions_for Admin = PERM_ACL_ADMIN"
| "acl_permissions_for Guest = PERM_ACL_GUEST"

definition packet_targets_this_node :: "packet \<Rightarrow> bytes \<Rightarrow> bool" where
  "packet_targets_this_node packet nh =
     (case normal_path packet of
        None \<Rightarrow> False
      | Some path \<Rightarrow> hop_count path = 0 \<or> first_hash_matches path nh)"

definition repeater_features :: "bool \<Rightarrow> u8" where
  "repeater_features repeat_enabled = (if repeat_enabled then 0 else 0x80)"

definition anonymous_basic_response :: "u32 \<Rightarrow> u32 \<Rightarrow> bool \<Rightarrow> bytes" where
  "anonymous_basic_response request_timestamp responder_time repeat_enabled =
     response_encode \<lparr>rr_reflected_tag = request_timestamp, rr_responder_time = responder_time,
                      rr_body = [repeater_features repeat_enabled]\<rparr>"

definition anonymous_owner_response :: "u32 \<Rightarrow> rstr \<Rightarrow> rstr \<Rightarrow> u32 \<Rightarrow> bytes" where
  "anonymous_owner_response request_timestamp node_name owner_info responder_time =
     response_encode \<lparr>rr_reflected_tag = request_timestamp, rr_responder_time = responder_time,
                      rr_body = str_bytes node_name @ [10] @ str_bytes owner_info\<rparr>"

definition owner_info_response :: "rstr \<Rightarrow> u32 \<Rightarrow> rstr \<Rightarrow> rstr \<Rightarrow> bytes" where
  "owner_info_response firmware_version request_timestamp node_name owner_info =
     u32_to_le request_timestamp @ str_bytes firmware_version @ [10] @ str_bytes node_name @ [10]
     @ str_bytes owner_info"

definition u16_to_be :: "u16 \<Rightarrow> bytes" where
  "u16_to_be n = rev (u16_to_le n)"

section \<open>Answers to commands\<close>

definition encode_remote_cli_reply ::
  "('s, 'p) env \<Rightarrow> bytes \<Rightarrow> bytes \<Rightarrow> bytes \<Rightarrow> u32 \<Rightarrow> rstr \<Rightarrow> path \<Rightarrow> ('s, 'p) world \<Rightarrow> ('s, 'p) answered"
where
  "encode_remote_cli_reply E shared_secret requester responder request_timestamp text reply_path w =
     map_res (\<lambda>text.
       let (now, w) = now_seconds E w
       in (encode_cli_text_response (en_crypto E) now shared_secret requester responder request_timestamp
             (str_bytes text) reply_path, w)) (truncate_to_remote_reply_len text)"

text \<open>A command run for a remote client: a reboot it asks for waits for the answer to be sent.\<close>

definition run_remote_command ::
  "('s, 'p) env \<Rightarrow> cli_privilege \<Rightarrow> u32 \<Rightarrow> rstr option \<Rightarrow> rstr \<Rightarrow> bytes \<Rightarrow> bytes \<Rightarrow> bytes \<Rightarrow> path \<Rightarrow>
   ('s, 'p) world \<Rightarrow> ('s, 'p) answered"
where
  "run_remote_command E privilege timestamp prefix command shared_secret requester responder reply_path w =
     and_then (handle_command E command (request_remote privilege timestamp) w) (\<lambda>(response, w).
       case response of
         None \<Rightarrow> no_answer w
       | Some r \<Rightarrow>
           let w = (if cr_post_reply r = Some Reboot
                    then w\<lparr>wd_context := request_reboot_after_next_remote_reply (wd_context w)\<rparr> else w);
               text = (case prefix of None \<Rightarrow> cr_text r | Some p \<Rightarrow> p @ cr_text r)
           in encode_remote_cli_reply E shared_secret requester responder timestamp text reply_path w)"

section \<open>Anonymous requests\<close>

definition handle_anonymous_subrequest ::
  "('s, 'p) env \<Rightarrow> bytes \<Rightarrow> u32 \<Rightarrow> ('s, 'p) world \<Rightarrow> bytes option \<times> ('s, 'p) world"
where
  "handle_anonymous_subrequest E body request_timestamp w =
     (case body of
        [] \<Rightarrow> (None, w)
      | kind # _ \<Rightarrow>
          let config = wd_config w in
          if kind = ANON_REQ_TYPE_BASIC then
            let (now, w) = now_seconds E w
            in (Some (anonymous_basic_response request_timestamp now (cf_repeat_enabled config)), w)
          else if kind = ANON_REQ_TYPE_REGIONS then
            let (now, w) = now_seconds E w
            in (Some (response_encode \<lparr>rr_reflected_tag = request_timestamp, rr_responder_time = now,
                      rr_body = str_bytes (allowed_names (cf_regions config))\<rparr>), w)
          else if kind = ANON_REQ_TYPE_OWNER then
            let (now, w) = now_seconds E w
            in (Some (anonymous_owner_response request_timestamp (cf_node_name config)
                        (cf_owner_info config) now), w)
          else (None, w))"

definition handle_login ::
  "('s, 'p) env \<Rightarrow> anonymous_plaintext \<Rightarrow> remote_privilege \<Rightarrow> u32 \<Rightarrow> u64 \<Rightarrow> bytes \<Rightarrow> path \<Rightarrow>
   ('s, 'p) world \<Rightarrow> ('s, 'p) answered"
where
  "handle_login E decrypted privilege timestamp now_ms responder reply_path w =
     (let sender = an_sender_pubkey decrypted; secret = an_shared_secret decrypted;
          w = w\<lparr>wd_context := authenticate_remote_login (wd_context w) sender secret privilege timestamp
                               now_ms reply_path\<rparr>;
          (now, w) = now_seconds E w; (nonce_ms, w) = now_millis E w
      in Ok (encode_login_response (en_crypto E) now nonce_ms secret sender responder
               (acl_permissions_for privilege) reply_path, w))"

definition handle_anonymous_command ::
  "('s, 'p) env \<Rightarrow> anonymous_plaintext \<Rightarrow> rstr \<Rightarrow> u32 \<Rightarrow> u64 \<Rightarrow> bytes \<Rightarrow> path \<Rightarrow>
   ('s, 'p) world \<Rightarrow> ('s, 'p) answered"
where
  "handle_anonymous_command E decrypted body timestamp now_ms responder reply_path w =
     (case map_option trim (strip_prefix body REMOTE_CLI_PREFIX) of
        None \<Rightarrow> no_answer w
      | Some command \<Rightarrow>
          if command = [] then no_answer w
          else let (privilege, ctx) = remote_privilege_for (wd_context w) (an_sender_pubkey decrypted) now_ms
            in run_remote_command E (cli_privilege_for_remote privilege) timestamp None command
                 (an_shared_secret decrypted) (an_sender_pubkey decrypted) responder reply_path
                 (w\<lparr>wd_context := ctx\<rparr>))"

definition handle_anonymous_text ::
  "('s, 'p) env \<Rightarrow> anonymous_plaintext \<Rightarrow> bytes \<Rightarrow> u32 \<Rightarrow> bytes \<Rightarrow> path \<Rightarrow> ('s, 'p) world \<Rightarrow> ('s, 'p) answered"
where
  "handle_anonymous_text E decrypted body timestamp responder reply_path w =
     (case from_utf8 body of
        None \<Rightarrow> no_answer w
      | Some text \<Rightarrow>
          let body = trim text; (now_ms, w) = now_millis E w; config = wd_config w in
          (case login_privilege body (cf_remote_cli_password config)
                  (acl_role (cf_acl config) (an_sender_pubkey decrypted)) of
             Some privilege \<Rightarrow> handle_login E decrypted privilege timestamp now_ms responder reply_path w
           | None \<Rightarrow> handle_anonymous_command E decrypted body timestamp now_ms responder reply_path w))"

definition handle_anonymous_request ::
  "('s, 'p) env \<Rightarrow> anonymous_request_payload \<Rightarrow> path \<Rightarrow> ('s, 'p) world \<Rightarrow> ('s, 'p) answered"
where
  "handle_anonymous_request E payload reply_path w =
     (let config = wd_config w; responder = id_public_key (ac_identity config) in
      case decrypt_anonymous_request (en_crypto E) payload (ac_identity config) of
        None \<Rightarrow> no_answer w
      | Some decrypted \<Rightarrow>
          if acl_role (cf_acl config) (an_sender_pubkey decrypted) = Some RoleDeny then no_answer w
          else (case plaintext_timestamp (an_plaintext decrypted) of
                  None \<Rightarrow> no_answer w
                | Some timestamp \<Rightarrow>
                    (case plaintext_body (an_plaintext decrypted) of
                       None \<Rightarrow> no_answer w
                     | Some body \<Rightarrow>
                         (case handle_anonymous_subrequest E body timestamp w of
                            (Some response, w) \<Rightarrow>
                              Ok (encode_response_plaintext (en_crypto E) (an_shared_secret decrypted)
                                    (an_sender_pubkey decrypted) responder response reply_path, w)
                          | (None, w) \<Rightarrow>
                              handle_anonymous_text E decrypted body timestamp responder reply_path w))))"

section \<open>Requests of a session\<close>

text \<open>Which session a payload belongs to, unless its key is denied. The sessions are pruned either way.\<close>

definition decrypt_authenticated_payload ::
  "('s, 'p) env \<Rightarrow> direct_encrypted_payload \<Rightarrow> u64 \<Rightarrow> ('s, 'p) world \<Rightarrow>
   (unit, authenticated_plaintext option \<times> ('s, 'p) world) res"
where
  "decrypt_authenticated_payload E payload now_ms w =
     (let (sessions, ctx) = remote_sessions_matching_source_hash (wd_context w) (de_source_hash payload) now_ms;
          w = w\<lparr>wd_context := ctx\<rparr>; config = wd_config w
      in map_res (\<lambda>sessions.
           (case decrypt_authenticated_direct_payload (en_crypto E) payload (ac_identity config) sessions of
              None \<Rightarrow> None
            | Some decrypted \<Rightarrow>
                if acl_role (cf_acl config) (au_sender_pubkey decrypted) = Some RoleDeny then None
                else Some decrypted, w)) sessions)"

text \<open>The replay guard: only a timestamp newer than the session's last passes.\<close>

definition accept_request ::
  "authenticated_plaintext \<Rightarrow> u32 \<Rightarrow> u64 \<Rightarrow> ('s, 'p) world \<Rightarrow> bool \<times> ('s, 'p) world"
where
  "accept_request decrypted timestamp now_ms w =
     (let (fresh, ctx) = accept_newer_remote_timestamp (wd_context w) (au_sender_pubkey decrypted)
                           (au_privilege decrypted) timestamp now_ms
      in (fresh, w\<lparr>wd_context := ctx\<rparr>))"

definition run_text_message ::
  "('s, 'p) env \<Rightarrow> authenticated_plaintext \<Rightarrow> text_message_plaintext \<Rightarrow> ('s, 'p) world \<Rightarrow> ('s, 'p) answered"
where
  "run_text_message E decrypted plaintext w =
     (case from_utf8 (tm_message plaintext) of
        None \<Rightarrow> no_answer w
      | Some text \<Rightarrow>
          let (prefix, command) = split_cli_correlation_prefix (trim text) in
          if command = [] then no_answer w
          else run_remote_command E (cli_privilege_for_remote (Some (au_privilege decrypted)))
                 (tm_timestamp plaintext) prefix command (au_shared_secret decrypted)
                 (au_sender_pubkey decrypted) (context_public_key (wd_context w))
                 (au_reply_path decrypted) w)"

definition handle_authenticated_text_message ::
  "('s, 'p) env \<Rightarrow> direct_encrypted_payload \<Rightarrow> ('s, 'p) world \<Rightarrow> ('s, 'p) answered"
where
  "handle_authenticated_text_message E payload w =
     (let (now_ms, w) = now_millis E w in
      and_then (decrypt_authenticated_payload E payload now_ms w) (\<lambda>(decrypted, w).
        case decrypted of
          None \<Rightarrow> no_answer w
        | Some decrypted \<Rightarrow>
            (case res_ok (text_message_decode (au_plaintext decrypted)) of
               None \<Rightarrow> no_answer w
             | Some plaintext \<Rightarrow>
                 if tm_text_type plaintext \<noteq> CliData then no_answer w
                 else let (fresh, w) = accept_request decrypted (tm_timestamp plaintext) now_ms w in
                   if \<not> fresh then no_answer w else run_text_message E decrypted plaintext w)))"

definition handle_binary_request ::
  "('s, 'p) env \<Rightarrow> request_plaintext \<Rightarrow> u64 \<Rightarrow> ('s, 'p) world \<Rightarrow> ('s, 'p) answered"
where
  "handle_binary_request E request now_ms w =
     (let tag = u32_to_le (rq_timestamp request) in
      case rq_request_data request of
        [] \<Rightarrow> no_answer w
      | kind # _ \<Rightarrow>
          if kind = REQ_TYPE_GET_STATUS then
            (let (ms, w) = now_millis E w in
             map_res (\<lambda>response. (Some response, w))
               (encode_status_binary_response (context_status (wd_context w) ms) tag))
          else if kind = REQ_TYPE_GET_TELEMETRY_DATA then
            (let (ms, w) = now_millis E w in
             Ok (Some (tag @ (case ss_battery_millivolts (context_status (wd_context w) ms) of
                                None \<Rightarrow> []
                              | Some mv \<Rightarrow> [LPP_CHANNEL_SELF, LPP_TYPE_VOLTAGE]
                                  @ u16_to_be (sat_add mv 5 div 10))), w))
          else if kind = REQ_TYPE_GET_NEIGHBOURS then
            Ok (map_option (\<lambda>listing. tag @ listing)
                  (encode_neighbours_binary_response (wd_context w) (rq_request_data request) now_ms), w)
          else if kind = REQ_TYPE_GET_OWNER_INFO then
            Ok (Some (owner_info_response (en_firmware_version E) (rq_timestamp request)
                        (cf_node_name (wd_config w)) (cf_owner_info (wd_config w))), w)
          else no_answer w)"

text \<open>The answer to a request: over a flood it goes back as a scoped flood that carries the path the
  request took, otherwise directly along the session's path.\<close>

definition encode_request_answer ::
  "crypto \<Rightarrow> app_config \<Rightarrow> packet \<Rightarrow> region_entry option \<Rightarrow> authenticated_plaintext \<Rightarrow> bytes \<Rightarrow> bytes \<Rightarrow>
   bytes option"
where
  "encode_request_answer C config packet flood_region decrypted responder response_body =
     (case flood_region of
        Some region \<Rightarrow>
          do { discovered_path \<leftarrow> normal_path packet;
               response \<leftarrow> encode_path_response_packet C (au_shared_secret decrypted)
                 (au_sender_pubkey decrypted) responder response_body discovered_path;
               scoped \<leftarrow> res_ok (apply_scope C response region);
               res_ok (packet_encode scoped) }
      | None \<Rightarrow> encode_response_plaintext C (au_shared_secret decrypted) (au_sender_pubkey decrypted)
                  responder response_body (au_reply_path decrypted))"

definition answer_request ::
  "('s, 'p) env \<Rightarrow> packet \<Rightarrow> region_entry option \<Rightarrow> u64 \<Rightarrow> authenticated_plaintext \<Rightarrow> ('s, 'p) world \<Rightarrow>
   ('s, 'p) answered"
where
  "answer_request E packet flood_region now_ms decrypted w =
     (case res_ok (request_decode (au_plaintext decrypted)) of
        None \<Rightarrow> no_answer w
      | Some plaintext \<Rightarrow>
          let responder = context_public_key (wd_context w);
              (fresh, w) = accept_request decrypted (rq_timestamp plaintext) now_ms w
          in if \<not> fresh then no_answer w
             else map_res (\<lambda>(body, w). (Option.bind body
                      (encode_request_answer (en_crypto E) (wd_config w) packet flood_region decrypted responder), w))
                    (handle_binary_request E plaintext now_ms w))"

definition handle_authenticated_request ::
  "('s, 'p) env \<Rightarrow> packet \<Rightarrow> direct_encrypted_payload \<Rightarrow> ('s, 'p) world \<Rightarrow> ('s, 'p) answered"
where
  "handle_authenticated_request E packet payload w =
     (let flood_region = (if is_flood (route_type packet)
            then map_option Some (match_flood_region (en_crypto E) (cf_regions (wd_config w)) packet)
            else Some None)
      in case flood_region of
           None \<Rightarrow> no_answer w
         | Some region \<Rightarrow>
             let (now_ms, w) = now_millis E w in
             and_then (decrypt_authenticated_payload E payload now_ms w) (\<lambda>(decrypted, w).
               case decrypted of
                 None \<Rightarrow> no_answer w
               | Some decrypted \<Rightarrow> answer_request E packet region now_ms decrypted w))"

section \<open>Which packets are requests\<close>

definition concerns_this_node :: "('s, 'p) world \<Rightarrow> packet \<Rightarrow> bool" where
  "concerns_this_node w packet \<longleftrightarrow> is_flood (route_type packet)
     \<or> (is_direct (route_type packet) \<and> packet_targets_this_node packet (context_node_hash (wd_context w)))"

definition handle_remote_packet :: "('s, 'p) env \<Rightarrow> packet \<Rightarrow> ('s, 'p) world \<Rightarrow> ('s, 'p) answered" where
  "handle_remote_packet E packet w =
     (case packet_payload packet of
        PAnonymousRequest payload \<Rightarrow>
          if is_flood (route_type packet) then
            (case normal_path packet of
               None \<Rightarrow> no_answer w
             | Some path \<Rightarrow> handle_anonymous_request E payload (path_reversed path) w)
          else if is_direct (route_type packet)
            \<and> packet_targets_this_node packet (context_node_hash (wd_context w))
            then handle_anonymous_request E payload path_empty w
          else no_answer w
      | PRequest payload \<Rightarrow>
          if concerns_this_node w packet then handle_authenticated_request E packet payload w else no_answer w
      | PTextMessage payload \<Rightarrow>
          if concerns_this_node w packet then handle_authenticated_text_message E payload w else no_answer w
      | _ \<Rightarrow> no_answer w)"

end
