(* ===== verification/Periodic.thy ===== *)
theory Periodic
  imports Discovery
begin

text \<open>
  Adverts sent on a timer (\<open>app/periodic.rs\<close>, \<open>app/periodic/schedule.rs\<close>): two countdowns, polled
  every second, one for the zero-hop adverts and one for the flooded ones.
\<close>

section \<open>A countdown\<close>

record schedule =
  sc_interval_ms :: u64
  sc_started_ms :: u64

definition schedule_new :: "u64 \<Rightarrow> u64 \<Rightarrow> schedule" where
  "schedule_new interval_ms now_ms = \<lparr>sc_interval_ms = interval_ms, sc_started_ms = now_ms\<rparr>"

definition due :: "schedule \<Rightarrow> u64 \<Rightarrow> u64 \<Rightarrow> bool \<times> schedule" where
  "due s interval_ms now_ms =
     (if interval_ms \<noteq> sc_interval_ms s then (False, schedule_new interval_ms now_ms)
      else if interval_ms = 0 \<or> sat_sub now_ms (sc_started_ms s) < interval_ms then (False, s)
      else (True, s\<lparr>sc_started_ms := now_ms\<rparr>))"

section \<open>The task\<close>

definition advert_interval_ms :: "app_config \<Rightarrow> u64" where
  "advert_interval_ms config = word_of_nat (cf_advert_interval_minutes config) * 60000"

definition flood_interval_ms :: "app_config \<Rightarrow> u64" where
  "flood_interval_ms config = word_of_nat (cf_flood_advert_interval_hours config) * 3600000"

text \<open>An advert that does not encode is reported and dropped; so is one the queue has no room for.\<close>

definition send_advert :: "('s, 'p) env \<Rightarrow> bytes option \<Rightarrow> ('s, 'p) world \<Rightarrow> ('s, 'p) world" where
  "send_advert E packet w =
     (case packet of None \<Rightarrow> w | Some bs \<Rightarrow> snd (queue_packet E enqueue_outbound bs w))"

text \<open>The schedules at the start of the task, and one turn of its loop after the delay.\<close>

definition periodic_start :: "('s, 'p) env \<Rightarrow> ('s, 'p) world \<Rightarrow> (schedule \<times> schedule) \<times> ('s, 'p) world" where
  "periodic_start E w =
     (let config = wd_config w; (now_ms, w) = now_millis E w
      in ((schedule_new (advert_interval_ms config) now_ms,
           schedule_new (flood_interval_ms config) now_ms), w))"

definition poll_advert ::
  "('s, 'p) env \<Rightarrow> (app_config \<Rightarrow> u64) \<Rightarrow> (app_config \<Rightarrow> u32 \<Rightarrow> bytes option) \<Rightarrow> schedule \<Rightarrow>
   ('s, 'p) world \<Rightarrow> schedule \<times> ('s, 'p) world"
where
  "poll_advert E interval build s w =
     (let config = wd_config w; (now_ms, w) = now_millis E w; (fire, s) = due s (interval config) now_ms
      in if \<not> fire then (s, w)
         else let (timestamp, w) = now_seconds E w in (s, send_advert E (build config timestamp) w))"

definition periodic_turn ::
  "('s, 'p) env \<Rightarrow> (schedule \<times> schedule) \<times> ('s, 'p) world \<Rightarrow> (schedule \<times> schedule) \<times> ('s, 'p) world"
where
  "periodic_turn E st =
     (let ((zero_hop, flood), w) = st; C = en_crypto E;
          (flood, w) = poll_advert E flood_interval_ms (flood_advert C) flood w;
          (zero_hop, w) = poll_advert E advert_interval_ms (zero_hop_advert C) zero_hop w
      in ((zero_hop, flood), w))"

section \<open>Spacing\<close>

lemma due_iff:
  "due s i now = (True, s') \<longleftrightarrow> i \<noteq> 0 \<and> i = sc_interval_ms s
     \<and> unat (sc_started_ms s) + unat i \<le> unat now \<and> s' = s\<lparr>sc_started_ms := now\<rparr>"
proof -
  have "i \<le> sat_sub now (sc_started_ms s) \<longleftrightarrow> unat (sc_started_ms s) + unat i \<le> unat now" if "i \<noteq> 0"
  proof -
    have "0 < unat i" using that by (simp add: unat_gt_0)
    then show ?thesis by (auto simp: word_le_nat_alt num_simps)
  qed
  then show ?thesis by (auto simp: due_def not_less)
qed

lemma due_FalseD:
  "due s (sc_interval_ms s) now = (False, s') \<Longrightarrow> s' = s"
  by (simp add: due_def split: if_splits)

text \<open>The times at which a countdown fires when it is polled at the given times.\<close>

fun fires :: "schedule \<Rightarrow> u64 list \<Rightarrow> u64 list" where
  "fires s [] = []"
| "fires s (now # ts) =
     (case due s (sc_interval_ms s) now of
        (True, s') \<Rightarrow> now # fires s' ts
      | (False, s') \<Rightarrow> fires s' ts)"

lemma fires_spaced:
  "sorted_wrt (\<lambda>a b. unat a + unat (sc_interval_ms s) \<le> unat b) (sc_started_ms s # fires s ts)"
proof (induction s ts rule: fires.induct)
  case (2 s now ts)
  let ?R = "\<lambda>a b :: u64. unat a + unat (sc_interval_ms s) \<le> unat b"
  show ?case
  proof (cases "due s (sc_interval_ms s) now")
    case (Pair fire s')
    show ?thesis
    proof (cases fire)
      case True
      with Pair have d: "due s (sc_interval_ms s) now = (True, s')" by simp
      note D = iffD1 [OF due_iff d]
      have i: "sc_interval_ms s' = sc_interval_ms s" "sc_started_ms s' = now" using D by simp_all
      have "sorted_wrt ?R (now # fires s' ts)" using 2(1) [OF d [symmetric], OF refl] i by simp
      moreover have "?R (sc_started_ms s) now" using D by blast
      ultimately show ?thesis using d by (auto intro: order_trans [OF _ le_add1] dest: order_trans)
    next
      case False
      with Pair have d: "due s (sc_interval_ms s) now = (False, s')" by simp
      then show ?thesis using 2(2) [OF d [symmetric], OF refl] due_FalseD [OF d] by simp
    qed
  qed
qed simp

lemma fires_eventually:
  assumes "t \<in> set ts" and "sc_interval_ms s \<noteq> 0"
    and "unat (sc_started_ms s) + unat (sc_interval_ms s) \<le> unat t"
  shows "fires s ts \<noteq> []"
  using assms
proof (induction s ts rule: fires.induct)
  case (2 s now ts)
  show ?case
  proof (cases "due s (sc_interval_ms s) now")
    case (Pair fire s')
    show ?thesis
    proof (cases fire)
      case False
      with Pair have d: "due s (sc_interval_ms s) now = (False, s')" by simp
      have s': "s' = s" using due_FalseD [OF d] .
      have "t \<noteq> now" using d 2(4,5) due_iff [of s "sc_interval_ms s" now "s\<lparr>sc_started_ms := now\<rparr>"] by auto
      then show ?thesis using 2(2) [OF d [symmetric], OF refl] 2(3-5) d s' by simp
    qed (use Pair in simp)
  qed
qed simp

section \<open>Properties\<close>

text \<open>C19: Timed adverts come neither early nor in bursts: at whatever times a countdown is polled, it
  first fires a full interval after it started and then never twice within an interval, however many
  polls were missed; a zero interval never fires, and a poll a full interval late does.\<close>

theorem adverts_spaced:
  "sorted_wrt (\<lambda>a b. unat a + unat (sc_interval_ms s) \<le> unat b) (sc_started_ms s # fires s ts)
   \<and> (sc_interval_ms s = 0 \<longrightarrow> fires s ts = [])
   \<and> (sc_interval_ms s \<noteq> 0 \<and> t \<in> set ts \<and> unat (sc_started_ms s) + unat (sc_interval_ms s) \<le> unat t
        \<longrightarrow> fires s ts \<noteq> [])"
proof -
  have "fires s ts = []" if "sc_interval_ms s = 0"
    using that by (induction ts) (simp_all add: due_def)
  then show ?thesis using fires_spaced fires_eventually by blast
qed

theorem adverts_spaced_witness:
  "fires (schedule_new 60000 1000) [30000, 61000, 500000] \<noteq> []"
  using adverts_spaced [of "schedule_new 60000 1000" "[30000, 61000, 500000]" 61000]
  by (simp add: schedule_new_def)

end
