(* ===== verification/Airtime.thy ===== *)
theory Airtime
  imports Radio
begin

text \<open>
  The duty-cycle budget of the transmitter (\<open>AirtimeBudget\<close> of \<open>app/mod.rs\<close>): a token bucket filled
  at \<open>duty_cycle_percent\<close> of the elapsed time, holding at most that share of one hour. \<open>available_ms\<close> is an
  \<open>i64\<close>, here an \<open>int\<close> with the saturations written out; ticks are \<open>u64\<close> words.
\<close>

definition DUTY_CYCLE_WINDOW_MS :: nat where "DUTY_CYCLE_WINDOW_MS = 3600000"

record airtime_budget =
  ab_available_ms :: int
  ab_last_update_ms :: u64

definition clamp_percent :: "u8 \<Rightarrow> nat" where
  "clamp_percent pct = max 1 (min 100 (unat pct))"

definition duty_cycle_max_budget_ms :: "u8 \<Rightarrow> nat" where
  "duty_cycle_max_budget_ms pct = DUTY_CYCLE_WINDOW_MS * clamp_percent pct div 100"

definition budget_new :: "u64 \<Rightarrow> u8 \<Rightarrow> airtime_budget" where
  "budget_new now_ms pct =
     \<lparr>ab_available_ms = int (duty_cycle_max_budget_ms pct), ab_last_update_ms = now_ms\<rparr>"

definition budget_refill_ms :: "airtime_budget \<Rightarrow> u64 \<Rightarrow> u8 \<Rightarrow> nat" where
  "budget_refill_ms b now_ms pct =
     unat (sat_mul (sat_sub now_ms (ab_last_update_ms b)) (word_of_nat (clamp_percent pct))) div 100"

definition budget_update :: "airtime_budget \<Rightarrow> u64 \<Rightarrow> u8 \<Rightarrow> airtime_budget" where
  "budget_update b now_ms pct =
     (if 100 \<le> pct
      then \<lparr>ab_available_ms = int DUTY_CYCLE_WINDOW_MS, ab_last_update_ms = now_ms\<rparr>
      else let max_budget_ms = int (duty_cycle_max_budget_ms pct);
               available = min (ab_available_ms b) max_budget_ms;
               refill_ms = budget_refill_ms b now_ms pct
        in if 0 < refill_ms
           then \<lparr>ab_available_ms = min (sat_i64 (available + min (int refill_ms) i64_max)) max_budget_ms,
                 ab_last_update_ms = now_ms\<rparr>
           else b\<lparr>ab_available_ms := available\<rparr>)"

definition budget_ready_at_ms ::
  "airtime_budget \<Rightarrow> u64 \<Rightarrow> u32 \<Rightarrow> u8 \<Rightarrow> u64 \<times> airtime_budget"
where
  "budget_ready_at_ms b now_ms required_ms pct =
     (if 100 \<le> pct then (now_ms, b)
      else let b = budget_update b now_ms pct; required = int (unat required_ms) in
        if required \<le> ab_available_ms b then (now_ms, b)
        else let needed_ms = (word_of_int (sat_i64 (required - ab_available_ms b)) :: u64)
          in (sat_add now_ms
                (word_of_nat (div_ceil_u64 (unat (sat_mul needed_ms 100)) (clamp_percent pct))), b))"

definition budget_record_transmit :: "airtime_budget \<Rightarrow> u64 \<Rightarrow> u32 \<Rightarrow> u8 \<Rightarrow> airtime_budget" where
  "budget_record_transmit b now_ms airtime_ms pct =
     (if 100 \<le> pct then b
      else let b = budget_update b now_ms pct
        in b\<lparr>ab_available_ms := sat_i64 (ab_available_ms b - int (unat airtime_ms))\<rparr>)"

section \<open>Bounds\<close>

text \<open>Values stay in the form \<open>unat\<close>, on which the saturating operations are stated.\<close>

declare of_nat_unat [simp del]

lemma below_100: "pct < 100 \<Longrightarrow> (100 \<le> pct) = False" for pct :: u8
  by (simp add: not_le)

lemma clamp_percent_id: "1 \<le> unat pct \<Longrightarrow> pct < 100 \<Longrightarrow> clamp_percent pct = unat pct"
  by (simp add: clamp_percent_def word_less_nat_alt)

lemma clamp_percent_range: "1 \<le> clamp_percent pct \<and> clamp_percent pct \<le> 100"
  by (auto simp: clamp_percent_def)

lemma max_budget_range: "36000 \<le> duty_cycle_max_budget_ms pct \<and> duty_cycle_max_budget_ms pct \<le> 3600000"
proof -
  have "3600000 * 1 div 100 \<le> 3600000 * clamp_percent pct div 100"
    "3600000 * clamp_percent pct div 100 \<le> 3600000 * 100 div 100"
    using clamp_percent_range [of pct] by (intro div_le_mono mult_le_mono; simp)+
  then show ?thesis by (simp add: duty_cycle_max_budget_ms_def DUTY_CYCLE_WINDOW_MS_def)
qed

text \<open>A reachable budget: never above its maximum, and far from the ends of \<open>i64\<close>.\<close>

definition budget_inv :: "u8 \<Rightarrow> airtime_budget \<Rightarrow> bool" where
  "budget_inv pct b \<longleftrightarrow> - (2 ^ 62) \<le> ab_available_ms b
     \<and> ab_available_ms b \<le> int (duty_cycle_max_budget_ms pct)"

lemma budget_inv_new: "budget_inv pct (budget_new now pct)"
  using max_budget_range [of pct] by (simp add: budget_inv_def budget_new_def)

text \<open>In the range of the invariant no step of the refill saturates.\<close>

lemma budget_update_available:
  assumes inv: "budget_inv pct b" and pct: "pct < 100"
  shows "ab_available_ms (budget_update b now pct) =
    min (ab_available_ms b + int (budget_refill_ms b now pct)) (int (duty_cycle_max_budget_ms pct))"
proof -
  let ?r = "budget_refill_ms b now pct" and ?m = "int (duty_cycle_max_budget_ms pct)"
  have m: "0 \<le> ?m" "?m \<le> 3600000" using max_budget_range [of pct] by auto
  have "unat (sat_mul (sat_sub now (ab_last_update_ms b)) (word_of_nat (clamp_percent pct))) < 2 ^ 64"
    by (rule order_less_le_trans [OF unsigned_less]) simp
  then have r: "int ?r \<le> 184467440737095517" by (simp add: budget_refill_ms_def)
  have le: "ab_available_ms b \<le> ?m" "- (2 ^ 62) \<le> ab_available_ms b"
    using inv by (simp_all add: budget_inv_def)
  have "sat_i64 (ab_available_ms b + int ?r) = ab_available_ms b + int ?r"
    using r m le by (intro sat_i64_id) (simp_all add: i64_min_def i64_max_def)
  then show ?thesis
    using pct le r by (simp add: budget_update_def Let_def below_100 i64_max_def min_absorb1)
qed

lemma budget_update_inv:
  assumes "budget_inv pct b" and "pct < 100"
  shows "budget_inv pct (budget_update b now pct)"
  using assms budget_update_available [OF assms, of now] max_budget_range [of pct]
  by (auto simp: budget_inv_def min_def)

lemma budget_update_last:
  "pct < 100 \<Longrightarrow> ab_last_update_ms (budget_update b now pct) =
     (if 0 < budget_refill_ms b now pct then now else ab_last_update_ms b)"
  by (simp add: budget_update_def Let_def below_100)

text \<open>The refill never exceeds the allowed share of the time it stands for.\<close>

lemma budget_refill_le:
  assumes "ab_last_update_ms b \<le> now"
  shows "100 * budget_refill_ms b now pct \<le> clamp_percent pct * (unat now - unat (ab_last_update_ms b))"
proof -
  have c: "unat (word_of_nat (clamp_percent pct) :: u64) = clamp_percent pct"
    using clamp_percent_range [of pct] by (intro unat_word_of_nat_id) simp
  have "100 * budget_refill_ms b now pct
      \<le> unat (sat_mul (sat_sub now (ab_last_update_ms b)) (word_of_nat (clamp_percent pct) :: u64))"
    by (simp add: budget_refill_ms_def)
  also have "\<dots> \<le> (unat now - unat (ab_last_update_ms b)) * clamp_percent pct"
    by (simp add: unat_sat_mul unat_sat_sub c)
  finally show ?thesis by (simp add: mult.commute)
qed

section \<open>When a packet may go\<close>

text \<open>A packet may go exactly when the refilled budget covers its airtime (the clock short of its
  last tick, where adding a delay would saturate).\<close>

lemma budget_ready_iff:
  assumes inv: "budget_inv pct b" and pct: "pct < 100" and now: "now \<noteq> - 1"
  shows "fst (budget_ready_at_ms b now required pct) \<le> now \<longleftrightarrow>
    int (unat required) \<le> ab_available_ms (budget_update b now pct)"
proof (cases "int (unat required) \<le> ab_available_ms (budget_update b now pct)")
  case True
  then show ?thesis using pct by (simp add: budget_ready_at_ms_def Let_def below_100)
next
  case False
  let ?n = "int (unat required) - ab_available_ms (budget_update b now pct)"
  have r: "unat required < 2 ^ 32" by (rule order_less_le_trans [OF unsigned_less]) simp
  have n: "0 < ?n" "?n \<le> 2 ^ 62 + 2 ^ 32"
    using False r budget_update_inv [OF inv pct, of now] by (auto simp: budget_inv_def)
  then have s: "sat_i64 ?n = ?n" by (intro sat_i64_id) (simp_all add: i64_min_def i64_max_def)
  have u: "unat (word_of_int ?n :: u64) = nat ?n"
    using n by (simp only: unat_eq_nat_uint uint_word_of_int_eq) (simp add: take_bit_int_eq_self)
  then have "0 < unat (sat_mul (word_of_int ?n :: u64) 100)"
    using n by (simp add: unat_sat_mul)
  then have d: "0 < div_ceil_u64 (unat (sat_mul (word_of_int ?n :: u64) 100)) (clamp_percent pct)"
    using clamp_percent_range [of pct] by (intro div_ceil_pos) auto
  let ?d = "div_ceil_u64 (unat (sat_mul (word_of_int ?n :: u64) 100)) (clamp_percent pct)"
  have lt: "?d < 2 ^ 64"
  proof -
    have "?d \<le> unat (sat_mul (word_of_int ?n :: u64) 100)"
      using clamp_percent_range [of pct] by (intro div_ceil_minimal) auto
    also have "\<dots> < 2 ^ 64" by (rule order_less_le_trans [OF unsigned_less]) simp
    finally show ?thesis .
  qed
  have "unat now < 2 ^ 64 - 1"
  proof -
    have "unat now < 2 ^ 64" by (rule order_less_le_trans [OF unsigned_less]) simp
    moreover have "unat now \<noteq> 2 ^ 64 - 1" using now by (auto simp: word_unat_eq_iff unsigned_minus_1_eq_mask mask_eq_exp_minus_1)
    ultimately show ?thesis by linarith
  qed
  then have "unat now < unat (sat_add now (word_of_nat ?d))"
    using d lt by (simp add: unat_sat_add unat_word_of_nat_id)
  then have "\<not> sat_add now (word_of_nat ?d) \<le> now" by (simp add: word_le_nat_alt)
  with False pct s show ?thesis by (simp add: budget_ready_at_ms_def Let_def below_100)
qed

lemma budget_ready_snd:
  "pct < 100 \<Longrightarrow> snd (budget_ready_at_ms b now required pct) = budget_update b now pct"
  by (simp add: budget_ready_at_ms_def Let_def below_100)

text \<open>A packet that needs more than the whole budget is never ready.\<close>

lemma budget_oversized_never_ready:
  assumes "budget_inv pct b" and "pct < 100" and "now \<noteq> - 1"
    and "duty_cycle_max_budget_ms pct < unat required"
  shows "\<not> fst (budget_ready_at_ms b now required pct) \<le> now"
  using budget_update_inv [OF assms(1,2), of now] assms(4)
  by (subst budget_ready_iff [OF assms(1-3)]) (simp add: budget_inv_def)

section \<open>The duty cycle is kept\<close>

text \<open>The radio loop polls the budget at will; it transmits only when the budget lets the packet go,
  and charges the airtime when the transmission is over. \<open>spent\<close> is the airtime charged so far.\<close>

inductive airtime_run :: "u8 \<Rightarrow> u64 \<Rightarrow> airtime_budget \<Rightarrow> u64 \<Rightarrow> nat \<Rightarrow> bool" for pct t0 where
  run_start: "airtime_run pct t0 (budget_new t0 pct) t0 0"
| run_poll: "airtime_run pct t0 b t spent \<Longrightarrow> t \<le> now \<Longrightarrow>
    airtime_run pct t0 (snd (budget_ready_at_ms b now required pct)) now spent"
| run_transmit: "airtime_run pct t0 b t spent \<Longrightarrow> t \<le> now \<Longrightarrow> now \<noteq> - 1 \<Longrightarrow>
    budget_ready_at_ms b now airtime pct = (r, b') \<Longrightarrow> r \<le> now \<Longrightarrow> now \<le> done_at \<Longrightarrow>
    airtime_run pct t0 (budget_record_transmit b' done_at airtime pct) done_at (spent + unat airtime)"

definition run_inv :: "u8 \<Rightarrow> u64 \<Rightarrow> airtime_budget \<Rightarrow> u64 \<Rightarrow> nat \<Rightarrow> bool" where
  "run_inv pct t0 b t spent \<longleftrightarrow> budget_inv pct b \<and> 0 \<le> ab_available_ms b
     \<and> t0 \<le> ab_last_update_ms b \<and> ab_last_update_ms b \<le> t
     \<and> 100 * (ab_available_ms b + int spent) \<le> 100 * int (duty_cycle_max_budget_ms pct)
         + int (clamp_percent pct) * (int (unat (ab_last_update_ms b)) - int (unat t0))"

lemma run_inv_update:
  assumes inv: "run_inv pct t0 b t spent" and pct: "pct < 100" and le: "t \<le> now"
  shows "run_inv pct t0 (budget_update b now pct) now spent"
proof -
  have bi: "budget_inv pct b" and last: "ab_last_update_ms b \<le> now"
    using inv le by (auto simp: run_inv_def)
  let ?r = "budget_refill_ms b now pct" and ?c = "int (clamp_percent pct)"
  have avail: "ab_available_ms (budget_update b now pct) \<le> ab_available_ms b + int ?r"
    using budget_update_available [OF bi pct, of now] by simp
  have nonneg: "0 \<le> ab_available_ms (budget_update b now pct)"
    using budget_update_available [OF bi pct, of now] inv by (simp add: run_inv_def)
  have "100 * int ?r \<le> ?c * (int (unat now) - int (unat (ab_last_update_ms b)))"
    using budget_refill_le [OF last, of pct] last
    by (simp add: word_le_nat_alt flip: of_nat_diff of_nat_mult)
  then have "100 * int ?r + ?c * (int (unat (ab_last_update_ms b)) - int (unat t0))
      \<le> ?c * (int (unat now) - int (unat t0))"
    by (simp add: algebra_simps)
  then show ?thesis
    using avail nonneg inv last budget_update_inv [OF bi pct, of now] budget_update_last [OF pct, of b now]
    unfolding run_inv_def by (auto simp: algebra_simps)
qed

lemma run_inv_reachable:
  assumes "airtime_run pct t0 b t spent" and pct: "pct < 100"
  shows "run_inv pct t0 b t spent"
  using assms(1)
proof induction
  case run_start
  then show ?case using budget_inv_new [of pct t0] by (simp add: run_inv_def budget_new_def)
next
  case (run_poll b t spent now required)
  then show ?case using run_inv_update [OF _ pct] by (simp add: budget_ready_snd [OF pct])
next
  case (run_transmit b t spent now airtime r b' done_at)
  have b': "b' = budget_update b now pct" and r: "fst (budget_ready_at_ms b now airtime pct) \<le> now"
    using run_transmit budget_ready_snd [OF pct, of b now airtime] by auto
  have i1: "run_inv pct t0 b' now spent"
    unfolding b' using run_transmit run_inv_update [OF _ pct] by blast
  have "int (unat airtime) \<le> ab_available_ms b'"
    using budget_ready_iff [of pct b now airtime] r run_transmit pct by (auto simp: run_inv_def b')
  moreover have i2: "run_inv pct t0 (budget_update b' done_at pct) done_at spent"
    using i1 run_transmit pct by (intro run_inv_update) auto
  moreover have bi: "budget_inv pct b'" using i1 by (simp add: run_inv_def)
  ultimately have "int (unat airtime) \<le> ab_available_ms (budget_update b' done_at pct)"
    using budget_update_available [OF bi pct, of done_at] by (simp add: budget_inv_def)
  moreover from this have "sat_i64 (ab_available_ms (budget_update b' done_at pct) - int (unat airtime))
      = ab_available_ms (budget_update b' done_at pct) - int (unat airtime)"
    using i2 max_budget_range [of pct]
    by (intro sat_i64_id) (auto simp: run_inv_def budget_inv_def i64_min_def i64_max_def)
  ultimately show ?case
    using i2 pct by (simp add: budget_record_transmit_def Let_def below_100 run_inv_def budget_inv_def)
qed

lemma share_bound:
  assumes "100 * (a + int s) \<le> 100 * int m + int c * (int l - int z)" and "0 \<le> a"
    and "z \<le> l" and "l \<le> t"
  shows "100 * s \<le> 100 * m + c * (t - z)"
proof -
  have "int c * (int l - int z) = int (c * (l - z))" using assms(3) by (simp add: of_nat_diff)
  with assms(1,2) have "int (100 * s) \<le> int (100 * m + c * (l - z))" by simp
  then have "100 * s \<le> 100 * m + c * (l - z)" by (simp only: of_nat_le_iff)
  moreover have "c * (l - z) \<le> c * (t - z)" using assms(4) by (intro mult_le_mono2 diff_le_mono)
  ultimately show ?thesis by linarith
qed

lemma duty_cycle_bound:
  assumes "airtime_run pct t0 b t spent" and "pct < 100"
  shows "100 * spent \<le> 100 * duty_cycle_max_budget_ms pct + clamp_percent pct * (unat t - unat t0)"
  using run_inv_reachable [OF assms] unfolding run_inv_def word_le_nat_alt
  by (auto intro: share_bound)

text \<open>A packet the budget can ever hold is let go at the tick it was promised, when nothing is sent
  in between.\<close>

lemma budget_ready_when_promised:
  assumes inv: "run_inv pct t0 b t spent" and pct: "pct < 100" and le: "t \<le> now" and now: "now \<noteq> - 1"
    and fits: "unat required \<le> duty_cycle_max_budget_ms pct"
    and ready: "budget_ready_at_ms b now required pct = (r, b')" and r: "r \<noteq> - 1"
  shows "fst (budget_ready_at_ms b' r required pct) \<le> r"
proof -
  let ?c = "clamp_percent pct"
  have b': "b' = budget_update b now pct" using budget_ready_snd [OF pct, of b now required] ready by simp
  have inv': "run_inv pct t0 b' now spent" unfolding b' using inv pct le by (rule run_inv_update)
  then have bi: "budget_inv pct b'" and avail: "0 \<le> ab_available_ms b'"
    and last: "ab_last_update_ms b' \<le> now" by (simp_all add: run_inv_def)
  have "int (unat required) \<le> ab_available_ms b' + int (budget_refill_ms b' r pct)"
  proof (cases "int (unat required) \<le> ab_available_ms b'")
    case False
    define needed where "needed = unat required - nat (ab_available_ms b')"
    have needed: "int needed = int (unat required) - ab_available_ms b'" "0 < needed"
      using False avail by (simp_all add: needed_def)
    have lt: "needed < 2 ^ 32"
    proof -
      have "needed \<le> unat required" by (simp add: needed_def)
      also have "\<dots> < 2 ^ 32" by (rule order_less_le_trans [OF unsigned_less]) simp
      finally show ?thesis .
    qed
    define d where "d = div_ceil_u64 (100 * needed) ?c"
    have c: "1 \<le> ?c" "?c \<le> 100" using clamp_percent_range [of pct] by auto
    have d: "100 * needed \<le> d * ?c" unfolding d_def using c by (intro div_ceil_ge) simp
    have dlt: "d < 2 ^ 40" 
    proof -
      have "d \<le> 100 * needed" unfolding d_def using c by (intro div_ceil_minimal) auto
      with lt show ?thesis by simp
    qed
    have "sat_i64 (int (unat required) - ab_available_ms b') = int needed"
      using needed lt by (simp add: sat_i64_def i64_min_def i64_max_def)
    moreover have "unat (word_of_int (int needed) :: u64) = needed"
      using lt by (simp add: unat_word_of_nat_id)
    ultimately have "r = sat_add now (word_of_nat d)"
      using False ready pct lt
      by (simp add: budget_ready_at_ms_def below_100 Let_def b' [symmetric] d_def unat_sat_mul mult.commute)
    moreover have "unat r \<noteq> 2 ^ 64 - 1"
      using r by (auto simp: word_unat_eq_iff unsigned_minus_1_eq_mask mask_eq_exp_minus_1)
    ultimately have ur: "unat r = unat now + d"
      using dlt by (auto simp: unat_sat_add unat_word_of_nat_id min_def split: if_splits)
    have cc: "unat (word_of_nat ?c :: u64) = ?c" using c by (intro unat_word_of_nat_id) simp
    have "100 * needed \<le> (unat r - unat (ab_last_update_ms b')) * ?c"
      using d ur last by (intro order_trans [OF d] mult_le_mono1) (simp add: word_le_nat_alt)
    moreover have "100 * needed \<le> 2 ^ 64 - 1" using lt by simp
    ultimately have "100 * needed div 100 \<le> budget_refill_ms b' r pct"
      unfolding budget_refill_ms_def by (intro div_le_mono) (simp add: unat_sat_mul unat_sat_sub cc)
    with needed show ?thesis by simp
  qed simp
  then have "int (unat required) \<le> ab_available_ms (budget_update b' r pct)"
    using budget_update_available [OF bi pct, of r] fits by simp
  then show ?thesis by (simp add: budget_ready_iff [OF bi pct r])
qed

section \<open>Properties\<close>

text \<open>C32: The duty cycle is kept: whatever is transmitted after asking the budget, over any period the
  airtime spent is at most one full budget plus the duty cycle's share of the elapsed time.\<close>

theorem duty_cycle_kept:
  assumes "airtime_run pct t0 b t spent" and "pct < 100"
  shows "100 * spent \<le> 100 * duty_cycle_max_budget_ms pct + clamp_percent pct * (unat t - unat t0)"
  using assms by (rule duty_cycle_bound)

theorem duty_cycle_kept_witness: "100 * (0 :: nat) \<le> 100 * duty_cycle_max_budget_ms 10 + clamp_percent 10 * (unat (5 :: u64) - unat (5 :: u64))"
  using duty_cycle_kept [OF run_start [of 10 5]] by simp

text \<open>C33: The wake-up time the budget gives is right: a packet that fits the budget at all is ready when
  that time has come.\<close>

theorem budget_wakes_in_time:
  assumes "airtime_run pct t0 b t spent" and "pct < 100" and "t \<le> now" and "now \<noteq> - 1"
    and "unat required \<le> duty_cycle_max_budget_ms pct"
    and "budget_ready_at_ms b now required pct = (r, b')" and "r \<noteq> - 1"
  shows "fst (budget_ready_at_ms b' r required pct) \<le> r"
  using budget_ready_when_promised [OF run_inv_reachable [OF assms(1,2)] assms(2-)] .

theorem budget_wakes_in_time_witness:
  "fst (budget_ready_at_ms (budget_update (budget_new 5 10) 6 10) 6 100 10) \<le> 6"
proof -
  have a: "int (unat (100 :: u32)) \<le> ab_available_ms (budget_update (budget_new 5 10) 6 10)"
    using budget_update_available [OF budget_inv_new, of 10 5 6] max_budget_range [of 10]
    by (simp add: budget_new_def)
  then have "budget_ready_at_ms (budget_new 5 10) 6 100 10 = (6, budget_update (budget_new 5 10) 6 10)"
    by (simp add: budget_ready_at_ms_def Let_def)
  moreover have "unat (100 :: u32) \<le> duty_cycle_max_budget_ms 10" using max_budget_range [of 10] by simp
  ultimately show ?thesis
    using budget_wakes_in_time [OF run_start [of 10 5], of 6 100 6] by simp
qed

text \<open>C34: A packet whose airtime is larger than the whole budget is never ready, at any time: it would
  stay at the head of the transmit queue.\<close>

theorem oversized_packet_never_ready:
  assumes "budget_inv pct b" and "pct < 100" and "now \<noteq> - 1"
    and "duty_cycle_max_budget_ms pct < unat required"
  shows "now < fst (budget_ready_at_ms b now required pct)"
  using budget_oversized_never_ready [OF assms] by simp

theorem oversized_packet_never_ready_witness:
  "7 < fst (budget_ready_at_ms (budget_new 5 1) 7 (word_of_nat (packet_airtime_ms
      \<lparr>rc_receive_frequency_hz = 869525000, rc_spreading_factor = Sf12, rc_bandwidth = Khz7_8,
       rc_coding_rate = Cr4_8, rc_transmit_power_dbm = 14\<rparr> 255)) 1)"
proof -
  let ?rc = "\<lparr>rc_receive_frequency_hz = 869525000, rc_spreading_factor = Sf12, rc_bandwidth = Khz7_8,
       rc_coding_rate = Cr4_8, rc_transmit_power_dbm = 14\<rparr>"
  have st: "symbol_time_us ?rc = 524456" by (simp add: symbol_time_us_def div_ceil_u64_def)
  have ps: "payload_symbol_count 255 Sf12 Cr4_8 True = 416" by (simp add: payload_symbol_count_def)
  have "packet_airtime_ms ?rc 255 = 224599"
    unfolding packet_airtime_ms_def Let_def st by (simp add: ps PREAMBLE_LENGTH_def div_ceil_u64_def)
  moreover have "duty_cycle_max_budget_ms 1 = 36000"
    by (simp add: duty_cycle_max_budget_ms_def clamp_percent_def DUTY_CYCLE_WINDOW_MS_def)
  ultimately have "duty_cycle_max_budget_ms 1 < packet_airtime_ms ?rc 255" by simp
  moreover have "packet_airtime_ms ?rc 255 < 2 ^ 32" using packet_airtime_bound [of 255 ?rc] by simp
  ultimately have "duty_cycle_max_budget_ms 1 < unat (word_of_nat (packet_airtime_ms ?rc 255) :: u32)"
    by (simp add: unat_of_nat)
  then show ?thesis by (intro oversized_packet_never_ready budget_inv_new) simp_all
qed

end
