(* ===== verification/Forwarding.thy ===== *)
theory Forwarding
  imports App_Context Airtime Packets
begin

text \<open>
  The repeater's rules (\<open>app/mod.rs\<close>): which received packets are forwarded and how they are changed,
  when they are sent, and the two halves of a transmission around the radio's work. Strings that only
  name the reason of a drop are kept as they are. The radio's answers, the clock and the random number
  are arguments.
\<close>

definition FORWARD_BUFFER_LEN :: nat where "FORWARD_BUFFER_LEN = 255"
definition FORWARD_DELAY_BASE_MS :: nat where "FORWARD_DELAY_BASE_MS = 40"
definition FORWARD_DELAY_JITTER_MS :: nat where "FORWARD_DELAY_JITTER_MS = 120"
definition OUTBOUND_RETRY_DELAY_MIN_MS :: nat where "OUTBOUND_RETRY_DELAY_MIN_MS = 50"
definition OUTBOUND_RETRY_DELAY_MAX_MS :: nat where "OUTBOUND_RETRY_DELAY_MAX_MS = 500"
definition CAD_MAX_ATTEMPTS :: nat where "CAD_MAX_ATTEMPTS = 16"
definition CAD_BUSY_BACKOFF_BASE_MS :: nat where "CAD_BUSY_BACKOFF_BASE_MS = 10"
definition CAD_BUSY_BACKOFF_AIRTIME_DIVISOR :: nat where "CAD_BUSY_BACKOFF_AIRTIME_DIVISOR = 2"
definition CAD_BUSY_BACKOFF_SYMBOLS :: nat where "CAD_BUSY_BACKOFF_SYMBOLS = 4"

section \<open>The decision\<close>

datatype forward_decision =
    Forward packet bytes | Capture packet bytes | DoNotForward | DropForward string

text \<open>A failing step decides the packet's fate; a panic would not.\<close>

definition or_decide ::
  "forward_decision \<Rightarrow> ('e, 'a) res \<Rightarrow> ('a \<Rightarrow> (unit, forward_decision) res) \<Rightarrow> (unit, forward_decision) res"
where
  "or_decide d r k = (case r of Inr x \<Rightarrow> k x | Inl (Fail _) \<Rightarrow> Ok d | Inl Panic \<Rightarrow> Panicked)"

definition capture_flood ::
  "crypto \<Rightarrow> app_config \<Rightarrow> packet \<Rightarrow> (bool \<times> packet) region_result"
where
  "capture_flood C config packet =
     (if route_type packet = Flood
      then if \<not> cf_region_capture config then Ok (False, packet)
           else if (case normal_path packet of None \<Rightarrow> True | Some path \<Rightarrow> hop_count path \<noteq> 0)
             then Ok (False, packet)
           else apply_default_scope C (cf_regions config) packet
      else Ok (False, packet))"

definition prepare_flood_forward ::
  "crypto \<Rightarrow> app_config \<Rightarrow> packet \<Rightarrow> bytes \<Rightarrow> (unit, forward_decision) res"
where
  "prepare_flood_forward C config packet nh =
     (if route_type packet \<noteq> Flood \<and> route_type packet \<noteq> TransportFlood
      then Ok (DropForward ''not flood routed'')
      else or_decide (DropForward ''default region scope failed'') (capture_flood C config packet)
        (\<lambda>(captured, packet).
        case match_flood_region C (cf_regions config) packet of
          None \<Rightarrow> Ok (DropForward ''unknown or denied flood region'')
        | Some region \<Rightarrow>
            (case normal_path packet of
               None \<Rightarrow> Ok (DropForward ''flood packet without normal path'')
             | Some path \<Rightarrow>
                 if detects_loop (cf_loop_detection config) path nh then Ok (DropForward ''loop detected'')
                 else if packet_kind packet = KAdvert \<and> cf_flood_max_advert_hops config \<le> hop_count path
                   then Ok DoNotForward
                 else if region_is_wildcard region \<and> cf_flood_max_unscoped_hops config \<le> hop_count path
                   then Ok DoNotForward
                 else or_decide (DropForward ''dedup signature failed'') (dedup_signature C packet)
                   (\<lambda>signature.
                   or_decide DoNotForward (append_flood_hop packet nh)
                   (\<lambda>packet. Ok (if captured then Capture packet signature else Forward packet signature))))))"

definition prepare_direct_forward :: "crypto \<Rightarrow> packet \<Rightarrow> bytes \<Rightarrow> (unit, forward_decision) res" where
  "prepare_direct_forward C packet nh =
     (if route_type packet \<noteq> Direct \<and> route_type packet \<noteq> TransportDirect
      then Ok (DropForward ''not direct routed'')
      else case normal_path packet of
        None \<Rightarrow> Ok (DropForward ''direct packet without normal path'')
      | Some path \<Rightarrow>
          if hop_count path = 0 then Ok DoNotForward
          else or_decide (DropForward ''dedup signature failed'') (dedup_signature C packet) (\<lambda>signature.
            or_decide (DropForward ''direct path mutation failed'') (consume_direct_hop packet nh)
              (\<lambda>(consumed, packet). Ok (if consumed then Forward packet signature else DoNotForward))))"

definition prepare_trace_forward :: "crypto \<Rightarrow> packet \<Rightarrow> i16 \<Rightarrow> bytes \<Rightarrow> (unit, forward_decision) res" where
  "prepare_trace_forward C packet snr_quarters nh =
     (if route_type packet \<noteq> Direct then Ok (DropForward ''trace is not direct routed'')
      else if trace_path_opt packet = None then Ok (DropForward ''trace packet without trace path'')
      else or_decide (DropForward ''trace completion check failed'') (trace_is_complete packet) (\<lambda>complete.
        if complete then Ok DoNotForward
        else or_decide (DropForward ''trace next-hop check failed'') (trace_next_hop_matches packet nh)
          (\<lambda>matches.
          if \<not> matches then Ok DoNotForward
          else or_decide (DropForward ''dedup signature failed'') (dedup_signature C packet) (\<lambda>signature.
            or_decide DoNotForward (append_trace_snr packet (clamp_i16_i8 snr_quarters))
              (\<lambda>packet. Ok (Forward packet signature))))))"

definition unsupported_kind :: "payload_kind \<Rightarrow> bool" where
  "unsupported_kind k = (case k of KReserved _ \<Rightarrow> True | KRawCustom \<Rightarrow> True | _ \<Rightarrow> False)"

definition prepare_forward ::
  "crypto \<Rightarrow> app_config \<Rightarrow> packet \<Rightarrow> i16 \<Rightarrow> bytes \<Rightarrow> (unit, forward_decision) res"
where
  "prepare_forward C config packet snr_quarters nh =
     (if \<not> cf_repeat_enabled config then Ok DoNotForward
      else if unsupported_kind (packet_kind packet) then Ok (DropForward ''unsupported payload kind'')
      else if packet_kind packet = KTrace then prepare_trace_forward C packet snr_quarters nh
      else if is_flood (route_type packet) then prepare_flood_forward C config packet nh
      else if is_direct (route_type packet) then prepare_direct_forward C packet nh
      else Ok (DropForward ''unknown route''))"

section \<open>Delays\<close>

definition forwarding_jitter_seed :: "bytes \<Rightarrow> bytes \<Rightarrow> u32" where
  "forwarding_jitter_seed signature nh =
     foldl (\<lambda>seed byte. (seed XOR ucast byte) * 0x01000193) 0x811C9DC5 (signature @ nh)"

definition forwarding_delay_ms :: "bytes \<Rightarrow> bytes \<Rightarrow> nat" where
  "forwarding_delay_ms signature nh =
     FORWARD_DELAY_BASE_MS + unat (forwarding_jitter_seed signature nh) mod FORWARD_DELAY_JITTER_MS"

definition flood_forwarding_delay_ms :: "bytes \<Rightarrow> bytes \<Rightarrow> nat \<Rightarrow> nat \<Rightarrow> nat" where
  "flood_forwarding_delay_ms signature nh airtime_ms tier =
     (let window_ms = min (airtime_ms * (12 - min tier 10) div 4) (2 ^ 32 - 2)
      in unat (forwarding_jitter_seed signature nh) mod (window_ms + 1))"

definition queue_repeater_packet ::
  "app_context \<Rightarrow> u64 \<Rightarrow> u64 \<Rightarrow> packet \<Rightarrow> bytes \<Rightarrow> bytes \<Rightarrow> (outbound_error, app_context) res"
where
  "queue_repeater_packet ctx now_seen now_queue packet signature nh =
     (case packet_encode packet of
        Inl Panic \<Rightarrow> Panicked
      | Inl (Fail _) \<Rightarrow> Ok ctx
      | Inr encoded \<Rightarrow>
          if FORWARD_BUFFER_LEN < length encoded then Ok ctx
          else let delay_ms =
                 (if is_flood (route_type packet)
                  then flood_forwarding_delay_ms signature nh
                         (packet_airtime_ms (cf_radio (cx_config ctx)) (length encoded)) (cf_tier (cx_config ctx))
                  else forwarding_delay_ms signature nh)
            in case enqueue_forward ctx now_seen now_queue encoded (word_of_nat delay_ms) signature of
                 (Inr True, ctx) \<Rightarrow> Ok ctx
               | (Inr False, ctx) \<Rightarrow> Ok (count_duplicate (route_type packet) ctx)
               | (Inl (Fail _), ctx) \<Rightarrow> Ok ctx
               | (Inl Panic, ctx) \<Rightarrow> Panicked)"

definition apply_repeater_rules ::
  "crypto \<Rightarrow> app_context \<Rightarrow> u64 \<Rightarrow> u64 \<Rightarrow> packet \<Rightarrow> i16 \<Rightarrow> bytes \<Rightarrow> (outbound_error, app_context) res"
where
  "apply_repeater_rules C ctx now_seen now_queue packet snr_quarters nh =
     (case prepare_forward C (cx_config ctx) packet snr_quarters nh of
        Inl _ \<Rightarrow> Panicked
      | Inr (Forward packet signature) \<Rightarrow> queue_repeater_packet ctx now_seen now_queue packet signature nh
      | Inr (Capture packet signature) \<Rightarrow> queue_repeater_packet ctx now_seen now_queue packet signature nh
      | Inr (DropForward _) \<Rightarrow> Ok ctx
      | Inr DoNotForward \<Rightarrow> Ok ctx)"

section \<open>Listening before talking\<close>

definition cad_busy_backoff_ms :: "bytes \<Rightarrow> radio_config \<Rightarrow> nat \<Rightarrow> nat" where
  "cad_busy_backoff_ms payload rc attempt =
     (let airtime_ms = packet_airtime_ms rc (length payload);
          u32_max = 2 ^ 32 - 1;
          cad_time_ms = min (symbol_time_ms rc * CAD_BUSY_BACKOFF_SYMBOLS) u32_max;
          minimum_ms = max CAD_BUSY_BACKOFF_BASE_MS cad_time_ms;
          lower_ms = max minimum_ms (airtime_ms div CAD_BUSY_BACKOFF_AIRTIME_DIVISOR);
          jitter_window_ms = max (airtime_ms - lower_ms) minimum_ms;
          index = attempt mod max (length payload) 1;
          seed = (if index < length payload then unat (payload ! index) else 0)
      in min (min (lower_ms + attempt * minimum_ms) u32_max + seed mod jitter_window_ms) u32_max)"

text \<open>The radio's channel detection answers are a list, one for each attempt; it also says whether the
  transmission succeeded. The result: success, and the pauses made before it.\<close>

datatype cad_answer = CadClear | CadBusy | CadFailed

fun transmit_attempts ::
  "bytes \<Rightarrow> radio_config \<Rightarrow> (nat \<Rightarrow> cad_answer) \<Rightarrow> bool \<Rightarrow> nat \<Rightarrow> nat \<Rightarrow> bool \<times> nat list"
where
  "transmit_attempts payload rc cad sent attempt 0 = (False, [])"
| "transmit_attempts payload rc cad sent attempt (Suc left) =
     (case cad attempt of
        CadClear \<Rightarrow> (sent, [])
      | CadBusy \<Rightarrow>
          let (ok, pauses) = transmit_attempts payload rc cad sent (attempt + 1) left
          in (ok, cad_busy_backoff_ms payload rc attempt # pauses)
      | CadFailed \<Rightarrow> (False, []))"

definition transmit_when_clear :: "bytes \<Rightarrow> radio_config \<Rightarrow> (nat \<Rightarrow> cad_answer) \<Rightarrow> bool \<Rightarrow> bool \<times> nat list" where
  "transmit_when_clear payload rc cad sent = transmit_attempts payload rc cad sent 0 CAD_MAX_ATTEMPTS"

section \<open>A transmission\<close>

text \<open>\<open>transmit_eligible_outbound\<close> up to the point where it waits for the radio: either nothing is to be
  sent, or the head of the queue is in its hands.\<close>

definition config_duty_cycle :: "app_config \<Rightarrow> u8" where
  "config_duty_cycle config = word_of_nat (cf_duty_cycle_percent config)"

definition config_airtime :: "app_config \<Rightarrow> nat \<Rightarrow> u32" where
  "config_airtime config len = word_of_nat (packet_airtime_ms (cf_radio config) len)"

definition transmit_begin ::
  "app_context \<Rightarrow> airtime_budget \<Rightarrow> u64 \<Rightarrow>
   (outbound_error, queued_transmit option \<times> app_context \<times> airtime_budget) res"
where
  "transmit_begin ctx budget now_ms =
     (let config = cx_config ctx; pct = config_duty_cycle config in
      case outbound_next (cx_outbound ctx) of
        None \<Rightarrow> Ok (None, ctx, budget)
      | Some next_packet \<Rightarrow>
          if no_is_forward next_packet \<and> \<not> cf_repeat_enabled config
          then (case outbound_take_first (cx_outbound ctx) of
                  (Some queued, ch) \<Rightarrow>
                    let ctx = finish_forward (ctx\<lparr>cx_outbound := ch\<rparr>) (qt_dedup_signature queued) False now_ms
                    in and_then (outbound_complete_current (cx_outbound ctx)) (\<lambda>ch.
                         Ok (None, ctx\<lparr>cx_outbound := ch\<rparr>, budget))
                | (None, ch) \<Rightarrow> Ok (None, ctx, budget))
          else if now_ms < no_eligible_at_ms next_packet then Ok (None, ctx, budget)
          else let required_ms = (if 100 \<le> pct then 0 else config_airtime config (no_packet_len next_packet));
                   (ready_at, budget) = budget_ready_at_ms budget now_ms required_ms pct
            in if now_ms < ready_at then Ok (None, ctx, budget)
               else case outbound_take_first (cx_outbound ctx) of
                      (None, ch) \<Rightarrow> Ok (None, ctx, budget)
                    | (Some queued, ch) \<Rightarrow> Ok (Some queued, ctx\<lparr>cx_outbound := ch\<rparr>, budget))"

definition retry_delay_ms :: "u32 \<Rightarrow> nat" where
  "retry_delay_ms random =
     OUTBOUND_RETRY_DELAY_MIN_MS
     + unat random mod (OUTBOUND_RETRY_DELAY_MAX_MS - OUTBOUND_RETRY_DELAY_MIN_MS + 1)"

text \<open>What follows the radio's answer. The result says whether the platform reboots.\<close>

definition transmit_end ::
  "app_context \<Rightarrow> airtime_budget \<Rightarrow> queued_transmit \<Rightarrow> bool \<Rightarrow> u32 \<Rightarrow> u64 \<Rightarrow> u64 \<Rightarrow>
   radio_config \<Rightarrow> u8 \<Rightarrow> (outbound_error, bool \<times> app_context \<times> airtime_budget) res"
where
  "transmit_end ctx budget queued sent random now_done now_charge rc pct =
     (if \<not> sent
      then let ctx = record_packet_error ctx;
               (retried, ch) = outbound_retry_current (cx_outbound ctx) now_done queued
                                 (word_of_nat (retry_delay_ms random));
               ctx = ctx\<lparr>cx_outbound := ch\<rparr>
        in (case retried of
              Some _ \<Rightarrow> Ok (False, ctx, budget)
            | None \<Rightarrow>
                let ctx = finish_forward ctx (qt_dedup_signature queued) False now_done
                in and_then (outbound_complete_current (cx_outbound ctx)) (\<lambda>ch.
                     Ok (False, ctx\<lparr>cx_outbound := ch\<rparr>, budget)))
      else let ctx = finish_forward ctx (qt_dedup_signature queued) True now_done
        in and_then (outbound_complete_current (cx_outbound ctx)) (\<lambda>ch.
           let ctx = record_packet_sent (ctx\<lparr>cx_outbound := ch\<rparr>);
               ctx = (case res_ok (packet_decode (qt_packet queued)) of
                        Some p \<Rightarrow> count_sent (route_type p) ctx | None \<Rightarrow> ctx);
               airtime_ms = word_of_nat (packet_airtime_ms rc (length (qt_packet queued)));
               ctx = record_tx_airtime ctx airtime_ms;
               budget = budget_record_transmit budget now_charge airtime_ms pct
           in Ok (qt_reboot_after_tx queued, ctx, budget)))"

section \<open>Reception\<close>

text \<open>A packet the radio has written into the receive buffer; \<open>len\<close> is the length it reports.\<close>

definition radio_packet_received ::
  "app_context \<Rightarrow> bytes \<Rightarrow> nat \<Rightarrow> i16 \<Rightarrow> i16 \<Rightarrow> u64 \<Rightarrow> app_context"
where
  "radio_packet_received ctx buffer len rssi snr_quarters now_ms =
     (let ctx = record_packet_received ctx rssi snr_quarters in
      if length buffer < len then record_packet_error ctx
      else case enqueue_inbound ctx (take len buffer) rssi snr_quarters now_ms of
             Inr ctx \<Rightarrow> ctx
           | Inl _ \<Rightarrow> record_packet_error ctx)"

text \<open>How long the radio loop may listen: not at all, until something changes, or at most so long.\<close>

datatype radio_wait = OutboundDue | ListenUntilChanged | ListenFor nat

definition wait_for_outbound ::
  "app_context \<Rightarrow> airtime_budget \<Rightarrow> u64 \<Rightarrow> u64 \<Rightarrow> radio_wait \<times> app_context \<times> airtime_budget"
where
  "wait_for_outbound ctx budget now_ms now_timer =
     (let config = cx_config ctx; pct = config_duty_cycle config;
          (next_packet, ch) = outbound_next_after_reset (cx_outbound ctx); ctx = ctx\<lparr>cx_outbound := ch\<rparr>;
          (ready_at, budget) =
            (case next_packet of
               None \<Rightarrow> (now_ms, budget)
             | Some queued \<Rightarrow>
                 if 100 \<le> pct then (now_ms, budget)
                 else budget_ready_at_ms budget now_ms (config_airtime config (no_packet_len queued)) pct)
      in case next_packet of
           None \<Rightarrow> (ListenUntilChanged, ctx, budget)
         | Some queued \<Rightarrow>
             if no_eligible_at_ms queued \<le> now_ms \<and> ready_at \<le> now_ms then (OutboundDue, ctx, budget)
             else let eligible_at = max (no_eligible_at_ms queued) ready_at
               in (ListenFor (min (unat (sat_sub eligible_at now_timer)) (2 ^ 32 - 1)), ctx, budget))"

end
