(* ===== verification/Forward_Spec.thy ===== *)
theory Forward_Spec
  imports Forwarding Image_Config
begin

text \<open>
  What the repeater promises of the packets it passes on, stated as a relation without the code's control
  flow: \<open>forwards\<close> relates a received packet to the packet sent and the signature it is queued under. The
  forwarding decision is shown to decide exactly this relation, and its consequences for a packet that
  travels through the mesh follow by rule induction.
\<close>

section \<open>The paths of decoded packets\<close>

lemma decoded_path:
  assumes "packet_decode bs = Inr p"
  shows "(\<exists>t. packet_kind p = KTrace \<and> packet_path p = TraceRoute t \<and> trace_path_wf t)
    \<or> (\<exists>path. packet_kind p \<noteq> KTrace \<and> packet_path p = Normal path \<and> path_wf path)"
proof -
  obtain path_part where "route_path_encode (packet_kind p) (packet_path p) = Inr path_part"
    using packet_encode_decode(1) [OF assms] unfolding packet_encode_Ok_iff by blast
  then show ?thesis
    by (cases "packet_path p")
      (auto simp: route_path_encode_def path_encode_wire_def path_encoded_length_byte_def and_then_Ok_iff
        trace_path_encoded_Ok_iff split: if_splits)
qed

lemma decoded_normal_path:
  "packet_decode bs = Inr p \<Longrightarrow> packet_path p = Normal path \<Longrightarrow> path_wf path"
  by (auto dest: decoded_path)

lemma remove_first_hash_snd:
  assumes "path_wf path" and "path_hashes path = h # hs"
  shows "path_wf (snd (remove_first_hash path)) \<and> path_hashes (snd (remove_first_hash path)) = hs
    \<and> path_hash_size (snd (remove_first_hash path)) = path_hash_size path"
proof -
  have "0 < hop_count path"
    using assms(2) length_path_hashes [of path] by simp
  from remove_first_hash_Some [OF assms(1) this] assms(2) show ?thesis by auto
qed

section \<open>The specification\<close>

definition own_hops :: "bytes \<Rightarrow> path \<Rightarrow> nat" where
  "own_hops nh path = length (filter (\<lambda>h. hash_matches h nh) (path_hashes path))"

definition within :: "nat option \<Rightarrow> nat \<Rightarrow> bool" where
  "within limit n \<longleftrightarrow> (case limit of None \<Rightarrow> True | Some t \<Rightarrow> n < t)"

text \<open>A flood that starts at a neighbour and has no scope is put into the default region when the node
  captures; every other flood keeps its scope.\<close>

definition flood_scope :: "crypto \<Rightarrow> app_config \<Rightarrow> packet \<Rightarrow> packet \<Rightarrow> bool \<Rightarrow> bool" where
  "flood_scope C config p q captured \<longleftrightarrow>
     (if route_type p = Flood \<and> cf_region_capture config
          \<and> (\<exists>path. packet_path p = Normal path \<and> hop_count path = 0)
      then apply_default_scope C (cf_regions config) p = Ok (captured, q)
      else q = p \<and> \<not> captured)"

definition forwardable :: "app_config \<Rightarrow> packet \<Rightarrow> bool" where
  "forwardable config p \<longleftrightarrow>
     cf_repeat_enabled config \<and> packet_kind p \<noteq> KRawCustom \<and> (\<forall>n. packet_kind p \<noteq> KReserved n)"

inductive forwards ::
  "crypto \<Rightarrow> app_config \<Rightarrow> i16 \<Rightarrow> bytes \<Rightarrow> packet \<Rightarrow> packet \<Rightarrow> bytes \<Rightarrow> bool"
  for C config snr nh
where
  flood: "forwardable config p \<Longrightarrow> packet_kind p \<noteq> KTrace \<Longrightarrow> is_flood (route_type p) \<Longrightarrow>
    flood_scope C config p q captured \<Longrightarrow>
    match_flood_region C (cf_regions config) q = Some region \<Longrightarrow>
    packet_path q = Normal path \<Longrightarrow>
    within (loop_threshold (cf_loop_detection config) (path_hash_size path)) (own_hops nh path) \<Longrightarrow>
    (packet_kind q = KAdvert \<longrightarrow> hop_count path < cf_flood_max_advert_hops config) \<Longrightarrow>
    (region_is_wildcard region \<longrightarrow> hop_count path < cf_flood_max_unscoped_hops config) \<Longrightarrow>
    append_hash path nh = Ok path' \<Longrightarrow> dedup_signature C q = Ok signature \<Longrightarrow>
    forwards C config snr nh p (q\<lparr>packet_path := Normal path'\<rparr>) signature"
| direct: "forwardable config p \<Longrightarrow> packet_kind p \<noteq> KTrace \<Longrightarrow> is_direct (route_type p) \<Longrightarrow>
    packet_path p = Normal path \<Longrightarrow> path_hashes path = h # path_hashes path' \<Longrightarrow>
    hash_matches h nh \<Longrightarrow> path_hash_size path' = path_hash_size path \<Longrightarrow> path_wf path' \<Longrightarrow>
    dedup_signature C p = Ok signature \<Longrightarrow>
    forwards C config snr nh p (p\<lparr>packet_path := Normal path'\<rparr>) signature"
| trace: "forwardable config p \<Longrightarrow> packet_kind p = KTrace \<Longrightarrow> route_type p = Direct \<Longrightarrow>
    packet_path p = TraceRoute t \<Longrightarrow> trace_next_hop_matches p nh = Ok True \<Longrightarrow>
    append_snr t (clamp_i16_i8 snr) = Ok t' \<Longrightarrow> dedup_signature C p = Ok signature \<Longrightarrow>
    forwards C config snr nh p (p\<lparr>packet_path := TraceRoute t'\<rparr>) signature"

inductive_cases forwardsE: "forwards C config snr nh p p' signature"

definition passes_on :: "forward_decision \<Rightarrow> packet \<Rightarrow> bytes \<Rightarrow> bool" where
  "passes_on d p signature \<longleftrightarrow> d = Forward p signature \<or> d = Capture p signature"

lemma passes_on_simps [simp]:
  "passes_on (Forward p s) p' s' \<longleftrightarrow> p = p' \<and> s = s'"
  "passes_on (Capture p s) p' s' \<longleftrightarrow> p = p' \<and> s = s'"
  "\<not> passes_on DoNotForward p' s'"
  "\<not> passes_on (DropForward r) p' s'"
  by (auto simp: passes_on_def)

section \<open>The code decides the specification\<close>

text \<open>A decision that passes a packet on, followed through the code's early returns.\<close>

definition decides :: "(unit, forward_decision) res \<Rightarrow> packet \<Rightarrow> bytes \<Rightarrow> bool" where
  "decides r p s \<longleftrightarrow> (\<exists>d. r = Inr d \<and> passes_on d p s)"

lemma decides_Ok [simp]: "decides (Inr d) p s \<longleftrightarrow> passes_on d p s"
  by (simp add: decides_def)

lemma decides_if [simp]:
  "decides (if b then x else y) p s \<longleftrightarrow> (if b then decides x p s else decides y p s)"
  by simp

lemma decides_option [simp]:
  "decides (case m of None \<Rightarrow> Inr d | Some x \<Rightarrow> f x) p s
     \<longleftrightarrow> (m = None \<and> passes_on d p s) \<or> (\<exists>x. m = Some x \<and> decides (f x) p s)"
  by (cases m) auto

lemma decides_or_decide [simp]:
  "decides (or_decide d r k) p s
     \<longleftrightarrow> (\<exists>e. r = Inl (Fail e) \<and> passes_on d p s) \<or> (\<exists>x. r = Inr x \<and> decides (k x) p s)"
  by (auto simp: or_decide_def decides_def split: sum.split fault.split)

lemma starts_with_hash_matches: "starts_with nh h = hash_matches h nh"
proof (induction nh h rule: starts_with.induct)
  case (3 c s p ps)
  then show ?case by (auto simp: hash_matches_def)
qed (simp_all add: hash_matches_def)

lemma detects_loop_within:
  "detects_loop mode path nh \<longleftrightarrow>
     \<not> within (loop_threshold mode (path_hash_size path)) (own_hops nh path)"
  by (auto simp: detects_loop_def within_def own_hops_def starts_with_hash_matches not_less split: option.split)

lemma normal_path_of_Some: "normal_path_of r = Some path \<longleftrightarrow> r = Normal path"
  by (cases r) auto

lemma append_flood_hop_Normal:
  "packet_path q = Normal path \<Longrightarrow> append_flood_hop q nh = Inr q'
     \<longleftrightarrow> (\<exists>path'. append_hash path nh = Inr path' \<and> q' = q\<lparr>packet_path := Normal path'\<rparr>)"
  by (auto simp: append_flood_hop_def normal_path_def and_then_Ok_iff)

lemma capture_flood_scope:
  "capture_flood C config p = Inr (captured, q) \<longleftrightarrow> flood_scope C config p q captured"
proof (cases "route_type p = Flood \<and> cf_region_capture config")
  case True
  then show ?thesis
    by (cases "packet_path p") (auto simp: capture_flood_def flood_scope_def normal_path_def)
next
  case False
  then show ?thesis by (auto simp: capture_flood_def flood_scope_def)
qed

lemma flood_scope_kept:
  assumes "flood_scope C config p q captured"
  shows "packet_payload q = packet_payload p" and "packet_path q = packet_path p"
    and "is_flood (route_type p) \<Longrightarrow> is_flood (route_type q)"
  using assms
  by (auto simp: flood_scope_def apply_default_scope_def apply_scope_def and_then_Ok_iff
      split: if_splits option.splits)

text \<open>What is left to check for a flood in its scope, and the packet it becomes.\<close>

definition flood_passes ::
  "crypto \<Rightarrow> app_config \<Rightarrow> bytes \<Rightarrow> packet \<Rightarrow> region_entry \<Rightarrow> path \<Rightarrow> packet \<Rightarrow> bytes \<Rightarrow> bool"
where
  "flood_passes C config nh q region path p' signature \<longleftrightarrow>
     packet_path q = Normal path
     \<and> within (loop_threshold (cf_loop_detection config) (path_hash_size path)) (own_hops nh path)
     \<and> (packet_kind q = KAdvert \<longrightarrow> hop_count path < cf_flood_max_advert_hops config)
     \<and> (region_is_wildcard region \<longrightarrow> hop_count path < cf_flood_max_unscoped_hops config)
     \<and> dedup_signature C q = Inr signature
     \<and> (\<exists>path'. append_hash path nh = Inr path' \<and> p' = q\<lparr>packet_path := Normal path'\<rparr>)"

lemma flood_passes_iff:
  "flood_passes C config nh q region path p' signature \<longleftrightarrow>
     packet_path q = Normal path \<and> \<not> detects_loop (cf_loop_detection config) path nh
     \<and> \<not> (packet_kind q = KAdvert \<and> cf_flood_max_advert_hops config \<le> hop_count path)
     \<and> \<not> (region_is_wildcard region \<and> cf_flood_max_unscoped_hops config \<le> hop_count path)
     \<and> dedup_signature C q = Inr signature \<and> append_flood_hop q nh = Inr p'"
  by (cases "packet_path q = Normal path")
    (simp_all add: flood_passes_def detects_loop_within append_flood_hop_Normal not_le)

lemma prepare_flood_passes:
  assumes "is_flood (route_type p)"
  shows "decides (prepare_flood_forward C config p nh) p' signature \<longleftrightarrow>
    (\<exists>captured q region path. flood_scope C config p q captured
       \<and> match_flood_region C (cf_regions config) q = Some region
       \<and> flood_passes C config nh q region path p' signature)"
proof -
  have route: "\<not> (route_type p \<noteq> Flood \<and> route_type p \<noteq> TransportFlood)"
    using assms by (cases "route_type p") simp_all
  show ?thesis
    using route unfolding prepare_flood_forward_def flood_passes_iff
    by (auto simp: capture_flood_scope normal_path_def normal_path_of_Some)
qed

lemma prepare_direct_passes:
  assumes path: "packet_path p = Normal path" and wf: "path_wf path" and route: "is_direct (route_type p)"
  shows "decides (prepare_direct_forward C p nh) p' signature \<longleftrightarrow>
    (\<exists>h path'. path_hashes path = h # path_hashes path' \<and> hash_matches h nh
       \<and> path_hash_size path' = path_hash_size path \<and> path_wf path' \<and> dedup_signature C p = Inr signature
       \<and> p' = p\<lparr>packet_path := Normal path'\<rparr>)" (is "?l \<longleftrightarrow> ?r")
proof -
  let ?rest = "snd (remove_first_hash path)"
  have routes: "\<not> (route_type p \<noteq> Direct \<and> route_type p \<noteq> TransportDirect)"
    using route by (cases "route_type p") simp_all
  have l: "?l \<longleftrightarrow> hop_count path \<noteq> 0 \<and> first_hash_matches path nh \<and> dedup_signature C p = Inr signature
      \<and> p' = p\<lparr>packet_path := Normal ?rest\<rparr>"
    using routes by (auto simp: prepare_direct_forward_def consume_direct_hop_def normal_path_def path)
  show ?thesis
  proof
    assume ?l
    then obtain h hs where hs: "path_hashes path = h # hs" and m: "hash_matches h nh"
      by (auto simp: l first_hash_matches_iff)
    show ?r
      using \<open>?l\<close> l m hs remove_first_hash_snd [OF wf hs] by metis
  next
    assume ?r
    then obtain h path' where hs: "path_hashes path = h # path_hashes path'" and m: "hash_matches h nh"
      and size': "path_hash_size path' = path_hash_size path" and wf': "path_wf path'"
      and sig: "dedup_signature C p = Inr signature" and p': "p' = p\<lparr>packet_path := Normal path'\<rparr>"
      by blast
    have "path' = ?rest"
      using path_eq_iff [OF wf'] remove_first_hash_snd [OF wf hs] size' by simp
    moreover have "hop_count path \<noteq> 0"
      using hs length_path_hashes [of path] by simp
    moreover have "first_hash_matches path nh"
      using hs m by (simp add: first_hash_matches_iff)
    ultimately show ?l
      using l p' sig by simp
  qed
qed

lemma prepare_trace_passes:
  assumes "packet_path p = TraceRoute t" and "route_type p = Direct"
  shows "decides (prepare_trace_forward C p snr nh) p' signature \<longleftrightarrow>
    trace_next_hop_matches p nh = Inr True \<and> dedup_signature C p = Inr signature
    \<and> (\<exists>t'. append_snr t (clamp_i16_i8 snr) = Inr t' \<and> p' = p\<lparr>packet_path := TraceRoute t'\<rparr>)"
  using assms trace_match_incomplete [of p nh]
  by (auto simp: prepare_trace_forward_def trace_path_opt_def append_trace_snr_def and_then_Ok_iff)

text \<open>The forwarding decision and the specification agree on every packet the decoder accepts.\<close>

lemma prepare_forward_spec:
  assumes dec: "packet_decode bs = Inr p"
  shows "decides (prepare_forward C config p snr nh) p' signature \<longleftrightarrow> forwards C config snr nh p p' signature"
proof -
  have fw: "forwardable config p \<longleftrightarrow> cf_repeat_enabled config \<and> \<not> unsupported_kind (packet_kind p)"
    by (auto simp: forwardable_def unsupported_kind_def split: payload_kind.split)
  consider (off) "\<not> forwardable config p"
    | (trace) t where "forwardable config p" "packet_kind p = KTrace" "packet_path p = TraceRoute t"
    | (flood) path where "forwardable config p" "packet_kind p \<noteq> KTrace" "is_flood (route_type p)"
        "packet_path p = Normal path" "path_wf path"
    | (direct) path where "forwardable config p" "packet_kind p \<noteq> KTrace" "is_direct (route_type p)"
        "\<not> is_flood (route_type p)" "packet_path p = Normal path" "path_wf path"
    using decoded_path [OF dec] by (cases "route_type p") auto
  then show ?thesis
  proof cases
    case off
    then show ?thesis
      by (auto simp: prepare_forward_def fw elim: forwardsE)
  next
    case trace
    show ?thesis
    proof (cases "route_type p = Direct")
      case True
      then show ?thesis
        using trace by (auto simp: prepare_forward_def fw prepare_trace_passes elim!: forwardsE intro: forwards.trace)
    next
      case False
      then show ?thesis
        using trace by (auto simp: prepare_forward_def fw prepare_trace_forward_def elim!: forwardsE)
    qed
  next
    case flood
    have "\<not> is_direct (route_type p)" using flood(3) by (cases "route_type p") simp_all
    then have "forwards C config snr nh p p' signature \<longleftrightarrow> (\<exists>captured q region path.
        flood_scope C config p q captured \<and> match_flood_region C (cf_regions config) q = Some region
        \<and> flood_passes C config nh q region path p' signature)"
      using flood unfolding flood_passes_def by (subst forwards.simps) blast
    then show ?thesis
      using flood by (simp add: prepare_forward_def fw prepare_flood_passes)
  next
    case direct
    then have "forwards C config snr nh p p' signature \<longleftrightarrow> (\<exists>h path'. path_hashes path = h # path_hashes path'
        \<and> hash_matches h nh \<and> path_hash_size path' = path_hash_size path \<and> path_wf path'
        \<and> dedup_signature C p = Inr signature \<and> p' = p\<lparr>packet_path := Normal path'\<rparr>)"
      by (subst forwards.simps) (auto simp del: append_hashes.simps)
    then show ?thesis
      using direct by (simp add: prepare_forward_def fw prepare_direct_passes)
  qed
qed

section \<open>The decision is always made\<close>

lemma or_decide_total:
  "no_panic r \<Longrightarrow> (\<And>x. r = Inr x \<Longrightarrow> \<exists>d'. k x = Inr d') \<Longrightarrow> \<exists>d'. or_decide d r k = Inr d'"
  by (auto simp: or_decide_def no_panic_def split: sum.split fault.split)

lemma no_panic_transport_code_for [no_panic_intros]: "no_panic (transport_code_for C region p)"
  using no_panic_payload_encode [of "packet_payload p"] unfolding transport_code_for_def Let_def
  by (intro no_panic_and_then no_panic_ok_or) (auto simp: no_panic_def split: sum.splits fault.splits)

lemma no_panic_capture_flood: "no_panic (capture_flood C config p)"
  by (auto simp: capture_flood_def apply_default_scope_def apply_scope_def
      intro!: no_panic_intros split: option.split)

lemma no_panic_hops [no_panic_intros]:
  "no_panic (append_flood_hop p nh)" "no_panic (consume_direct_hop p nh)"
  "no_panic (trace_is_complete p)" "no_panic (trace_next_hop_matches p nh)" "no_panic (append_trace_snr p snr)"
  by (auto simp: append_flood_hop_def consume_direct_hop_def trace_is_complete_def trace_parts_def
      trace_next_hop_matches_def append_trace_snr_def append_snr_def Let_def
      intro!: no_panic_intros split: payload.split)

lemma prepare_forward_total:
  assumes "crypto_laws C"
  shows "\<exists>d. prepare_forward C config p snr nh = Inr d"
proof -
  note sig = no_panic_dedup_signature [OF assms]
  have "\<exists>d. prepare_flood_forward C config p nh = Inr d"
    unfolding prepare_flood_forward_def
    by (auto intro!: or_decide_total no_panic_capture_flood sig no_panic_hops split: option.split)
  moreover have "\<exists>d. prepare_direct_forward C p nh = Inr d"
    unfolding prepare_direct_forward_def
    by (auto intro!: or_decide_total sig no_panic_hops split: option.split)
  moreover have "\<exists>d. prepare_trace_forward C p snr nh = Inr d"
    unfolding prepare_trace_forward_def
    by (auto intro!: or_decide_total sig no_panic_hops)
  ultimately show ?thesis
    by (auto simp: prepare_forward_def)
qed

section \<open>What forwarding keeps\<close>

lemma forwards_kept:
  assumes "forwards C config snr nh p p' signature"
  shows "packet_payload p' = packet_payload p \<and> packet_kind p' = packet_kind p
    \<and> cf_repeat_enabled config
    \<and> (packet_kind p \<noteq> KTrace \<longrightarrow> dedup_signature C p' = Ok signature)
    \<and> is_flood (route_type p') = is_flood (route_type p)"
  using assms
proof cases
  case (flood q captured region path path')
  then show ?thesis
    using flood_scope_kept [OF flood(5)]
    by (auto simp: packet_kind_def forwardable_def dedup_signature_def dedup_input_normal_path)
next
  case (direct path h path')
  then show ?thesis
    by (auto simp: forwardable_def dedup_signature_def dedup_input_normal_path)
next
  case (trace t t')
  then show ?thesis by (simp add: forwardable_def)
qed

lemma own_hops_append:
  assumes "path_wf path" and "append_hash path nh = Inr path'"
  shows "own_hops nh path' = Suc (own_hops nh path)"
proof -
  let ?n = "hash_size_size (path_hash_size path)"
  have "?n \<le> length nh"
    using assms(2) by (auto simp: append_hash_def Let_def split: if_splits)
  then show ?thesis
    using append_hash_OkD(3) [OF assms] by (simp add: own_hops_def hash_matches_take)
qed

section \<open>A flood on its way through the mesh\<close>

text \<open>\<open>travels k p\<close>: a flood that this node has passed on \<open>k\<close> times can reach it as \<open>p\<close>. Between two
  visits other nodes add hashes to its path, and may change anything else, too.\<close>

inductive travels :: "crypto \<Rightarrow> app_config \<Rightarrow> bytes \<Rightarrow> nat \<Rightarrow> packet \<Rightarrow> bool" for C config nh
where
  start: "travels C config nh 0 p"
| here: "travels C config nh k p \<Longrightarrow> packet_decode bs = Ok p \<Longrightarrow> is_flood (route_type p) \<Longrightarrow>
    decides (prepare_forward C config p snr nh) p' signature \<Longrightarrow> travels C config nh (Suc k) p'"
| elsewhere: "travels C config nh k p \<Longrightarrow> packet_path p = Normal path \<Longrightarrow> packet_path q = Normal path' \<Longrightarrow>
    path_hash_size path' = path_hash_size path \<Longrightarrow> path_hashes path' = path_hashes path @ hs \<Longrightarrow>
    travels C config nh k q"

definition visit_limit :: "loop_detection \<Rightarrow> hash_size \<Rightarrow> nat" where
  "visit_limit mode size' = (case loop_threshold mode size' of None \<Rightarrow> 63 | Some t \<Rightarrow> t)"

lemma forwards_flood_path:
  assumes "forwards C config snr nh p p' signature" and "is_flood (route_type p)"
    and "packet_path p = Normal path" and "path_wf path"
  shows "\<exists>path'. packet_path p' = Normal path' \<and> path_wf path' \<and> path_hash_size path' = path_hash_size path
    \<and> path_hashes path' = path_hashes path @ [take (hash_size_size (path_hash_size path)) nh]
    \<and> own_hops nh path' = Suc (own_hops nh path)
    \<and> within (loop_threshold (cf_loop_detection config) (path_hash_size path)) (own_hops nh path)"
  using assms(1)
proof cases
  case (flood q captured region pth path')
  then have "pth = path" using flood_scope_kept(2) [OF flood(5)] assms(3) by simp
  then show ?thesis
    using flood append_hash_OkD [OF assms(4)] own_hops_append [OF assms(4)] by auto
next
  case (direct pth h path')
  then show ?thesis using assms(2) by (cases "route_type p") simp_all
next
  case (trace t t')
  then show ?thesis using assms(2) by simp
qed

lemma travels_own_hops:
  assumes "travels C config nh k p" and "packet_path p = Normal path"
  shows "k \<le> own_hops nh path"
  using assms
proof (induction arbitrary: path rule: travels.induct)
  case (here k p bs snr p' signature)
  then obtain pth where pth: "packet_path p = Normal pth" "path_wf pth"
    using decoded_path [OF here(2)] prepare_forward_spec [OF here(2)]
    by (auto elim!: forwardsE)
  then show ?case
    using here forwards_flood_path [OF _ here(3) pth] prepare_forward_spec [OF here(2)] by fastforce
next
  case (elsewhere k p pth q path' hs)
  then show ?case by (force simp: own_hops_def)
qed simp

lemma own_hops_le: "path_wf path \<Longrightarrow> own_hops nh path \<le> 63"
  using length_filter_le [of "\<lambda>h. hash_matches h nh" "path_hashes path"]
  by (simp add: own_hops_def path_wf_def length_path_hashes)

lemma travels_visits:
  assumes "travels C config nh k p" and "packet_path p = Normal path"
  shows "k \<le> visit_limit (cf_loop_detection config) (path_hash_size path)"
  using assms
proof (induction arbitrary: path rule: travels.induct)
  case (here k p bs snr p' signature)
  have fw: "forwards C config snr nh p p' signature"
    using here by (simp add: prepare_forward_spec)
  obtain pth where pth: "packet_path p = Normal pth" "path_wf pth"
    using fw decoded_path [OF here(2)] here(3) by (auto elim!: forwardsE)
  have "k \<le> own_hops nh pth" by (rule travels_own_hops [OF here(1) pth(1)])
  moreover have "path_wf path" "path_hash_size path = path_hash_size pth" "own_hops nh path = Suc (own_hops nh pth)"
    "within (loop_threshold (cf_loop_detection config) (path_hash_size pth)) (own_hops nh pth)"
    using forwards_flood_path [OF fw here(3) pth] here.prems by auto
  moreover have "own_hops nh path \<le> 63" by (rule own_hops_le) fact
  ultimately show ?case
    by (auto simp: visit_limit_def within_def split: option.splits)
qed auto


section \<open>An example\<close>

definition sample_flood :: packet where
  "sample_flood = \<lparr>route_type = Flood, transport_codes = None, packet_path = Normal path_empty,
     packet_payload = PAck \<lparr>ack_hash = [1, 2, 3, 4]\<rparr>\<rparr>"

definition sample_forwarded :: packet where
  "sample_forwarded = \<lparr>route_type = Flood, transport_codes = None,
     packet_path = Normal \<lparr>path_hash_size = HashOne, path_bytes = [7]\<rparr>,
     packet_payload = PAck \<lparr>ack_hash = [1, 2, 3, 4]\<rparr>\<rparr>"

lemma sample_flood_decoded: "packet_decode [0x0D, 0x00, 1, 2, 3, 4] = Ok sample_flood"
proof (rule packet_decode_encode)
  show "packet_encode sample_flood = Ok [0x0D, 0x00, 1, 2, 3, 4]"
    unfolding sample_flood_def by code_simp
  show "packet_wf sample_flood"
    by (simp add: packet_wf_def sample_flood_def packet_kind_def ack_wf_def)
qed

lemma sample_signature: "dedup_signature toy_crypto sample_flood = Ok [3, 1, 1, 2, 3, 4, 0, 0]"
proof -
  have "dedup_input sample_flood = Ok [3, 1, 1, 2, 3, 4]"
    unfolding sample_flood_def by code_simp
  moreover have "take 8 (sha256 toy_crypto [3, 1, 1, 2, 3, 4]) = [3, 1, 1, 2, 3, 4] @ replicate 2 0"
    by (simp add: toy_crypto_def)
  moreover have "length (sha256 toy_crypto [3, 1, 1, 2, 3, 4]) = 32"
    by (rule crypto_lengths(1)) (rule toy_crypto_laws)
  ultimately show ?thesis
    by (simp add: dedup_signature_def Let_def numeral_2_eq_2)
qed

lemma sample_append: "append_flood_hop sample_flood [7, 8, 9, 10] = Ok sample_forwarded"
  unfolding sample_flood_def sample_forwarded_def by code_simp

lemma sample_decision:
  "prepare_forward toy_crypto image_node sample_flood 0 [7, 8, 9, 10]
     = Ok (Forward sample_forwarded [3, 1, 1, 2, 3, 4, 0, 0])"
proof -
  have "route_type sample_flood = Flood" "packet_kind sample_flood = KAck"
    "normal_path sample_flood = Some path_empty"
    by (simp_all add: sample_flood_def packet_kind_def normal_path_def)
  moreover have "hop_count path_empty = 0" "path_hashes path_empty = []" "path_hash_size path_empty = HashOne"
    by code_simp+
  moreover have "match_flood_region toy_crypto regions_new sample_flood = Some (wildcard regions_new)"
    by (simp add: match_flood_region_def sample_flood_def wildcard_def regions_new_def allows_flood_def)
  ultimately show ?thesis
    using sample_signature sample_append
    by (simp add: prepare_forward_def prepare_flood_forward_def unsupported_kind_def capture_flood_def
        or_decide_def detects_loop_def)
qed

section \<open>Properties\<close>

text \<open>C9: For every packet the decoder accepts the repeater reaches a decision, without a panic, and it
  passes the packet on exactly when the forwarding relation holds, in the form and under the signature the
  relation states.\<close>

theorem forwarding_decides_relation:
  assumes "crypto_laws C" and "packet_decode bs = Ok p"
  shows "\<exists>d. prepare_forward C config p snr nh = Ok d
    \<and> (\<forall>p' signature. passes_on d p' signature \<longleftrightarrow> forwards C config snr nh p p' signature)"
proof -
  obtain d where "prepare_forward C config p snr nh = Ok d"
    using prepare_forward_total [OF assms(1)] by blast
  then show ?thesis
    using prepare_forward_spec [OF assms(2), of C config snr nh] by simp
qed

theorem forwarding_decides_relation_witness:
  "forwards toy_crypto image_node 0 [7, 8, 9, 10] sample_flood sample_forwarded [3, 1, 1, 2, 3, 4, 0, 0]"
  using forwarding_decides_relation [OF toy_crypto_laws sample_flood_decoded, of image_node 0 "[7, 8, 9, 10]"]
    sample_decision by force

text \<open>C39: A packet that is passed on keeps its payload, keeps its signature unless it is a trace (whose
  consumed hops are part of it), never comes from a node with repeating off, and a flood's path grows by
  exactly this node's hash while a direct packet's path loses it.\<close>

theorem forwarded_packet_changes:
  assumes "packet_decode bs = Ok p" and "prepare_forward C config p snr nh = Ok d" and "passes_on d p' signature"
  shows "cf_repeat_enabled config \<and> packet_payload p' = packet_payload p
    \<and> (packet_kind p \<noteq> KTrace \<longrightarrow> dedup_signature C p' = Ok signature
         \<and> (\<exists>path path'. packet_path p = Normal path \<and> packet_path p' = Normal path'
              \<and> path_wf path' \<and> path_hash_size path' = path_hash_size path
              \<and> (if is_flood (route_type p)
                 then path_hashes path' = path_hashes path @ [take (hash_size_size (path_hash_size path)) nh]
                 else \<exists>h. path_hashes path = h # path_hashes path' \<and> hash_matches h nh)))"
proof -
  have fw: "forwards C config snr nh p p' signature"
    using prepare_forward_spec [OF assms(1), of C config snr nh p' signature] assms(2,3) by simp
  have "\<exists>path path'. packet_path p = Normal path \<and> packet_path p' = Normal path'
      \<and> path_wf path' \<and> path_hash_size path' = path_hash_size path
      \<and> (if is_flood (route_type p)
         then path_hashes path' = path_hashes path @ [take (hash_size_size (path_hash_size path)) nh]
         else \<exists>h. path_hashes path = h # path_hashes path' \<and> hash_matches h nh)"
    if k: "packet_kind p \<noteq> KTrace"
  proof -
    obtain path where path: "packet_path p = Normal path" "path_wf path"
      using decoded_path [OF assms(1)] k by blast
    show ?thesis
      using fw forwards_flood_path [OF fw _ path] path k
      by (cases "is_flood (route_type p)") (auto elim!: forwardsE)
  qed
  then show ?thesis using forwards_kept [OF fw] by blast
qed

theorem forwarded_packet_changes_witness:
  "packet_payload sample_forwarded = packet_payload sample_flood
     \<and> dedup_signature toy_crypto sample_forwarded = Ok [3, 1, 1, 2, 3, 4, 0, 0]"
  using forwarded_packet_changes [OF sample_flood_decoded sample_decision,
      of sample_forwarded "[3, 1, 1, 2, 3, 4, 0, 0]"]
  by (simp add: sample_flood_def packet_kind_def)

text \<open>C10: However a flood travels, this node passes it on at most as often as its loop detection allows for
  the width of the path's hashes: once in strict mode and never more than four times unless detection is
  off; and even then no more than the 63 hops of a path.\<close>

theorem flood_visits_bounded:
  assumes "travels C config nh k p" and "packet_path p = Normal path"
  shows "k \<le> visit_limit (cf_loop_detection config) (path_hash_size path)"
  by (rule travels_visits [OF assms])

theorem flood_visits_bounded_witness: "1 \<le> visit_limit LoopMinimal HashOne"
proof -
  have "decides (prepare_forward toy_crypto image_node sample_flood 0 [7, 8, 9, 10]) sample_forwarded
      [3, 1, 1, 2, 3, 4, 0, 0]"
    using sample_decision by simp
  then have "travels toy_crypto image_node [7, 8, 9, 10] (Suc 0) sample_forwarded"
    using travels.here [OF travels.start sample_flood_decoded] by (simp add: sample_flood_def)
  then show ?thesis
    using flood_visits_bounded [of toy_crypto image_node "[7, 8, 9, 10]" "Suc 0" sample_forwarded
        "\<lparr>path_hash_size = HashOne, path_bytes = [7]\<rparr>"]
    by (simp add: sample_forwarded_def)
qed

end
