(* ===== verification/Radio_Loop.thy ===== *)
theory Radio_Loop
  imports Forwarding Forward_Spec
begin

text \<open>
  The tasks around the radio as one step relation: the handler accepts forwards and queues replies, the
  radio loop takes a packet from the queue, waits for the radio and finishes it, and the clock runs. The
  steps are the model's own operations; what the other tasks do to the context in between is any change
  that leaves the queue, the pending forwards and the seen cache alone.
\<close>

section \<open>Queue, pending forwards and seen cache together\<close>

text \<open>\<open>flight\<close> is the packet the radio loop holds. Every forward that is queued or in flight has its
  signature among the pending ones, once.\<close>

definition forward_inv :: "app_context \<Rightarrow> queued_transmit option \<Rightarrow> u64 \<Rightarrow> bool" where
  "forward_inv ctx flight now \<longleftrightarrow>
     outbound_inv (flight \<noteq> None) (cx_outbound ctx)
     \<and> (\<forall>q. flight = Some q \<longrightarrow> qt_attempts q < OUTBOUND_MAX_ATTEMPTS)
     \<and> mset (cx_pending_forwards ctx) = oq.signatures (cx_outbound ctx) flight
     \<and> distinct (cx_pending_forwards ctx)
     \<and> seen_inv (cx_seen_packets ctx) now"

lemma seen_inv_later: "seen_inv c t \<Longrightarrow> t \<le> t' \<Longrightarrow> seen_inv c t'"
  by (auto simp: seen_inv_def)

lemma forward_inv_later: "forward_inv ctx flight t \<Longrightarrow> t \<le> t' \<Longrightarrow> forward_inv ctx flight t'"
  by (auto simp: forward_inv_def intro: seen_inv_later)

lemma forward_inv_new: "forward_inv (context_new memory config now) None now"
  using outbound_inv_new
  by (simp add: forward_inv_def context_new_def seen_inv_new oq.signatures_def outbound_new_def)

lemma forward_inv_cong:
  "cx_outbound ctx' = cx_outbound ctx \<Longrightarrow> cx_pending_forwards ctx' = cx_pending_forwards ctx \<Longrightarrow>
   cx_seen_packets ctx' = cx_seen_packets ctx \<Longrightarrow> forward_inv ctx' flight now \<longleftrightarrow> forward_inv ctx flight now"
  by (simp add: forward_inv_def)

lemma release_pending:
  "cx_pending_forwards (release_forward ctx s b now) = remove1 s (cx_pending_forwards ctx)"
proof -
  have "remove1 s xs = (case position (\<lambda>p. p = s) xs of Some i \<Rightarrow> remove_at i xs | None \<Rightarrow> xs)" for xs :: "bytes list"
    by (induction xs) (auto split: option.split dest: position_SomeD)
  note e = this [of "cx_pending_forwards ctx"]
  show ?thesis
    unfolding e by (cases "position (\<lambda>p. p = s) (cx_pending_forwards ctx)")
      (simp_all add: release_forward_def Let_def del: position_None_iff)
qed

lemma release_fields [simp]:
  "cx_outbound (release_forward ctx s b now) = cx_outbound ctx"
  "cx_memory (release_forward ctx s b now) = cx_memory ctx"
  "cx_config (release_forward ctx s b now) = cx_config ctx"
  "cx_seen_packets (release_forward ctx s b now)
     = (if b then seen_touch (cx_seen_packets ctx) s now else cx_seen_packets ctx)"
  by (auto simp: release_forward_def Let_def split: option.split)

lemma finish_fields [simp]:
  "cx_outbound (finish_forward ctx sg b now) = cx_outbound ctx"
  "cx_memory (finish_forward ctx sg b now) = cx_memory ctx"
  "cx_config (finish_forward ctx sg b now) = cx_config ctx"
  "cx_pending_forwards (finish_forward ctx sg b now)
     = (case sg of None \<Rightarrow> cx_pending_forwards ctx | Some s \<Rightarrow> remove1 s (cx_pending_forwards ctx))"
  "cx_seen_packets (finish_forward ctx sg b now)
     = (case sg of None \<Rightarrow> cx_seen_packets ctx
        | Some s \<Rightarrow> if b then seen_touch (cx_seen_packets ctx) s now else cx_seen_packets ctx)"
  by (simp_all add: finish_forward_def release_pending split: option.split)

text \<open>A packet that leaves the radio loop's hands for good takes its signature with it.\<close>

lemma finish_inv:
  assumes inv: "forward_inv ctx (Some q) t0" and le: "t0 \<le> now"
  shows "\<exists>ch. outbound_complete_current (cx_outbound (finish_forward ctx (qt_dedup_signature q) sent now)) = Ok ch
    \<and> forward_inv ((finish_forward ctx (qt_dedup_signature q) sent now)\<lparr>cx_outbound := ch\<rparr>) None now"
proof -
  have o: "outbound_inv True (cx_outbound ctx)" using inv by (simp add: forward_inv_def)
  obtain ch where ch: "outbound_complete_current (cx_outbound ctx) = Ok ch" "outbound_inv False ch"
      "oc_queue ch = oc_queue (cx_outbound ctx)"
    using outbound_complete_inv [OF o] by blast
  have sig: "oq.signatures ch None = oq.signatures (cx_outbound ctx) None"
    by (simp add: oq.signatures_def ch(3))
  show ?thesis
    using inv le ch sig oq.finish_signatures [of "cx_outbound ctx" q] seen_touch_inv [OF _ le]
    by (auto simp: forward_inv_def intro: seen_inv_later split: option.splits)
qed

lemma known_forward:
  assumes "is_seen_or_pending ctx s now = (known, ctx')"
  shows "cx_outbound ctx' = cx_outbound ctx" and "cx_pending_forwards ctx' = cx_pending_forwards ctx"
    and "cx_memory ctx' = cx_memory ctx" and "cx_config ctx' = cx_config ctx"
    and "known \<longleftrightarrow> s \<in> set (cx_pending_forwards ctx) \<or> fst (seen_contains (cx_seen_packets ctx) s now)"
    and "cx_seen_packets ctx' = cx_seen_packets ctx \<or> cx_seen_packets ctx' = seen_prune (cx_seen_packets ctx) now"
  using assms by (auto simp: is_seen_or_pending_def seen_contains_def Let_def split: if_splits)

lemma known_inv:
  assumes "forward_inv ctx flight t0" and "t0 \<le> now" and "is_seen_or_pending ctx s now = (known, ctx')"
  shows "forward_inv ctx' flight now"
  using assms known_forward [OF assms(3)] seen_prune_inv [of "cx_seen_packets ctx" t0 now]
  by (auto simp: forward_inv_def intro: seen_inv_later)

lemma enqueue_item_None:
  "enqueue_outbound_item ctx now p d b sg = Inl e \<Longrightarrow> e = Fail OutboundQueueFull"
  by (auto simp: enqueue_outbound_item_def outbound_try_send_def and_then_Inl_iff split: if_splits)

lemma enqueue_item_Ok:
  assumes "enqueue_outbound_item ctx now p d b sg = Ok ctx'"
  shows "\<exists>ch. outbound_try_send (cx_outbound ctx) \<lparr>qt_eligible_at_ms = sat_add now (ucast d), qt_attempts = 0,
      qt_packet = p, qt_dedup_signature = sg, qt_reboot_after_tx = b\<rparr> = Ok ch \<and> ctx' = ctx\<lparr>cx_outbound := ch\<rparr>"
  using assms by (auto simp: enqueue_outbound_item_def and_then_Ok_iff)

lemma enqueue_own_inv:
  assumes inv: "forward_inv ctx flight now" and e: "enqueue_outbound_item ctx t p d b None = Ok ctx'"
  shows "forward_inv ctx' flight now"
proof -
  obtain ch where s: "outbound_try_send (cx_outbound ctx) \<lparr>qt_eligible_at_ms = sat_add t (ucast d), qt_attempts = 0,
      qt_packet = p, qt_dedup_signature = None, qt_reboot_after_tx = b\<rparr> = Ok ch" and c: "ctx' = ctx\<lparr>cx_outbound := ch\<rparr>"
    using enqueue_item_Ok [OF e] by blast
  have "outbound_inv (flight \<noteq> None) ch"
    using outbound_try_send_inv [OF _ s] inv by (simp add: forward_inv_def OUTBOUND_MAX_ATTEMPTS_def)
  then show ?thesis
    using inv oq.send_signatures [OF s, of flight] by (simp add: forward_inv_def c)
qed

lemma enqueue_forward_inv:
  assumes inv: "forward_inv ctx flight t0" and le: "t0 \<le> now"
    and e: "enqueue_forward ctx now t p d s = (r, ctx')"
  shows "forward_inv ctx' flight now \<and> r \<noteq> Panicked
    \<and> (cx_seen_packets ctx' = cx_seen_packets ctx \<or> cx_seen_packets ctx' = seen_prune (cx_seen_packets ctx) now)
    \<and> (r = Ok True \<longrightarrow> s \<notin> set (cx_pending_forwards ctx)
          \<and> \<not> fst (seen_contains (cx_seen_packets ctx) s now))"
proof -
  obtain known ctx1 where k: "is_seen_or_pending ctx s now = (known, ctx1)" by fastforce
  note K = known_forward [OF k] and I = known_inv [OF inv le k]
  show ?thesis
  proof (cases "known \<or> min (mp_outbound_queue_len (cx_memory ctx1)) OUTBOUND_QUEUE_CAPACITY
                  \<le> length (cx_pending_forwards ctx1)")
    case True
    then show ?thesis
      using e k K I by (auto simp: enqueue_forward_def reserve_forward_def split: if_splits)
  next
    case False
    let ?ctx2 = "ctx1\<lparr>cx_pending_forwards := cx_pending_forwards ctx1 @ [s]\<rparr>"
    have res: "reserve_forward ctx s now = (Ok True, ?ctx2)"
      using False k by (simp add: reserve_forward_def)
    have new: "s \<notin> set (cx_pending_forwards ctx1)" using False K by auto
    show ?thesis
    proof (cases "enqueue_outbound_item ?ctx2 t p d False (Some s)")
      case (Inl err)
      have "remove1 s (cx_pending_forwards ctx1 @ [s]) = cx_pending_forwards ctx1"
        using new by (simp add: remove1_append)
      then have "forward_inv ctx' flight now"
        using e res Inl I by (auto simp: enqueue_forward_def forward_inv_def release_pending)
      then show ?thesis
        using e res Inl K enqueue_item_None [OF Inl] by (auto simp: enqueue_forward_def)
    next
      case (Inr ctx3)
      then obtain ch where s: "outbound_try_send (cx_outbound ctx1) \<lparr>qt_eligible_at_ms = sat_add t (ucast d),
          qt_attempts = 0, qt_packet = p, qt_dedup_signature = Some s, qt_reboot_after_tx = False\<rparr> = Ok ch"
        and c: "ctx3 = ?ctx2\<lparr>cx_outbound := ch\<rparr>"
        using enqueue_item_Ok [OF Inr] by auto
      have "outbound_inv (flight \<noteq> None) ch"
        using outbound_try_send_inv [OF _ s] I by (simp add: forward_inv_def OUTBOUND_MAX_ATTEMPTS_def)
      then have "forward_inv ctx3 flight now"
        using I new oq.send_signatures [OF s, of flight] by (simp add: forward_inv_def c)
      then show ?thesis
        using e res Inr K False by (auto simp: enqueue_forward_def c)
    qed
  qed
qed


section \<open>The two halves of a transmission\<close>

lemma take_inv:
  assumes inv: "forward_inv ctx None now" and t: "outbound_take_first (cx_outbound ctx) = (Some q, ch)"
  shows "forward_inv (ctx\<lparr>cx_outbound := ch\<rparr>) (Some q) now"
  using inv outbound_take_first_inv [OF _ t] oq.take_signatures [OF t]
  by (auto simp: forward_inv_def)

lemma take_None: "outbound_take_first ch = (None, ch') \<Longrightarrow> ch' = ch"
  by (auto simp: outbound_take_first_def split: list.splits)

lemma transmit_begin_inv:
  assumes inv: "forward_inv ctx None t0" and le: "t0 \<le> now"
  shows "\<exists>flight ctx' budget'. transmit_begin ctx budget now = Ok (flight, ctx', budget')
    \<and> forward_inv ctx' flight now \<and> cx_seen_packets ctx' = cx_seen_packets ctx"
proof -
  let ?next = "outbound_next (cx_outbound ctx)"
  obtain queued ch where t: "outbound_take_first (cx_outbound ctx) = (queued, ch)" by fastforce
  have now: "forward_inv ctx None now" by (rule forward_inv_later [OF inv le])
  show ?thesis
  proof (cases queued)
    case None
    then show ?thesis
      using t now
      by (auto simp: transmit_begin_def Let_def split: option.split prod.split)
  next
    case (Some q)
    note t = t [unfolded Some]
    note taken = take_inv [OF now t]
    obtain ch' where done': "outbound_complete_current ch = Ok ch'"
      "forward_inv ((finish_forward (ctx\<lparr>cx_outbound := ch\<rparr>) (qt_dedup_signature q) False now)\<lparr>cx_outbound := ch'\<rparr>) None now"
      using finish_inv [OF taken order_refl, of False] by auto
    show ?thesis
      using t now taken done'
      by (auto simp: transmit_begin_def Let_def split: option.split prod.split)
  qed
qed

lemma record_fields [simp]:
  "forward_inv (record_packet_error ctx) flight now = forward_inv ctx flight now"
  "forward_inv (record_packet_sent ctx) flight now = forward_inv ctx flight now"
  "forward_inv (record_tx_airtime ctx a) flight now = forward_inv ctx flight now"
  "forward_inv (count_sent r ctx) flight now = forward_inv ctx flight now"
  "forward_inv (count_received r ctx) flight now = forward_inv ctx flight now"
  "forward_inv (count_duplicate r ctx) flight now = forward_inv ctx flight now"
  "cx_seen_packets (record_packet_error ctx) = cx_seen_packets ctx"
  "cx_seen_packets (record_packet_sent ctx) = cx_seen_packets ctx"
  "cx_seen_packets (record_tx_airtime ctx a) = cx_seen_packets ctx"
  "cx_seen_packets (count_sent r ctx) = cx_seen_packets ctx"
  "cx_seen_packets (count_duplicate r ctx) = cx_seen_packets ctx"
  "cx_outbound (record_packet_error ctx) = cx_outbound ctx"
  by (simp_all add: record_packet_error_def record_packet_sent_def record_tx_airtime_def count_sent_def
      count_received_def count_duplicate_def cong: forward_inv_cong)

text \<open>Whatever the radio answers, the packet is finished or back in the queue, and the seen cache learns
  the signature of a forward that was sent, and nothing else.\<close>

lemma transmit_end_inv:
  assumes inv: "forward_inv ctx (Some q) t0" and le: "t0 \<le> now"
  shows "\<exists>reboot ctx' budget'. transmit_end ctx budget q sent random now charge rc pct = Ok (reboot, ctx', budget')
    \<and> forward_inv ctx' None now
    \<and> cx_seen_packets ctx' = (case qt_dedup_signature q of None \<Rightarrow> cx_seen_packets ctx
        | Some s \<Rightarrow> if sent then seen_touch (cx_seen_packets ctx) s now else cx_seen_packets ctx)
    \<and> (reboot \<longrightarrow> sent \<and> qt_reboot_after_tx q)"
proof (cases sent)
  case True
  obtain ch where "outbound_complete_current (cx_outbound ctx) = Ok ch"
    "forward_inv ((finish_forward ctx (qt_dedup_signature q) True now)\<lparr>cx_outbound := ch\<rparr>) None now"
    using finish_inv [OF inv le, of True] by auto
  then show ?thesis
    using True by (auto simp: transmit_end_def Let_def split: option.split)
next
  case False
  let ?ctx = "record_packet_error ctx"
  obtain r ch where r: "outbound_retry_current (cx_outbound ctx) now q (word_of_nat (retry_delay_ms random)) = (r, ch)"
    by fastforce
  have o: "outbound_inv True (cx_outbound ctx)" "qt_attempts q < OUTBOUND_MAX_ATTEMPTS"
    using inv by (simp_all add: forward_inv_def)
  show ?thesis
  proof (cases r)
    case None
    then have ch: "ch = cx_outbound ctx" using r oq.requeue_refused by blast
    have "forward_inv ?ctx (Some q) t0" using inv by simp
    from finish_inv [OF this le, of False] obtain ch' where
      "outbound_complete_current (cx_outbound ctx) = Ok ch'"
      "forward_inv ((finish_forward ?ctx (qt_dedup_signature q) False now)\<lparr>cx_outbound := ch'\<rparr>) None now"
      by auto
    moreover have "forward_inv ((finish_forward (?ctx\<lparr>cx_outbound := cx_outbound ctx\<rparr>) (qt_dedup_signature q) False now)
        \<lparr>cx_outbound := ch'\<rparr>) None now
      = forward_inv ((finish_forward ?ctx (qt_dedup_signature q) False now)\<lparr>cx_outbound := ch'\<rparr>) None now"
      by (rule forward_inv_cong) (simp_all split: option.split)
    ultimately show ?thesis
      using False r None ch by (auto simp: transmit_end_def Let_def split: option.split)
  next
    case (Some d)
    have "outbound_inv False ch"
      using outbound_retry_inv(1) [OF o r] Some by simp
    moreover have "oq.signatures ch None = oq.signatures (cx_outbound ctx) (Some q)"
      using oq.requeue_signatures r Some by blast
    ultimately have "forward_inv (?ctx\<lparr>cx_outbound := ch\<rparr>) None now"
      using forward_inv_later [OF inv le] by (simp add: forward_inv_def record_packet_error_def)
    then show ?thesis
      using False r Some by (auto simp: transmit_end_def Let_def split: option.split)
  qed
qed


section \<open>The steps\<close>

text \<open>The radio loop keeps the modulation and duty cycle it read when it began a transmission. The log
  is not part of the program: it records the forwards sent and when, the latest last.\<close>

record loop_state =
  ls_ctx :: app_context
  ls_budget :: airtime_budget
  ls_flight :: "(queued_transmit \<times> radio_config \<times> u8) option"
  ls_now :: u64
  ls_log :: "(bytes \<times> u64) list"

definition ls_queued :: "loop_state \<Rightarrow> queued_transmit option" where
  "ls_queued s = map_option fst (ls_flight s)"

definition sent_entry :: "queued_transmit \<Rightarrow> bool \<Rightarrow> u64 \<Rightarrow> (bytes \<times> u64) list" where
  "sent_entry q sent now =
     (case qt_dedup_signature q of Some sg \<Rightarrow> if sent then [(sg, now)] else [] | None \<Rightarrow> [])"

inductive loop_step :: "crypto \<Rightarrow> loop_state \<Rightarrow> loop_state \<Rightarrow> bool" for C where
  tick: "ls_now s \<le> t \<Longrightarrow> loop_step C s (s\<lparr>ls_now := t\<rparr>)"
| handle: "ls_now s \<le> now_seen \<Longrightarrow> now_seen \<le> now_queue \<Longrightarrow>
    apply_repeater_rules C (ls_ctx s) now_seen now_queue p snr nh = Ok ctx' \<Longrightarrow>
    loop_step C s (s\<lparr>ls_ctx := ctx', ls_now := now_queue\<rparr>)"
| reply: "ls_now s \<le> now \<Longrightarrow> enqueue_outbound_item (ls_ctx s) now bs delay reboot None = Ok ctx' \<Longrightarrow>
    loop_step C s (s\<lparr>ls_ctx := ctx', ls_now := now\<rparr>)"
| begin_transmit: "ls_flight s = None \<Longrightarrow> ls_now s \<le> now \<Longrightarrow>
    transmit_begin (ls_ctx s) (ls_budget s) now = Ok (taken, ctx', budget') \<Longrightarrow>
    flight' = map_option (\<lambda>q. (q, cf_radio (cx_config (ls_ctx s)), config_duty_cycle (cx_config (ls_ctx s)))) taken \<Longrightarrow>
    loop_step C s (s\<lparr>ls_ctx := ctx', ls_budget := budget', ls_flight := flight', ls_now := now\<rparr>)"
| end_transmit: "ls_flight s = Some (q, rc, pct) \<Longrightarrow> ls_now s \<le> now \<Longrightarrow> now \<le> charge \<Longrightarrow>
    transmit_end (ls_ctx s) (ls_budget s) q sent random now charge rc pct = Ok (reboot, ctx', budget') \<Longrightarrow>
    loop_step C s (s\<lparr>ls_ctx := ctx', ls_budget := budget', ls_flight := None, ls_now := charge,
                     ls_log := ls_log s @ sent_entry q sent now\<rparr>)"
| wait: "ls_flight s = None \<Longrightarrow> ls_now s \<le> now \<Longrightarrow>
    wait_for_outbound (ls_ctx s) (ls_budget s) now timer = (w, ctx', budget') \<Longrightarrow>
    loop_step C s (s\<lparr>ls_ctx := ctx', ls_budget := budget', ls_now := now\<rparr>)"
| other: "cx_outbound ctx' = cx_outbound (ls_ctx s) \<Longrightarrow>
    cx_pending_forwards ctx' = cx_pending_forwards (ls_ctx s) \<Longrightarrow>
    cx_seen_packets ctx' = cx_seen_packets (ls_ctx s) \<Longrightarrow>
    loop_step C s (s\<lparr>ls_ctx := ctx'\<rparr>)"

inductive_cases loop_stepE: "loop_step C s s'"

definition loop_start :: "memory_profile \<Rightarrow> app_config \<Rightarrow> airtime_budget \<Rightarrow> u64 \<Rightarrow> loop_state" where
  "loop_start memory config budget now =
     \<lparr>ls_ctx = context_new memory config now, ls_budget = budget, ls_flight = None, ls_now = now, ls_log = []\<rparr>"

inductive loop_reach :: "crypto \<Rightarrow> loop_state \<Rightarrow> loop_state \<Rightarrow> bool" for C where
  init: "loop_reach C s s"
| step: "loop_reach C s s' \<Longrightarrow> loop_step C s' s'' \<Longrightarrow> loop_reach C s s''"

section \<open>What the handler does\<close>

text \<open>A handled packet ends in at most one attempt to queue a forward; the rest are counters.\<close>

definition repeater_delay_ms :: "app_context \<Rightarrow> packet \<Rightarrow> bytes \<Rightarrow> nat \<Rightarrow> bytes \<Rightarrow> nat" where
  "repeater_delay_ms ctx p sg len nh =
     (if is_flood (route_type p)
      then flood_forwarding_delay_ms sg nh (packet_airtime_ms (cf_radio (cx_config ctx)) len) (cf_tier (cx_config ctx))
      else forwarding_delay_ms sg nh)"

lemma queue_rules_cases:
  assumes "queue_repeater_packet ctx now_seen now_queue p sg nh = Ok ctx'"
  shows "ctx' = ctx \<or> (\<exists>bs r ctx1. packet_encode p = Ok bs
      \<and> enqueue_forward ctx now_seen now_queue bs (word_of_nat (repeater_delay_ms ctx p sg (length bs) nh)) sg = (r, ctx1)
      \<and> (ctx' = ctx1 \<or> ctx' = count_duplicate (route_type p) ctx1))"
proof (cases "packet_encode p")
  case (Inr bs)
  obtain r ctx1 where e: "enqueue_forward ctx now_seen now_queue bs
      (word_of_nat (repeater_delay_ms ctx p sg (length bs) nh)) sg = (r, ctx1)" by fastforce
  show ?thesis
    using assms Inr e
    by (cases r) (auto simp: queue_repeater_packet_def Let_def repeater_delay_ms_def
        split: fault.splits if_splits bool.splits)
qed (use assms in \<open>auto simp: queue_repeater_packet_def split: fault.splits\<close>)

lemma apply_rules_cases:
  assumes "apply_repeater_rules C ctx now_seen now_queue p snr nh = Ok ctx'"
  shows "ctx' = ctx \<or> (\<exists>bs delay sg r ctx1. enqueue_forward ctx now_seen now_queue bs delay sg = (r, ctx1)
      \<and> (ctx' = ctx1 \<or> (\<exists>route. ctx' = count_duplicate route ctx1)))"
proof -
  have q: ?thesis if "queue_repeater_packet ctx now_seen now_queue p' sg nh = Ok ctx'" for p' sg
    using queue_rules_cases [OF that] by blast
  show ?thesis
  proof (cases "prepare_forward C (cx_config ctx) p snr nh")
    case (Inl e)
    with assms show ?thesis by (simp add: apply_repeater_rules_def)
  next
    case (Inr d)
    with assms show ?thesis by (cases d) (simp_all add: apply_repeater_rules_def q)
  qed
qed

lemma apply_rules_inv:
  assumes inv: "forward_inv ctx flight t0" and le: "t0 \<le> now_seen" "now_seen \<le> now_queue"
    and a: "apply_repeater_rules C ctx now_seen now_queue p snr nh = Ok ctx'"
  shows "forward_inv ctx' flight now_queue
    \<and> (cx_seen_packets ctx' = cx_seen_packets ctx \<or> cx_seen_packets ctx' = seen_prune (cx_seen_packets ctx) now_seen)"
  using apply_rules_cases [OF a]
proof
  assume "ctx' = ctx"
  then show ?thesis using forward_inv_later [OF inv] le by (auto intro: order_trans)
next
  assume "\<exists>bs delay sg r ctx1. enqueue_forward ctx now_seen now_queue bs delay sg = (r, ctx1)
      \<and> (ctx' = ctx1 \<or> (\<exists>route. ctx' = count_duplicate route ctx1))"
  then obtain bs delay sg r ctx1 where e: "enqueue_forward ctx now_seen now_queue bs delay sg = (r, ctx1)"
    and c: "ctx' = ctx1 \<or> (\<exists>route. ctx' = count_duplicate route ctx1)" by blast
  show ?thesis
    using c enqueue_forward_inv [OF inv le(1) e] forward_inv_later [OF _ le(2)] by auto
qed

lemma queue_rules_total:
  assumes "forward_inv ctx flight t0" and "t0 \<le> t"
  shows "\<exists>ctx'. queue_repeater_packet ctx t t' p sg nh = Ok ctx'"
proof (cases "packet_encode p")
  case (Inl e)
  then show ?thesis
    using no_panic_packet_encode [of p] by (cases e) (auto simp: queue_repeater_packet_def no_panic_def)
next
  case (Inr bs)
  obtain r ctx1 where e: "enqueue_forward ctx t t' bs (word_of_nat (repeater_delay_ms ctx p sg (length bs) nh)) sg = (r, ctx1)"
    by fastforce
  have "r \<noteq> Panicked" using enqueue_forward_inv [OF assms e] by blast
  then show ?thesis
    using Inr e by (cases r) (auto simp: queue_repeater_packet_def Let_def repeater_delay_ms_def
        split: fault.split bool.split)
qed

lemma wait_inv:
  assumes "forward_inv ctx None t0" and "t0 \<le> now" and "wait_for_outbound ctx budget now timer = (w, ctx', budget')"
  shows "forward_inv ctx' None now \<and> cx_seen_packets ctx' = cx_seen_packets ctx"
proof -
  have "ctx' = ctx\<lparr>cx_outbound := (cx_outbound ctx)\<lparr>oc_changed := False\<rparr>\<rparr>"
    using assms(3) by (auto simp: wait_for_outbound_def outbound_next_after_reset_def Let_def
        split: option.splits prod.splits if_splits)
  then show ?thesis
    using forward_inv_later [OF assms(1,2)]
    by (simp add: forward_inv_def outbound_inv_def outbound_len_def oq.signatures_def)
qed


section \<open>Invariant of the loop\<close>

text \<open>Besides the forwarding invariant: the log is in order of time, and the seen cache still holds every
  logged signature that is young enough and followed by few enough others.\<close>

definition remembers :: "seen_cache \<Rightarrow> u64 \<Rightarrow> (bytes \<times> u64) list \<Rightarrow> bool" where
  "remembers c now lg \<longleftrightarrow>
     (\<forall>l1 s t l2. lg = l1 @ (s, t) # l2 \<longrightarrow> s \<notin> fst ` set l2 \<longrightarrow> length l2 < sc_max_entries c \<longrightarrow>
        sat_sub now t \<le> sc_ttl_ticks c \<longrightarrow> (s, t) \<in> set (sc_entries c) \<and> entries_after s (sc_entries c) \<le> length l2)"

definition loop_inv :: "nat \<Rightarrow> loop_state \<Rightarrow> bool" where
  "loop_inv n s \<longleftrightarrow> forward_inv (ls_ctx s) (ls_queued s) (ls_now s)
     \<and> sorted (map snd (ls_log s)) \<and> (\<forall>(sg, t) \<in> set (ls_log s). t \<le> ls_now s)
     \<and> remembers (cx_seen_packets (ls_ctx s)) (ls_now s) (ls_log s)
     \<and> sc_ttl_ticks (cx_seen_packets (ls_ctx s)) = SEEN_PACKET_TTL_MS
     \<and> sc_max_entries (cx_seen_packets (ls_ctx s)) = n"

lemma remembersD:
  "remembers c now (l1 @ (s, t) # l2) \<Longrightarrow> s \<notin> fst ` set l2 \<Longrightarrow> length l2 < sc_max_entries c \<Longrightarrow>
   sat_sub now t \<le> sc_ttl_ticks c \<Longrightarrow> (s, t) \<in> set (sc_entries c) \<and> entries_after s (sc_entries c) \<le> length l2"
  unfolding remembers_def by blast

lemma remembersD_later:
  "remembers c t0 (l1 @ (s, t) # l2) \<Longrightarrow> t0 \<le> now \<Longrightarrow> s \<notin> fst ` set l2 \<Longrightarrow> length l2 < sc_max_entries c \<Longrightarrow>
   sat_sub now t \<le> sc_ttl_ticks c \<Longrightarrow> (s, t) \<in> set (sc_entries c) \<and> entries_after s (sc_entries c) \<le> length l2"
  by (rule remembersD [of c t0 l1]) (auto intro: order_trans [OF sat_sub_mono])

lemma remembers_later: "remembers c t lg \<Longrightarrow> t \<le> t' \<Longrightarrow> remembers c t' lg"
  unfolding remembers_def [of c t'] using remembersD_later by blast

lemma remembers_prune:
  assumes r: "remembers c t0 lg" and inv: "seen_inv c t0" and le: "t0 \<le> now"
  shows "remembers (seen_prune c now) now lg"
  unfolding remembers_def
proof (intro allI impI)
  fix l1 s t l2
  assume a: "lg = l1 @ (s, t) # l2" "s \<notin> fst ` set l2" "length l2 < sc_max_entries (seen_prune c now)"
    "sat_sub now t \<le> sc_ttl_ticks (seen_prune c now)"
  then have "sat_sub now t \<le> sc_ttl_ticks c" "length l2 < sc_max_entries c" by simp_all
  then have "(s, t) \<in> set (sc_entries c) \<and> entries_after s (sc_entries c) \<le> length l2"
    using remembersD_later [OF r [unfolded a(1)] le a(2)] by blast
  then show "(s, t) \<in> set (sc_entries (seen_prune c now)) \<and> entries_after s (sc_entries (seen_prune c now)) \<le> length l2"
    using seen_prune_keeps [OF inv le] \<open>sat_sub now t \<le> sc_ttl_ticks c\<close> order_trans by blast
qed

lemma remembers_touch:
  assumes r: "remembers c t0 lg" and inv: "seen_inv c t0" and le: "t0 \<le> now"
  shows "remembers (seen_touch c s' now) now (lg @ [(s', now)])"
  unfolding remembers_def
proof (intro allI impI)
  fix l1 s t l2
  assume a: "lg @ [(s', now)] = l1 @ (s, t) # l2" "s \<notin> fst ` set l2" "length l2 < sc_max_entries (seen_touch c s' now)"
    "sat_sub now t \<le> sc_ttl_ticks (seen_touch c s' now)"
  show "(s, t) \<in> set (sc_entries (seen_touch c s' now)) \<and> entries_after s (sc_entries (seen_touch c s' now)) \<le> length l2"
  proof (cases l2 rule: rev_cases)
    case Nil
    then have "s = s'" "t = now" using a(1) by auto
    moreover have "0 < sc_max_entries c" using a(3) Nil by simp
    ultimately show ?thesis using entries_after_touch [OF inv, of s' now] by simp
  next
    case (snoc l2' x)
    then have x: "x = (s', now)" and lg: "lg = l1 @ (s, t) # l2'" using a(1) by auto
    then have neq: "s' \<noteq> s" and notin: "s \<notin> fst ` set l2'" using a(2) snoc by auto
    have m: "(s, t) \<in> set (sc_entries c)" "entries_after s (sc_entries c) \<le> length l2'"
      using remembersD_later [OF r [unfolded lg] le notin] a(3,4) snoc by simp_all
    have "Suc (entries_after s (sc_entries c)) < sc_max_entries c" using m(2) a(3) snoc by simp
    then show ?thesis using seen_touch_keeps [OF inv m(1) neq, of now] m(2) snoc by simp
  qed
qed

lemma loop_start_inv: "loop_inv (mp_seen_packet_cache_len memory) (loop_start memory config budget now)"
  using forward_inv_new
  by (simp add: loop_inv_def loop_start_def ls_queued_def remembers_def context_new_def seen_new_with_capacity_def)


lemma log_snoc_inv:
  "sorted (map snd lg) \<Longrightarrow> \<forall>(sg, t) \<in> set lg. t \<le> (t0 :: u64) \<Longrightarrow> t0 \<le> now \<Longrightarrow>
     sorted (map snd (lg @ [(s, now)]))"
  by (auto simp: sorted_append intro: order_trans)

text \<open>A step that neither logs nor touches the seen cache, save that it may prune it.\<close>

lemma loop_inv_quiet:
  assumes inv: "loop_inv n s" and le: "ls_now s \<le> now" and later: "now \<le> now'"
    and fw: "forward_inv ctx' (map_option fst flight') now'"
    and seen: "cx_seen_packets ctx' = cx_seen_packets (ls_ctx s)
      \<or> cx_seen_packets ctx' = seen_prune (cx_seen_packets (ls_ctx s)) now"
  shows "loop_inv n (s\<lparr>ls_ctx := ctx', ls_budget := budget', ls_flight := flight', ls_now := now'\<rparr>)"
proof -
  let ?c = "cx_seen_packets (ls_ctx s)"
  have r: "remembers ?c (ls_now s) (ls_log s)" and si: "seen_inv ?c (ls_now s)"
    using inv by (simp_all add: loop_inv_def forward_inv_def)
  have "remembers (cx_seen_packets ctx') now' (ls_log s)"
    using seen remembers_later [OF r order_trans [OF le later]]
      remembers_later [OF remembers_prune [OF r si le] later] by auto
  moreover have "sc_ttl_ticks (cx_seen_packets ctx') = SEEN_PACKET_TTL_MS" "sc_max_entries (cx_seen_packets ctx') = n"
    using seen inv by (auto simp: loop_inv_def)
  ultimately show ?thesis
    using inv fw order_trans [OF le later] by (auto simp: loop_inv_def ls_queued_def intro: order_trans)
qed

lemma loop_step_inv:
  assumes inv: "loop_inv n s" and st: "loop_step C s s'"
  shows "loop_inv n s'"
proof -
  have fw: "forward_inv (ls_ctx s) (map_option fst (ls_flight s)) (ls_now s)"
    using inv by (simp add: loop_inv_def ls_queued_def)
  note quiet = loop_inv_quiet [OF inv]
  show ?thesis
    using st
  proof cases
    case (tick t)
    then show ?thesis
      using quiet [of t t "ls_ctx s" "ls_flight s" "ls_budget s"] forward_inv_later [OF fw] by simp
  next
    case (handle now_seen now_queue p snr nh ctx')
    then show ?thesis
      using quiet [of now_seen now_queue ctx' "ls_flight s" "ls_budget s"] apply_rules_inv [OF fw handle(2-4)] by simp
  next
    case (reply now bs delay reboot ctx')
    have "cx_seen_packets ctx' = cx_seen_packets (ls_ctx s)"
      using enqueue_item_Ok [OF reply(3)] by auto
    then show ?thesis
      using reply quiet [of now now ctx' "ls_flight s" "ls_budget s"]
        enqueue_own_inv [OF forward_inv_later [OF fw reply(2)] reply(3)] by simp
  next
    case (begin_transmit now taken ctx' budget' flight')
    then obtain fl ctx1 b1 where "transmit_begin (ls_ctx s) (ls_budget s) now = Ok (fl, ctx1, b1)"
      "forward_inv ctx1 fl now" "cx_seen_packets ctx1 = cx_seen_packets (ls_ctx s)"
      using transmit_begin_inv [of "ls_ctx s" "ls_now s" now "ls_budget s"] fw by auto
    then show ?thesis
      using begin_transmit quiet [of now now ctx' flight' budget'] by (simp add: option.map_comp comp_def option.map_ident)
  next
    case (end_transmit q rc pct now charge sent random reboot ctx' budget')
    have fq: "forward_inv (ls_ctx s) (Some q) (ls_now s)" using fw end_transmit(2) by simp
    let ?c = "cx_seen_packets (ls_ctx s)"
    have E: "forward_inv ctx' None now" and c': "cx_seen_packets ctx' = (case qt_dedup_signature q of None \<Rightarrow> ?c
        | Some s \<Rightarrow> if sent then seen_touch ?c s now else ?c)"
      using transmit_end_inv [OF fq end_transmit(3), of "ls_budget s" sent random charge rc pct] end_transmit(5) by auto
    have le: "ls_now s \<le> charge" using end_transmit by (auto intro: order_trans)
    show ?thesis
    proof (cases "sent_entry q sent now")
      case Nil
      then have "cx_seen_packets ctx' = ?c" using c' by (auto simp: sent_entry_def split: option.splits if_splits)
      then show ?thesis
        using end_transmit Nil quiet [OF le order_refl, of ctx' None budget'] forward_inv_later [OF E end_transmit(4)]
        by (simp add: Nil)
    next
      case (Cons x xs)
      then obtain sg where sg: "qt_dedup_signature q = Some sg" "sent" and e: "sent_entry q sent now = [(sg, now)]"
        by (auto simp: sent_entry_def split: option.splits if_splits)
      have c'': "cx_seen_packets ctx' = seen_touch ?c sg now" using c' sg by simp
      have r: "remembers ?c (ls_now s) (ls_log s)" and si: "seen_inv ?c (ls_now s)"
        using inv by (simp_all add: loop_inv_def forward_inv_def)
      have "remembers (seen_touch ?c sg now) charge (ls_log s @ [(sg, now)])"
        by (rule remembers_later [OF remembers_touch [OF r si end_transmit(3)] end_transmit(4)])
      moreover have "sorted (map snd (ls_log s @ [(sg, now)]))"
        using inv end_transmit(3) by (intro log_snoc_inv) (auto simp: loop_inv_def)
      ultimately show ?thesis
        using inv end_transmit(1,3,4) e c'' le forward_inv_later [OF E end_transmit(4)]
        by (auto simp: loop_inv_def ls_queued_def intro: order_trans)
    qed
  next
    case (wait now timer w ctx' budget')
    have W: "forward_inv ctx' None now \<and> cx_seen_packets ctx' = cx_seen_packets (ls_ctx s)"
      by (rule wait_inv [OF _ wait(3,4)]) (use fw wait(2) in simp)
    have "s' = s\<lparr>ls_ctx := ctx', ls_budget := budget', ls_flight := ls_flight s, ls_now := now\<rparr>"
      using wait(1) by simp
    then show ?thesis
      using quiet [of now now ctx' "ls_flight s" budget'] W wait(2,3) by (simp only: option.map) simp
  next
    case (other ctx')
    then show ?thesis
      using quiet [of "ls_now s" "ls_now s" ctx' "ls_flight s" "ls_budget s"] fw
      by (simp add: forward_inv_cong [of ctx' "ls_ctx s"])
  qed
qed

lemma loop_reach_inv: "loop_reach C s s' \<Longrightarrow> loop_inv n s \<Longrightarrow> loop_inv n s'"
  by (induction rule: loop_reach.induct) (auto intro: loop_step_inv)


lemma loop_reachable_inv:
  "loop_reach C (loop_start memory config budget now) s \<Longrightarrow> loop_inv (mp_seen_packet_cache_len memory) s"
  by (rule loop_reach_inv) (auto intro: loop_start_inv)

text \<open>The last occurrence of a signature in the log is the one the cache is asked about.\<close>

lemma last_entry:
  assumes "lg = l1 @ (s, t) # l2"
  shows "\<exists>l1' t' l2'. lg = l1' @ (s, t') # l2' \<and> s \<notin> fst ` set l2' \<and> length l2' \<le> length l2
    \<and> (t' = t \<or> (s, t') \<in> set l2)"
proof (cases "s \<in> fst ` set l2")
  case True
  then obtain l t' l' where l2: "l2 = l @ (s, t') # l'" "s \<notin> fst ` set l'"
    using split_list_last_prop [of l2 "\<lambda>e. fst e = s"] by force
  then have "lg = (l1 @ (s, t) # l) @ (s, t') # l'" using assms by simp
  then show ?thesis
    using l2 by (intro exI [of _ "l1 @ (s, t) # l"] exI [of _ t'] exI [of _ l']) simp
next
  case False
  then show ?thesis using assms by blast
qed

lemma recent_is_known:
  assumes inv: "loop_inv n s" and lg: "ls_log s = l1 @ (sg, t) # l2" and few: "length l2 < n"
    and le: "ls_now s \<le> now" and young: "sat_sub now t \<le> SEEN_PACKET_TTL_MS"
  shows "fst (seen_contains (cx_seen_packets (ls_ctx s)) sg now)"
proof -
  let ?c = "cx_seen_packets (ls_ctx s)"
  obtain l1' t' l2' where L: "ls_log s = l1' @ (sg, t') # l2'" "sg \<notin> fst ` set l2'" "length l2' \<le> length l2"
    and t': "t' = t \<or> (sg, t') \<in> set l2" using last_entry [OF lg] by blast
  have "sorted (t # map snd l2)" using inv lg by (simp add: loop_inv_def sorted_append)
  then have "t \<le> t'" using t' by force
  have y: "sat_sub now t' \<le> sc_ttl_ticks ?c"
    using sat_sub_antimono [OF \<open>t \<le> t'\<close>, of now] young inv by (simp add: loop_inv_def)
  have r: "remembers ?c (ls_now s) (l1' @ (sg, t') # l2')" and si: "seen_inv ?c (ls_now s)"
    and n: "sc_max_entries ?c = n"
    using inv L by (simp_all add: loop_inv_def forward_inv_def)
  have "(sg, t') \<in> set (sc_entries ?c)"
    using remembersD_later [OF r le L(2) _ y] L(3) few n by simp
  then show ?thesis
    using seen_contains_iff [OF si, of sg now] y by auto
qed


section \<open>An example run\<close>

text \<open>The image's configuration without a duty cycle: a flood is received, queued, sent much later.\<close>

definition run_config :: app_config where
  "run_config = image_node\<lparr>cf_duty_cycle_percent := 100\<rparr>"

definition run_memory :: memory_profile where
  "run_memory = \<lparr>mp_heap_size = 0, mp_inbound_queue_len = 4, mp_outbound_queue_len = 4, mp_max_neighbours = 4,
     mp_seen_packet_cache_len = 4\<rparr>"

definition run_start :: loop_state where
  "run_start = loop_start run_memory run_config (budget_new 0 100) 0"

definition run_signature :: bytes where "run_signature = [3, 1, 1, 2, 3, 4, 0, 0]"

definition run_bytes :: bytes where "run_bytes = [0x0D, 0x01, 7, 1, 2, 3, 4]"

lemma prepare_forward_cong:
  assumes "cf_repeat_enabled c = cf_repeat_enabled c'" and "cf_region_capture c = cf_region_capture c'"
    and "cf_regions c = cf_regions c'" and "cf_loop_detection c = cf_loop_detection c'"
    and "cf_flood_max_advert_hops c = cf_flood_max_advert_hops c'"
    and "cf_flood_max_unscoped_hops c = cf_flood_max_unscoped_hops c'"
  shows "prepare_forward C c p snr nh = prepare_forward C c' p snr nh"
proof -
  have "capture_flood C c = capture_flood C c'"
    using assms by (simp add: capture_flood_def fun_eq_iff)
  then show ?thesis
    unfolding prepare_forward_def prepare_flood_forward_def assms by simp
qed

lemma run_decision:
  "prepare_forward toy_crypto run_config sample_flood 0 [7, 8, 9, 10] = Ok (Forward sample_forwarded run_signature)"
  unfolding run_signature_def sample_decision [symmetric]
  by (rule prepare_forward_cong) (simp_all add: run_config_def)

lemma run_encoded: "packet_encode sample_forwarded = Ok run_bytes"
  unfolding sample_forwarded_def run_bytes_def by code_simp

definition run_queued :: "u32 \<Rightarrow> queued_transmit" where
  "run_queued d = \<lparr>qt_eligible_at_ms = ucast d, qt_attempts = 0, qt_packet = run_bytes,
     qt_dedup_signature = Some run_signature, qt_reboot_after_tx = False\<rparr>"

definition run_ctx :: app_context where "run_ctx = context_new run_memory run_config 0"

definition run_ctx1 :: "u32 \<Rightarrow> app_context" where
  "run_ctx1 d = run_ctx\<lparr>cx_pending_forwards := [run_signature],
     cx_outbound := \<lparr>oc_queue = [run_queued d], oc_changed = True, oc_capacity = 4, oc_active = 0\<rparr>\<rparr>"

lemma sat_add_0 [simp]: "sat_add 0 b = (b :: 'a::len word)"
proof -
  have "unat b < 2 ^ LENGTH('a)" by (rule unsigned_less)
  then have "unat b \<le> 2 ^ LENGTH('a) - 1" by linarith
  then show ?thesis by (simp add: word_unat_eq_iff unat_sat_add min_absorb1)
qed

lemma run_enqueue: "enqueue_forward run_ctx 0 0 run_bytes d run_signature = (Ok True, run_ctx1 d)"
  by (simp add: enqueue_forward_def reserve_forward_def is_seen_or_pending_def seen_contains_def seen_prune_def
      run_ctx_def run_ctx1_def context_new_def seen_new_with_capacity_def run_memory_def OUTBOUND_QUEUE_CAPACITY_def
      enqueue_outbound_item_def outbound_try_send_def outbound_new_def outbound_len_def run_queued_def)

lemma run_handled: "\<exists>d. apply_repeater_rules toy_crypto run_ctx 0 0 sample_flood 0 [7, 8, 9, 10] = Ok (run_ctx1 d)"
proof -
  have "cx_config run_ctx = run_config" by (simp add: run_ctx_def context_new_def)
  moreover have "length run_bytes = 7" by (simp add: run_bytes_def)
  ultimately show ?thesis
    using run_decision run_encoded
    by (auto simp: apply_repeater_rules_def queue_repeater_packet_def FORWARD_BUFFER_LEN_def Let_def run_enqueue)
qed

definition run_time :: u64 where "run_time = 0x10000000000"

lemma run_eligible: "\<not> run_time < ucast (d :: u32)"
proof -
  have "unat (ucast d :: u64) \<le> unat d"
    by (simp add: unsigned_ucast_eq unsigned_take_bit_eq)
  also have "\<dots> < unat run_time" using unsigned_less [of d, where ?'a = nat] by (simp add: run_time_def)
  finally show ?thesis by (simp add: word_less_nat_alt)
qed

lemma run_begun:
  "transmit_begin (run_ctx1 d) (budget_new 0 100) run_time
     = Ok (Some (run_queued d), (run_ctx1 d)\<lparr>cx_outbound :=
         \<lparr>oc_queue = [], oc_changed = True, oc_capacity = 4, oc_active = 1\<rparr>\<rparr>, budget_new 0 100)"
  using run_eligible [of d]
  by (simp add: transmit_begin_def Let_def run_ctx1_def run_ctx_def context_new_def outbound_next_def run_config_def
      outbound_take_first_def run_queued_def config_duty_cycle_def budget_ready_at_ms_def)

definition run_ctx2 :: app_context where
  "run_ctx2 = run_ctx\<lparr>cx_outbound := \<lparr>oc_queue = [], oc_changed = True, oc_capacity = 4, oc_active = 0\<rparr>,
     cx_seen_packets := \<lparr>sc_ttl_ticks = SEEN_PACKET_TTL_MS, sc_max_entries = 4,
        sc_entries = [(run_signature, run_time)]\<rparr>\<rparr>"

lemma run_ended:
  "\<exists>ctx. transmit_end ((run_ctx1 d)\<lparr>cx_outbound :=
       \<lparr>oc_queue = [], oc_changed = True, oc_capacity = 4, oc_active = 1\<rparr>\<rparr>) (budget_new 0 100) (run_queued d) True 0
       run_time run_time rc 100 = Ok (False, ctx, budget_new 0 100)
     \<and> cx_outbound ctx = cx_outbound run_ctx2 \<and> cx_pending_forwards ctx = []
     \<and> cx_seen_packets ctx = cx_seen_packets run_ctx2 \<and> cx_memory ctx = run_memory"
  by (simp add: transmit_end_def Let_def run_ctx1_def run_ctx2_def run_ctx_def context_new_def run_queued_def
      finish_forward_def release_forward_def seen_new_with_capacity_def seen_touch_def
      outbound_complete_current_def budget_record_transmit_def record_packet_sent_def record_tx_airtime_def
      count_sent_def run_memory_def remove_at_def split: option.split)

text \<open>The run: handled at 0, begun and sent at \<open>run_time\<close>.\<close>

definition run_done :: "loop_state \<Rightarrow> bool" where
  "run_done s \<longleftrightarrow> ls_flight s = None \<and> ls_now s = run_time \<and> ls_log s = [(run_signature, run_time)]
     \<and> cx_outbound (ls_ctx s) = cx_outbound run_ctx2 \<and> cx_pending_forwards (ls_ctx s) = []
     \<and> cx_seen_packets (ls_ctx s) = cx_seen_packets run_ctx2 \<and> cx_memory (ls_ctx s) = run_memory"

lemma run_exists: "\<exists>s. loop_reach toy_crypto run_start s \<and> run_done s"
proof -
  let ?ch = "\<lparr>oc_queue = [], oc_changed = True, oc_capacity = 4, oc_active = 1\<rparr>"
  obtain d where h: "apply_repeater_rules toy_crypto run_ctx 0 0 sample_flood 0 [7, 8, 9, 10] = Ok (run_ctx1 d)"
    using run_handled by blast
  let ?s1 = "run_start\<lparr>ls_ctx := run_ctx1 d, ls_now := 0\<rparr>"
  have st: "ls_ctx run_start = run_ctx" "ls_now run_start = 0" "ls_flight run_start = None" "ls_log run_start = []"
    "ls_budget run_start = budget_new 0 100"
    by (simp_all add: run_start_def loop_start_def run_ctx_def)
  have s1: "loop_step toy_crypto run_start ?s1"
    using loop_step.handle [of run_start 0 0] h st by simp
  define rc where "rc = cf_radio (cx_config (run_ctx1 d))"
  have pct: "config_duty_cycle (cx_config (run_ctx1 d)) = 100"
    by (simp add: config_duty_cycle_def run_ctx1_def run_ctx_def context_new_def run_config_def)
  let ?s2 = "?s1\<lparr>ls_ctx := (run_ctx1 d)\<lparr>cx_outbound := ?ch\<rparr>, ls_budget := budget_new 0 100,
     ls_flight := Some (run_queued d, rc, 100), ls_now := run_time\<rparr>"
  have s2: "loop_step toy_crypto ?s1 ?s2"
    by (rule loop_step.begin_transmit [where taken = "Some (run_queued d)"])
      (use run_begun [of d] st pct in \<open>simp_all add: rc_def\<close>)
  obtain ctx where e: "transmit_end ((run_ctx1 d)\<lparr>cx_outbound := ?ch\<rparr>) (budget_new 0 100) (run_queued d) True 0
       run_time run_time rc 100 = Ok (False, ctx, budget_new 0 100)"
    and c: "cx_outbound ctx = cx_outbound run_ctx2" "cx_pending_forwards ctx = []"
      "cx_seen_packets ctx = cx_seen_packets run_ctx2" "cx_memory ctx = run_memory"
    using run_ended [of d rc] by blast
  let ?s3 = "?s2\<lparr>ls_ctx := ctx, ls_budget := budget_new 0 100, ls_flight := None, ls_now := run_time,
     ls_log := ls_log ?s2 @ sent_entry (run_queued d) True run_time\<rparr>"
  have s3: "loop_step toy_crypto ?s2 ?s3"
    by (rule loop_step.end_transmit [of _ "run_queued d" rc 100 run_time]) (use e in simp_all)
  have "loop_reach toy_crypto run_start ?s3"
    by (rule loop_reach.step [OF loop_reach.step [OF loop_reach.step [OF loop_reach.init s1] s2] s3])
  moreover have "run_done ?s3"
    using c st by (simp add: run_done_def sent_entry_def run_queued_def)
  ultimately show ?thesis by blast
qed

lemma run_accepts_again:
  assumes "run_done s"
  shows "\<exists>ctx'. enqueue_forward (ls_ctx s) (run_time + 20000) (run_time + 20000) run_bytes 0 run_signature = (Ok True, ctx')"
  using assms
  by (simp add: run_done_def enqueue_forward_def reserve_forward_def is_seen_or_pending_def seen_contains_def
      seen_prune_def run_ctx2_def run_memory_def OUTBOUND_QUEUE_CAPACITY_def enqueue_outbound_item_def
      outbound_try_send_def outbound_len_def sat_sub_def run_time_def SEEN_PACKET_TTL_MS_def)

section \<open>Properties\<close>

text \<open>C4: Whatever the radio, the handler and the clock do, the queue stays in order and within its
  capacity, the packet in the radio loop's hands is counted, none has failed five times, and no two of
  the packets queued or in flight carry the same signature.\<close>

theorem radio_loop_invariant:
  assumes "loop_reach C (loop_start memory config budget now) s"
  shows "sorted (map qt_eligible_at_ms (oc_queue (cx_outbound (ls_ctx s))))
    \<and> outbound_len (cx_outbound (ls_ctx s)) \<le> OUTBOUND_QUEUE_CAPACITY
    \<and> oc_active (cx_outbound (ls_ctx s)) = (if ls_flight s = None then 0 else 1)
    \<and> (\<forall>q \<in> set (oc_queue (cx_outbound (ls_ctx s))). qt_attempts q < OUTBOUND_MAX_ATTEMPTS)
    \<and> mset (cx_pending_forwards (ls_ctx s))
        = mset (List.map_filter qt_dedup_signature
            ((case ls_flight s of None \<Rightarrow> [] | Some (q, _) \<Rightarrow> [q]) @ oc_queue (cx_outbound (ls_ctx s))))
    \<and> distinct (cx_pending_forwards (ls_ctx s))"
proof -
  have fw: "forward_inv (ls_ctx s) (ls_queued s) (ls_now s)"
    using loop_reachable_inv [OF assms] by (simp add: loop_inv_def)
  then show ?thesis
    by (auto simp: forward_inv_def outbound_inv_def ls_queued_def OUTBOUND_QUEUE_CAPACITY_def
        oq.signatures_def map_filter_def split: option.splits)
qed

theorem radio_loop_invariant_witness:
  "\<exists>s. run_done s \<and> distinct (cx_pending_forwards (ls_ctx s))"
  using run_exists radio_loop_invariant unfolding run_start_def by blast

text \<open>C6: In no reachable state does the radio loop or the forwarding of a packet panic: finding the head of
  the queue, finishing a transmission with any answer of the radio, and applying the repeater's rules to a
  decoded packet all return. (What else the handler does with a packet, remote commands among it, is not part
  of these three operations.)\<close>

theorem radio_loop_never_panics:
  assumes "loop_reach C (loop_start memory config budget now) s" and "ls_now s \<le> t" and "crypto_laws C"
  shows "(ls_flight s = None \<longrightarrow> (\<exists>r. transmit_begin (ls_ctx s) (ls_budget s) t = Ok r))
    \<and> (\<forall>q rc pct sent random charge. ls_flight s = Some (q, rc, pct)
         \<longrightarrow> (\<exists>r. transmit_end (ls_ctx s) (ls_budget s) q sent random t charge rc pct = Ok r))
    \<and> (\<exists>ctx'. apply_repeater_rules C (ls_ctx s) t t p snr nh = Ok ctx')"
proof -
  have fw: "forward_inv (ls_ctx s) (ls_queued s) (ls_now s)"
    using loop_reachable_inv [OF assms(1)] by (simp add: loop_inv_def)
  have "\<exists>ctx'. queue_repeater_packet (ls_ctx s) t t p' sg nh = Ok ctx'" for p' sg
    using queue_rules_total [OF fw assms(2)] by blast
  then have "\<exists>ctx'. apply_repeater_rules C (ls_ctx s) t t p snr nh = Ok ctx'"
    using prepare_forward_total [OF assms(3), of "cx_config (ls_ctx s)" p snr nh]
    by (auto simp: apply_repeater_rules_def split: forward_decision.split)
  then show ?thesis
    using transmit_begin_inv [of "ls_ctx s" "ls_now s" t "ls_budget s"] transmit_end_inv [of "ls_ctx s" _ "ls_now s" t]
      fw assms(2) by (auto simp: ls_queued_def) metis
qed

theorem radio_loop_never_panics_witness:
  "\<exists>s r. run_done s \<and> transmit_begin (ls_ctx s) (ls_budget s) run_time = Ok r"
proof -
  obtain s where s: "loop_reach toy_crypto run_start s" "run_done s" using run_exists by blast
  have "ls_now s \<le> run_time" "ls_flight s = None" using s(2) by (simp_all add: run_done_def)
  then show ?thesis
    using radio_loop_never_panics [OF s(1) [unfolded run_start_def] _ toy_crypto_laws] s(2) by blast
qed

text \<open>C5: A forward that has been transmitted is not accepted again within 15 seconds, as long as fewer
  other forwards than the cache holds were transmitted since; nor is one that is still queued or in
  flight.\<close>

theorem forward_not_repeated:
  assumes "loop_reach C (loop_start memory config budget now) s"
    and "enqueue_forward (ls_ctx s) t t' bs delay sg = (Ok True, ctx')" and "ls_now s \<le> t"
    and "ls_log s = l1 @ (sg, sent_at) # l2" and "length l2 < mp_seen_packet_cache_len memory"
  shows "unat sent_at + 15000 < unat t \<and> sg \<notin> set (cx_pending_forwards (ls_ctx s))"
proof -
  note inv = loop_reachable_inv [OF assms(1)]
  have fw: "forward_inv (ls_ctx s) (ls_queued s) (ls_now s)" using inv by (simp add: loop_inv_def)
  have new: "\<not> fst (seen_contains (cx_seen_packets (ls_ctx s)) sg t)" "sg \<notin> set (cx_pending_forwards (ls_ctx s))"
    using enqueue_forward_inv [OF fw assms(3,2)] by simp_all
  then have "\<not> sat_sub t sent_at \<le> SEEN_PACKET_TTL_MS"
    using recent_is_known [OF inv assms(4,5,3)] by blast
  then have "15000 < unat t - unat sent_at"
    by (simp add: word_le_nat_alt unat_sat_sub SEEN_PACKET_TTL_MS_def)
  then show ?thesis using new(2) by simp
qed

theorem forward_not_repeated_witness:
  "unat run_time + 15000 < unat (run_time + 20000 :: u64)"
proof -
  obtain s where s: "loop_reach toy_crypto run_start s" and d: "run_done s" using run_exists by blast
  obtain ctx' where e: "enqueue_forward (ls_ctx s) (run_time + 20000) (run_time + 20000) run_bytes 0 run_signature
      = (Ok True, ctx')" using run_accepts_again [OF d] by blast
  have "ls_now s \<le> run_time + 20000" using d by (simp add: run_done_def run_time_def)
  moreover have "ls_log s = [] @ (run_signature, run_time) # []" using d by (simp add: run_done_def)
  ultimately show ?thesis
    using forward_not_repeated [OF s [unfolded run_start_def] e, of "[]" run_time "[]"] by (simp add: run_memory_def)
qed

end
