(* ===== verification/Node.thy ===== *)
theory Node
  imports Remote_Requests Periodic Radio_Loop
begin

text \<open>
  What the repeater does with a received packet (\<open>app/mod.rs\<close>: \<open>handle_rx_event\<close>): count it, learn
  from it, answer it, and pass it on.
\<close>

section \<open>Handling an event\<close>

definition queue_remote_response :: "('s, 'p) env \<Rightarrow> bytes \<Rightarrow> ('s, 'p) world \<Rightarrow> ('s, 'p) world" where
  "queue_remote_response E response w =
     (let (reboot, ctx) = take_reboot_after_next_remote_reply (wd_context w); w = w\<lparr>wd_context := ctx\<rparr>
      in snd (queue_packet E (if reboot then enqueue_outbound_reboot_after_tx else enqueue_outbound) response w))"

text \<open>The two clock readings that forwarding a packet takes are made whether or not it is forwarded.\<close>

definition repeat_packet :: "('s, 'p) env \<Rightarrow> packet \<Rightarrow> i16 \<Rightarrow> bytes \<Rightarrow> ('s, 'p) world \<Rightarrow> (unit, ('s, 'p) world) res" where
  "repeat_packet E packet snr_quarters nh w =
     (let (now_seen, w) = now_millis E w; (now_queue, w) = now_millis E w in
      case apply_repeater_rules (en_crypto E) (wd_context w) now_seen now_queue packet snr_quarters nh of
        Inr ctx \<Rightarrow> Ok (w\<lparr>wd_context := ctx\<rparr>)
      | Inl _ \<Rightarrow> Panicked)"

definition handle_packet ::
  "('s, 'p) env \<Rightarrow> rx_event \<Rightarrow> packet \<Rightarrow> ('s, 'p) world \<Rightarrow> (unit, ('s, 'p) world) res"
where
  "handle_packet E event packet w =
     (let ctx = count_received (route_type packet) (wd_context w); nh = context_node_hash ctx;
          ctx = observe_neighbour_packet (en_crypto E) ctx packet (rx_rssi event) (rx_snr_quarters event)
                  (rx_received_at_ms event)
      in and_then (handle_remote_packet E packet (w\<lparr>wd_context := ctx\<rparr>)) (\<lambda>(response, w).
           let w = (case response of None \<Rightarrow> w | Some bs \<Rightarrow> queue_remote_response E bs w);
               (response, w) = handle_control_packet E packet (rx_rssi event) (rx_snr_quarters event)
                                 (rx_received_at_ms event) w;
               w = (case response of None \<Rightarrow> w | Some bs \<Rightarrow> snd (queue_packet E enqueue_outbound bs w))
           in repeat_packet E packet (rx_snr_quarters event) nh w))"

definition handle_rx_event :: "('s, 'p) env \<Rightarrow> rx_event \<Rightarrow> ('s, 'p) world \<Rightarrow> (unit, ('s, 'p) world) res" where
  "handle_rx_event E event w =
     (case packet_decode (rx_payload event) of
        Inl Panic \<Rightarrow> Panicked
      | Inl (Fail _) \<Rightarrow> Ok (w\<lparr>wd_context := record_packet_error (wd_context w)\<rparr>)
      | Inr packet \<Rightarrow> handle_packet E event packet w)"

text \<open>One turn of the handler task: the oldest event in the inbound queue.\<close>

definition handler_turn :: "('s, 'p) env \<Rightarrow> ('s, 'p) world \<Rightarrow> (unit, ('s, 'p) world) res" where
  "handler_turn E w =
     (case receive_inbound (wd_context w) of
        None \<Rightarrow> Ok w
      | Some (event, ctx) \<Rightarrow> handle_rx_event E event (w\<lparr>wd_context := ctx\<rparr>))"

end
