(* ===== verification/Command_Laws.thy ===== *)
theory Command_Laws
  imports Cli Config_Laws
begin

text \<open>
  The contract between the command line and the rest of the node. A command reaches the node's state
  through few operations: it reads clocks, updates the configuration, closes the sessions of keys whose
  role changed, writes storage, queues a packet of the node's own, and starts a discovery. The locale
  \<open>command_context\<close> asks of an invariant that these keep it, and shows once that then every command
  returns, without a panic, in a state where it holds.
\<close>

section \<open>Handlers that return\<close>

definition handled :: "('w \<Rightarrow> bool) \<Rightarrow> (unit, 'a \<times> 'w) res \<Rightarrow> bool" where
  "handled I r \<longleftrightarrow> (\<exists>a w. r = Ok (a, w) \<and> I w)"

named_theorems handled_intros "how handlers that return compose"

lemma handled_Ok [simp]: "handled I (Inr (a, w)) \<longleftrightarrow> I w"
  by (simp add: handled_def)

lemma handled_snd: "handled I (Inr x) \<longleftrightarrow> I (snd x)"
  by (cases x) simp

lemma handled_reply [handled_intros]: "I w \<Longrightarrow> handled I (reply text w)"
  by (simp add: reply_def)

lemma handled_output_text [handled_intros]: "I w \<Longrightarrow> handled I (output_text text w)"
  by (simp add: output_text_def)

lemma handled_and_then [handled_intros]:
  "handled I r \<Longrightarrow> (\<And>a w. I w \<Longrightarrow> handled I (f (a, w))) \<Longrightarrow> handled I (and_then r f)"
  by (auto simp: handled_def)

lemma handled_map_res:
  "handled I r \<Longrightarrow> (\<And>a w. I w \<Longrightarrow> handled I (Inr (g (a, w)))) \<Longrightarrow> handled I (map_res g r)"
  by (auto simp: handled_def)

lemma handled_respond [handled_intros]: "handled I r \<Longrightarrow> handled I (respond r)"
  by (auto simp: respond_def intro: handled_map_res)

lemma handled_if [handled_intros]:
  "(b \<Longrightarrow> handled I x) \<Longrightarrow> (\<not> b \<Longrightarrow> handled I y) \<Longrightarrow> handled I (if b then x else y)"
  by simp

lemma handled_parsed [handled_intros]:
  "I w \<Longrightarrow> (\<And>x. v = Some x \<Longrightarrow> handled I (f x w)) \<Longrightarrow> handled I (parsed v message f w)"
  by (cases v) (simp_all add: parsed_def reply_def)

lemma handled_dispatch:
  "(\<And>p h x. (p, h) \<in> set arms \<Longrightarrow> handled I (h x w)) \<Longrightarrow> handled I (otherwise w)
     \<Longrightarrow> handled I (dispatch arms command otherwise w)"
  by (induction arms command otherwise rule: dispatch.induct) (auto split: option.split)

lemma safe_update_setter [safe_updates]: "safe_setter f \<Longrightarrow> safe_update (setter f)"
proof -
  assume f: "safe_setter f"
  have "config_inv (fst (setter f c)) \<and> ac_identity (fst (setter f c)) = ac_identity c \<and> no_panic (snd (setter f c))"
    if c: "config_inv c" for c
    using safe_setterD [OF f c] c by (cases "f c") (simp_all add: setter_def no_panic_def)
  then show ?thesis unfolding safe_update_def by blast
qed

lemma safe_update_always [safe_updates]:
  "safe_update (always (\<lambda>c. set_remote_cli_password c v))" "safe_update (always (\<lambda>c. set_wifi_telnet c b))"
  "safe_update (always (\<lambda>c. set_owner_info c v))" "safe_update (always (\<lambda>c. set_repeat_enabled c b))"
  "safe_update (always (\<lambda>c. set_advert_interval_minutes c n))"
  "safe_update (always (\<lambda>c. set_flood_advert_interval_hours c n))"
  "safe_update (always (\<lambda>c. set_loop_detection c d))" "safe_update (always (\<lambda>c. set_region_capture c b))"
  "private_key_wf k \<Longrightarrow> safe_update (always (\<lambda>c. set_private_key c k))"
  by (simp_all add: safe_update_def always_def set_remote_cli_password_def set_wifi_telnet_def set_owner_info_def
      set_repeat_enabled_def set_advert_interval_minutes_def set_flood_advert_interval_hours_def
      set_loop_detection_def set_region_capture_def set_private_key_def config_inv_set)

section \<open>The contract\<close>

text \<open>A storage driver reports its errors and does not panic.\<close>

definition storage_laws :: "'s storage_api \<Rightarrow> bool" where
  "storage_laws api \<longleftrightarrow> (\<forall>s key data. no_panic (fst (st_write_atomic api s key data)))"

locale command_context =
  fixes E :: "('s, 'p) env" and I :: "('s, 'p) world \<Rightarrow> bool"
  assumes config_ok: "I w \<Longrightarrow> config_inv (wd_config w)"
    and profile: "I w \<Longrightarrow> profile_ok (en_crypto E) (en_profile E)"
    and storage: "I w \<Longrightarrow> storage_laws (en_storage E)"
    and millis: "I w \<Longrightarrow> I (snd (now_millis E w))"
    and seconds: "I w \<Longrightarrow> I (snd (now_seconds E w))"
    and wall_clock: "I w \<Longrightarrow> I (snd (set_wall_clock_if_forward E t w))"
    and ota_read: "I w \<Longrightarrow> I (snd (ota_status_of E w))"
    and ota_start: "I w \<Longrightarrow> I (w\<lparr>wd_platform := pl_start_ota (en_platform E) (wd_platform w)\<rparr>)"
    and ota_stop: "I w \<Longrightarrow> I (w\<lparr>wd_platform := pl_stop_ota (en_platform E) (wd_platform w)\<rparr>)"
    and stored: "I w \<Longrightarrow> I (w\<lparr>wd_storage := s\<rparr>)"
    and reconfigured: "I w \<Longrightarrow> config_inv c \<Longrightarrow> ac_identity c = ac_identity (wd_config w) \<Longrightarrow>
          I (w\<lparr>wd_context := (wd_context w)\<lparr>cx_config := c\<rparr>\<rparr>)"
    and session_closed: "I w \<Longrightarrow> I (w\<lparr>wd_context :=
          (wd_context w)\<lparr>cx_remote_logins := logins_remove (cx_remote_logins (wd_context w)) key\<rparr>\<rparr>)"
    and own_packet: "I w \<Longrightarrow> enqueue_outbound_item (wd_context w) now packet 0 reboot None = Ok ctx \<Longrightarrow>
          I (w\<lparr>wd_context := ctx\<rparr>)"
    and discovery: "I w \<Longrightarrow> I (w\<lparr>wd_context := start_discover_neighbours (wd_context w) tag now\<rparr>)"
begin

lemmas board = millis seconds wall_clock ota_read ota_start ota_stop

lemma sessions_closed:
  "I w \<Longrightarrow> I (w\<lparr>wd_context := (wd_context w)\<lparr>cx_remote_logins :=
     fold (\<lambda>key t. logins_remove t key) keys (cx_remote_logins (wd_context w))\<rparr>\<rparr>)"
proof (induction keys arbitrary: w)
  case (Cons key keys)
  show ?case using Cons.IH [OF session_closed [OF Cons.prems, of key]] by simp
qed simp

lemma save_no_panic:
  assumes "I w" and "config_inv c"
  shows "no_panic (fst (config_save (en_crypto E) (en_profile E) (en_storage E) s c))"
proof -
  have "private_key_wf (cf_private_key (from_app_config c))"
    using config_invD(3) [OF from_app_config_inv [OF assms(2)]] .
  then have "no_panic (encode_config_text (en_crypto E) (en_profile E) (from_app_config c))"
    using profile [OF assms(1)] by (auto simp: encode_config_text_def profile_ok_def intro!: no_panic_intros)
  moreover have "encode_config_text (en_crypto E) (en_profile E) (from_app_config c) \<noteq> Err e" for e
    by (auto simp: encode_config_text_def and_then_Inl_iff default_with_private_key_def split: option.splits)
  ultimately obtain data where "encode_config_text (en_crypto E) (en_profile E) (from_app_config c) = Ok data"
    by (cases "encode_config_text (en_crypto E) (en_profile E) (from_app_config c)")
      (metis fault.exhaust no_panic_Panic)
  then show ?thesis
    using storage [OF assms(1)] by (simp add: config_save_def write_config_file_def Let_def storage_laws_def)
qed

lemma update: 
  assumes I: "I w" and f: "safe_update f"
  shows "handled I (cli_update E f w)"
proof -
  obtain c r where u: "f (wd_config w) = (c, r)" by fastforce
  have c: "config_inv c" "ac_identity c = ac_identity (wd_config w)" "no_panic r"
    using f config_ok [OF I] u unfolding safe_update_def by (metis fst_conv snd_conv)+
  note I1 = reconfigured [OF I c(1,2)]
  show ?thesis
  proof (cases r)
    case (Inl e)
    then obtain err where "r = Err err" using c(3) by (cases e) (auto simp: no_panic_def)
    then show ?thesis using I1 stored by (simp add: cli_update_def update_config_def u)
  next
    case (Inr y)
    let ?ctx = "(wd_context w)\<lparr>cx_config := c, cx_remote_logins := fold (\<lambda>key t. logins_remove t key)
      (changed_keys (cf_acl (wd_config w)) (cf_acl c)) (cx_remote_logins (wd_context w))\<rparr>"
    have I2: "I (w\<lparr>wd_context := ?ctx, wd_storage := s\<rparr>)" for s
      using stored [OF sessions_closed [OF I1, of "changed_keys (cf_acl (wd_config w)) (cf_acl c)"]] by simp
    obtain v s where v: "config_save (en_crypto E) (en_profile E) (en_storage E) (wd_storage w) c = (v, s)"
      by fastforce
    then have "no_panic v" using save_no_panic [OF I c(1), of "wd_storage w"] by simp
    then show ?thesis
      using I2 Inr v by (auto simp: cli_update_def update_config_def u Let_def no_panic_def split: sum.split fault.split)
  qed
qed

lemma update_answer: "I w \<Longrightarrow> safe_update f \<Longrightarrow> handled I (update_reply E f text w)"
  unfolding update_reply_def by (rule handled_and_then [OF update]) auto

lemma setter_answer: "I w \<Longrightarrow> safe_setter f \<Longrightarrow> handled I (update_reply E (setter f) text w)"
  by (intro update_answer safe_update_setter)

lemmas answers = handled_intros update_answer setter_answer safe_updates

section \<open>Changing settings\<close>

lemma wifi_field: "I w \<Longrightarrow> handled I (set_wifi_field E key v w)"
  by (auto simp: set_wifi_field_def Let_def intro!: answers)

lemma text_arm:
  assumes I: "I w" and arm: "(p, h) \<in> set (text_arms E request)"
  shows "handled I (h v w)"
proof -
  have "handled I (set_private_key_command E v w)" for v
    using I by (auto simp: set_private_key_command_def intro!: answers dest: private_key_from_hex_wf)
  moreover have "handled I (Ok (handle_time_set_command E v request w))" for v
  proof -
    have "I (snd (set_clock E n w))" for n
      using board(1,2) [OF wall_clock [OF I, of n]] wall_clock [OF I, of n]
      by (auto simp: set_clock_def Let_def split: prod.split)
    then show ?thesis
      using I by (cases "parse_unsigned (2 ^ 32 - 1) (trim v)")
        (auto simp: handle_time_set_command_def handled_snd)
  qed
  ultimately show ?thesis
    using I arm by (auto simp: text_arms_def set_location_command_def set_radio_command_def Let_def
        intro!: answers split: option.split)
qed

lemma number_arm: "I w \<Longrightarrow> (p, h) \<in> set (number_arms E) \<Longrightarrow> handled I (h v w)"
  by (auto simp: number_arms_def intro!: answers)

lemma set_arm: "I w \<Longrightarrow> (p, h) \<in> set (set_arms E request) \<Longrightarrow> handled I (h v w)"
proof -
  assume I: "I w" and "(p, h) \<in> set (set_arms E request)"
  moreover have "handled I (set_frequency_command E v w)"
    using I by (auto simp: set_frequency_command_def Let_def intro!: answers)
  ultimately show ?thesis
    using text_arm [OF I] number_arm [OF I] by (auto simp: set_arms_def split: if_splits)
qed

lemma set_command: "I w \<Longrightarrow> handled I (handle_set_command E config request w)"
proof -
  assume I: "I w"
  have acl: "handled I (set_acl_command E config w)"
    using I profile [OF I] by (auto simp: set_acl_command_def intro!: answers split: list.split)
  have wifi: "handled I (set_wifi_command E request v w)" for v
    using I wifi_field [OF I] by (auto simp: set_wifi_command_def intro!: answers split: option.split)
  have ntp: "handled I (set_ntp_command E config w)"
    using I by (auto simp: set_ntp_command_def Let_def intro!: answers)
  have arms: "handled I (dispatch (set_arms E request) config (reply (lit ''Unknown config: '' @ config)) w)"
    using I set_arm [OF I] by (intro handled_dispatch handled_reply)
  show ?thesis
    unfolding handle_set_command_def using I acl wifi ntp arms
    by (auto intro!: answers split: option.split)
qed

lemma unset_command: "I w \<Longrightarrow> handled I (handle_unset_command E name request w)"
  unfolding handle_unset_command_def
  by (intro handled_if handled_reply handled_and_then [OF update])
    (simp_all add: config_unset_safe profile)

section \<open>Regions\<close>

lemma region_command: "I w \<Longrightarrow> handled I (handle_region_command E command request w)"
proof -
  assume I: "I w"
  have change: "handled I (region_change E request name change answer w)"
    if "\<And>name. safe_setter (change name)" for name change answer
    using I that by (auto simp: region_change_def intro!: answers)
  have "handled I (region_default E request name w)" for name
    using I by (auto simp: region_default_def intro!: answers split: option.split)
  moreover have "handled I (region_capture_command E request v w)" for v
    using I by (auto simp: region_capture_command_def intro!: answers split: option.split)
  ultimately show ?thesis
    unfolding handle_region_command_def Let_def
    using I change [OF put_region_safe] change [OF remove_region_safe [OF profile [OF I]]]
      change [OF set_region_flood_safe]
    by (auto intro!: answers split: list.split)
qed

section \<open>Commands that are words\<close>

lemma queue_own:
  assumes I: "I w" and e: "enqueue \<in> {enqueue_outbound, enqueue_outbound_reboot_after_tx}"
  shows "I (snd (queue_packet E enqueue packet w))"
proof -
  obtain now w1 where n: "now_millis E w = (now, w1)" by fastforce
  then have I1: "I w1" using millis [OF I] by simp
  show ?thesis
    using I1 own_packet [OF I1, of now packet] e n
    by (cases "enqueue (wd_context w1) now packet")
      (auto simp: queue_packet_def enqueue_outbound_def enqueue_outbound_after_def
        enqueue_outbound_reboot_after_tx_def)
qed

lemma command_packet: "I w \<Longrightarrow> I (snd (enqueue_command_packet E packet answer w))"
  using queue_own [of w enqueue_outbound]
  by (auto simp: enqueue_command_packet_def split_beta split: option.split)

lemma advert: "I w \<Longrightarrow> handled I (advert_command E build answer w)"
  using command_packet [OF seconds [of w]]
  by (auto simp: advert_command_def Let_def split_beta output_text_def)

lemma discover: "I w \<Longrightarrow> handled I (discover_command E w)"
  using discovery [OF command_packet [OF millis [of w]]] command_packet [OF millis [of w]]
  by (auto simp: discover_command_def Let_def split_beta output_text_def)

lemma export: "I w \<Longrightarrow> handled I (export_command E command request w)"
proof -
  assume I: "I w"
  have "private_key_wf (cf_private_key (wd_config w))"
    using config_ok [OF I] by (simp add: config_inv_def)
  then have "no_panic (default_with_private_key (en_crypto E) (en_profile E) (cf_private_key (wd_config w)))"
    using profile [OF I] by (simp add: profile_ok_def)
  then obtain d where "default_with_private_key (en_crypto E) (en_profile E) (cf_private_key (wd_config w)) = Ok d"
    by (cases "with_defaults_text (en_crypto E) (cf_private_key (wd_config w)) (en_profile E)")
      (simp_all add: default_with_private_key_def)
  then show ?thesis
    using I by (simp add: export_command_def export_config_delta_def export_config_def
        encode_full_config_text_redacted_def from_app_config_def stored_config.defs output_text_def)
qed

lemma erase: "I w \<Longrightarrow> handled I (erase_command E w)"
proof -
  assume I: "I w"
  obtain r s where r: "save_unprovisioned (en_storage E) (wd_storage w) = (r, s)" by fastforce
  then have "no_panic r"
    using storage [OF I] unfolding save_unprovisioned_def storage_laws_def by (metis fst_conv)
  then show ?thesis
    using stored [OF I] r
    by (auto simp: erase_command_def reset_config_def output_text_def no_panic_def split: sum.split fault.split)
qed

lemma clock_set: "I w \<Longrightarrow> I (snd (set_clock E n w))"
  using seconds [OF wall_clock [of w n]] wall_clock [of w n]
  by (auto simp: set_clock_def Let_def split: prod.split)

lemma clock_synced: "I w \<Longrightarrow> handled I (clock_sync E request w)"
  using clock_set [of w "sat_add (rq_sender_timestamp request) 1"]
  by (auto simp: clock_sync_def output_text_def split: prod.split)

lemma ota:
  "I w \<Longrightarrow> handled I (ota_start E w)" "I w \<Longrightarrow> handled I (ota_stop E w)"
  "I w \<Longrightarrow> handled I (ota_status_command E w)"
  using ota_read [OF ota_start [of w]] ota_read [OF ota_stop [of w]] ota_read [of w]
  by (auto simp: Cli.ota_start_def Cli.ota_stop_def ota_status_command_def output_text_def Let_def split_beta)

lemma guarded: "I w \<Longrightarrow> handled I (f w) \<Longrightarrow> handled I (passworded request f w)"
  by (simp add: passworded_def output_text_def)

lemma word: "I w \<Longrightarrow> handled I (word_command E command request w)"
proof -
  assume I: "I w"
  have clock: "handled I (let (now, w) = now_seconds E w in output_text (lit ''Clock: '' @ show_word now) w)"
    using seconds [OF I] by (auto simp: output_text_def split_beta)
  have status: "handled I (let (text, w) = status_text E w in output_text text w)"
    using millis [OF I] by (auto simp: status_text_def output_text_def split_beta)
  note arms = handled_if handled_output_text guarded advert discover export erase clock_synced ota clock status
  show ?thesis
    unfolding word_command_def
    by (rule handled_if, simp add: I, rule handled_map_res, intro arms)
      (simp_all add: I)
qed

lemma command: "I w \<Longrightarrow> handled I (handle_command E command request w)"
proof -
  assume I: "I w"
  have time: "handled I (Ok (handle_time_set_command E v request w))" for v
    using text_arm [OF I, of "lit ''time ''" "\<lambda>v w. Ok (handle_time_set_command E v request w)" request v]
    by (simp add: text_arms_def)
  have get: "handled I (Ok (handle_get_command E config request w))" for config
    using I millis [OF I]
    by (auto simp: handle_get_command_def handled_snd status_text_def split_beta split: option.split)
  have password: "handled I (password_command E request v w)" for v
    using I by (auto simp: password_command_def intro!: answers)
  have word: "handled I (map_res (\<lambda>(out, w). (map_option (\<lambda>(text, post).
      \<lparr>cr_text = text, cr_post_reply = post\<rparr>) out, w)) (word_command E command request w))"
    by (rule handled_map_res [OF word [OF I]]) auto
  have rest: "handled I (dispatch [(lit ''password '', \<lambda>password w. respond (password_command E request password w))]
      command (\<lambda>w. map_res (\<lambda>(out, w). (map_option (\<lambda>(text, post).
        \<lparr>cr_text = text, cr_post_reply = post\<rparr>) out, w)) (word_command E command request w)) w)"
    using word by (intro handled_dispatch) (auto intro!: handled_respond password)
  have arms: "handled I (h x w)"
    if "(p, h) \<in> set [(lit ''time '', \<lambda>seconds w. respond (Ok (handle_time_set_command E seconds request w))),
         (lit ''get '', \<lambda>config w. respond (Ok (handle_get_command E config request w))),
         (lit ''set '', \<lambda>config w. respond (handle_set_command E config request w)),
         (lit ''unset '', \<lambda>name w. respond (handle_unset_command E name request w))]" for p h x
    using that time get set_command [OF I] unset_command [OF I] by (auto intro: handled_respond)
  show ?thesis
    unfolding handle_command_def
    by (rule handled_if, intro handled_respond handled_reply I, rule handled_dispatch, erule arms)
      (use rest region_command [OF I] in \<open>simp add: handled_respond\<close>)
qed

end

end
