(* ===== verification/Remote_Answers.thy ===== *)
theory Remote_Answers
  imports Remote_Requests Command_Laws
begin

text \<open>
  The answers remote clients get. An answer longer than 160 bytes is cut at exactly 160 bytes, which
  panics inside a character of several bytes; answers in ASCII are never affected. A client without the
  password only reads, and its answers are ASCII.
\<close>

section \<open>The cut\<close>

definition ascii :: "rstr \<Rightarrow> bool" where
  "ascii s \<longleftrightarrow> (\<forall>c \<in> set s. c < 128)"

named_theorems ascii_intros "texts in ASCII"

lemma ascii_simps [simp]:
  "ascii []" "ascii (c # s) \<longleftrightarrow> c < 128 \<and> ascii s" "ascii (s @ t) \<longleftrightarrow> ascii s \<and> ascii t"
  "ascii (concat ss) \<longleftrightarrow> (\<forall>s \<in> set ss. ascii s)" "ascii (replicate n c) \<longleftrightarrow> n = 0 \<or> c < 128"
  by (auto simp: ascii_def)

lemma ascii_show_nat [simp]: "ascii (show_nat n)"
  using show_nat_digits [of n] by (auto simp: ascii_def list_all_iff is_digit_def)

lemma ascii_show_word [simp]: "ascii (show_word n)"
  by (simp add: show_word_def)

lemma ascii_hex_bytes [simp]: "ascii (hex_bytes bs)"
  using hex_bytes_chars by (auto simp: ascii_def)

lemma ascii_lit: "ascii (lit s) \<longleftrightarrow> list_all (\<lambda>c. of_char c < (128 :: nat)) s"
  by (auto simp: ascii_def lit_def list_all_iff)

lemma str_prefix_ascii: "ascii s \<Longrightarrow> n \<le> length s \<Longrightarrow> str_prefix n s = Some (take n s)"
proof (induction s arbitrary: n)
  case (Cons c s)
  then show ?case by (cases n; subst str_prefix.simps) (simp_all add: len_utf8_def)
qed (simp add: str_prefix.simps)

lemma truncate_ascii:
  assumes "ascii s"
  shows "truncate_to_remote_reply_len s = Ok (take 160 s)"
proof -
  have "str_len s = length s" using assms str_len_ascii by (simp add: ascii_def)
  then show ?thesis
    using str_prefix_ascii [OF assms, of 160]
    by (auto simp: truncate_to_remote_reply_len_def str_truncate_def REMOTE_CLI_REPLY_MAX_LEN_def)
qed

text \<open>A run of characters of three bytes has a boundary only at multiples of three.\<close>

lemma str_prefix_three_bytes: "n mod 3 \<noteq> 0 \<Longrightarrow> str_prefix n (replicate k 8364) = None"
proof (induction k arbitrary: n)
  case 0
  then show ?case by (cases n) (simp_all add: str_prefix.simps)
next
  case (Suc k)
  show ?case
  proof (cases "3 \<le> n")
    case True
    then have "(n - 3) mod 3 \<noteq> 0" using Suc.prems by (simp add: le_mod_geq)
    then show ?thesis using Suc.IH True by (subst str_prefix.simps) (simp add: len_utf8_def)
  next
    case False
    then show ?thesis using Suc.prems by (subst str_prefix.simps) (auto simp: len_utf8_def)
  qed
qed

lemma str_prefix_append_ascii:
  "ascii s \<Longrightarrow> length s \<le> n \<Longrightarrow> str_prefix n (s @ t) = map_option (\<lambda>p. s @ p) (str_prefix (n - length s) t)"
proof (induction s arbitrary: n)
  case (Cons c s)
  then show ?case
    by (subst str_prefix.simps)
      (cases n, auto simp: len_utf8_def option.map_comp intro!: option.map_cong)
qed (simp add: map_option_case split: option.split)

section \<open>Clients without the password\<close>

lemma status_text_ascii: "ascii (status_text_of st)"
  by (auto simp: status_text_of_def status_line_def writeln_def battery_line_def pad2_def ascii_lit
      split: option.split)

lemma summary_ascii: "ascii (write_summary t)"
  by (simp add: write_summary_def neighbour_line_def snr_text_def Let_def ascii_lit)

lemma denied_ascii: "ascii denied_text"
  by (simp add: denied_text_def ascii_lit)

lemma strip_prefix_lit [simp]:
  "strip_prefix (lit s) (lit p) = (if starts_with s p then Some (lit (drop (length p) s)) else None)"
proof -
  have "drop n (lit s) = lit (drop n s)" for n by (simp add: lit_def drop_map)
  moreover have "length (lit p) = length p" by (simp add: lit_def)
  ultimately show ?thesis by (simp add: strip_prefix_def)
qed

lemma lit_eq_Nil [simp]: "lit s = [] \<longleftrightarrow> s = []"
  by (simp add: lit_def)

lemma trim_status: "trim (lit ''status'') = lit ''status''"
  by (rule trim_id) (simp add: lit_def is_whitespace_def)

text \<open>The board after readings of its clocks, and nothing else: no clock set, no firmware update started or
  stopped.\<close>

inductive only_read :: "'p platform_api \<Rightarrow> 'p \<Rightarrow> 'p \<Rightarrow> bool" for P where
  no_reading: "only_read P p p"
| read_millis: "only_read P p q \<Longrightarrow> only_read P p (snd (pl_now_millis P q))"
| read_seconds: "only_read P p q \<Longrightarrow> only_read P p (snd (pl_now_seconds P q))"

definition untouched :: "('s, 'p) env \<Rightarrow> ('s, 'p) world \<Rightarrow> ('s, 'p) world \<Rightarrow> bool" where
  "untouched E w w' \<longleftrightarrow> wd_context w' = wd_context w \<and> wd_storage w' = wd_storage w
     \<and> only_read (en_platform E) (wd_platform w) (wd_platform w')"

lemma untouched_same [simp]: "untouched E w w"
  by (simp add: untouched_def only_read.no_reading)

lemma untouched_clocks [simp]:
  "untouched E w w' \<Longrightarrow> untouched E w (snd (now_millis E w'))"
  "untouched E w w' \<Longrightarrow> untouched E w (snd (now_seconds E w'))"
  by (auto simp: untouched_def now_millis_def now_seconds_def split: prod.split)
    (metis only_read.read_millis snd_conv, metis only_read.read_seconds snd_conv)

lemma anonymous_command:
  "\<exists>r w'. handle_command E command (request_remote PrivAnonymousRemote timestamp) w = Ok (Some r, w')
     \<and> untouched E w w' \<and> cr_post_reply r = None \<and> ascii (cr_text r)"
proof -
  let ?rq = "request_remote PrivAnonymousRemote timestamp"
  have allows: "allows_command ?rq command \<longleftrightarrow>
      command \<in> {lit ''status'', lit ''neighbours'', lit ''neighbors'', lit ''get status''}"
    by (simp add: allows_command_def request_remote_def)
  obtain now w1 where now: "now_millis E w = (now, w1)" by fastforce
  then have w1: "untouched E w w1" using untouched_clocks(1) [of E w w] by simp
  consider (denied) "\<not> allows_command ?rq command" | (status) "command = lit ''status''"
    | (neighbours) "command = lit ''neighbours'' \<or> command = lit ''neighbors''" | (get) "command = lit ''get status''"
    using allows by blast
  then show ?thesis
  proof cases
    case denied
    then show ?thesis by (simp add: handle_command_def respond_def reply_def denied_ascii)
  next
    case status
    then show ?thesis
      using allows now w1
      by (simp add: handle_command_def word_command_def status_text_def output_text_def status_text_ascii)
  next
    case neighbours
    then show ?thesis
      using allows by (elim disjE; simp add: handle_command_def word_command_def output_text_def summary_ascii)
  next
    case get
    then show ?thesis
      using allows now w1
      by (simp add: handle_command_def trim_status handle_get_command_def status_text_def respond_def
          status_text_ascii)
  qed
qed

section \<open>Returning from a request\<close>

text \<open>A request returns in a good state; unless \<open>sure\<close>, it may instead panic.\<close>

definition returns :: "bool \<Rightarrow> ('w \<Rightarrow> bool) \<Rightarrow> (unit, 'a \<times> 'w) res \<Rightarrow> bool" where
  "returns sure I r \<longleftrightarrow> handled I r \<or> (\<not> sure \<and> r = Panicked)"

lemma returns_handled: "handled I r \<Longrightarrow> returns sure I r"
  by (simp add: returns_def)

lemma returns_Ok [simp]: "returns sure I (Inr (a, w)) \<longleftrightarrow> I w"
  by (simp add: returns_def)

lemma returns_no_answer: "I w \<Longrightarrow> returns sure I (no_answer w)"
  by (simp add: no_answer_def)

lemma returns_and_then:
  "returns sure I r \<Longrightarrow> (\<And>a w. r = Ok (a, w) \<Longrightarrow> I w \<Longrightarrow> returns sure I (f (a, w))) \<Longrightarrow>
     returns sure I (and_then r f)"
  by (auto simp: returns_def handled_def)

lemma returns_map_res:
  "returns sure I r \<Longrightarrow> (\<And>a w. r = Ok (a, w) \<Longrightarrow> I w \<Longrightarrow> returns sure I (Inr (g (a, w)))) \<Longrightarrow>
     returns sure I (map_res g r)"
  by (auto simp: returns_def handled_def)

text \<open>Without administrators in the table, every session found is a guest's.\<close>

definition no_admin :: "remote_login_table \<Rightarrow> bool" where
  "no_admin t \<longleftrightarrow> flatten (admin_entries t) = []"

lemma no_admin_iff: "no_admin t \<longleftrightarrow> (\<forall>l. Some l \<notin> set (admin_entries t))"
proof -
  have "flatten es = [] \<longleftrightarrow> (\<forall>l. Some l \<notin> set es)" for es :: "'a option list"
    by (induction es rule: flatten.induct) auto
  then show ?thesis by (simp add: no_admin_def)
qed

lemma no_admin_prune: "no_admin t \<Longrightarrow> no_admin (logins_prune t now)"
  by (simp add: no_admin_iff logins_prune_def prune_logins_mem)

lemma no_admin_privilege: "no_admin t \<Longrightarrow> fst (privilege_for t key now) \<noteq> Some Admin"
proof -
  assume "no_admin t"
  then have "no_admin (logins_prune t now)" by (rule no_admin_prune)
  then have "find_login (admin_entries (logins_prune t now)) key = None"
    using entry_keys_memD [of key] unfolding find_login_None_iff no_admin_iff by blast
  then show ?thesis by (simp add: privilege_for_def Let_def split: option.split)
qed

lemma no_admin_session:
  assumes "logins_inv t" and "no_admin t" and "sessions_matching t h now = (Ok ss, t')" and "Some s \<in> set ss"
  shows "rs_privilege s = Guest"
proof -
  have "flatten (admin_entries (logins_prune t now)) = []"
    using no_admin_prune [OF assms(2)] by (simp add: no_admin_def)
  then show ?thesis
    using sessions_matching_eq [OF assms(1), of h now] assms(3,4)
    by (auto simp: entries_of_def login_session_def)
qed

section \<open>Running a remote command\<close>

lemma encode_reply_total:
  assumes "ascii reply_text"
  obtains answer w' where "encode_remote_cli_reply E secret requester responder timestamp reply_text path w = Ok (answer, w')"
    and "w' = snd (now_seconds E w)"
  using truncate_ascii [OF assms]
  by (cases "now_seconds E w") (fastforce simp: encode_remote_cli_reply_def)

lemma guest_command:
  assumes "prefix = None \<or> (\<exists>p. prefix = Some p \<and> ascii p)"
  shows "\<exists>answer w'. run_remote_command E PrivAnonymousRemote timestamp prefix command secret requester responder path w
      = Ok (answer, w') \<and> untouched E w w'"
proof -
  obtain r w1 where r: "handle_command E command (request_remote PrivAnonymousRemote timestamp) w = Ok (Some r, w1)"
    "untouched E w w1" "cr_post_reply r = None" "ascii (cr_text r)"
    using anonymous_command [of E command timestamp w] by blast
  have a: "ascii (case prefix of None \<Rightarrow> cr_text r | Some p \<Rightarrow> p @ cr_text r)"
    using assms r(4) by (auto split: option.split)
  obtain answer w' where
    "encode_remote_cli_reply E secret requester responder timestamp
       (case prefix of None \<Rightarrow> cr_text r | Some p \<Rightarrow> p @ cr_text r) path w1 = Ok (answer, w')"
    "w' = snd (now_seconds E w1)"
    by (rule encode_reply_total [OF a])
  then show ?thesis using r by (simp add: run_remote_command_def)
qed

lemma correlation_prefix_ascii:
  "split_cli_correlation_prefix s = (Some p, command) \<Longrightarrow> ascii p"
  by (induction s rule: split_cli_correlation_prefix.induct) (auto simp: to_digit16_def split: if_splits)

definition unlucky_key :: rstr where
  "unlucky_key = 122 # replicate 48 8364"

lemma unlucky_answer: "truncate_to_remote_reply_len (lit ''Unknown config: '' @ unlucky_key) = Panicked"
proof -
  have s: "lit ''Unknown config: '' @ unlucky_key = (lit ''Unknown config: '' @ [122]) @ replicate 48 8364"
    by (simp add: unlucky_key_def)
  have a: "ascii (lit ''Unknown config: '' @ [122])" by (simp add: ascii_lit)
  have "str_len (replicate n 8364) = 3 * n" for n by (induction n) (simp_all add: len_utf8_def)
  then have "str_len (lit ''Unknown config: '' @ unlucky_key) = 161"
    by (simp add: unlucky_key_def len_utf8_def lit_def str_len_append)
  moreover have "str_prefix 160 (lit ''Unknown config: '' @ unlucky_key) = None"
    unfolding s using str_prefix_append_ascii [OF a, of 160 "replicate 48 8364"]
    by (simp add: lit_def str_prefix_three_bytes)
  ultimately show ?thesis
    by (simp add: truncate_to_remote_reply_len_def str_truncate_def REMOTE_CLI_REPLY_MAX_LEN_def)
qed

lemma unlucky_get:
  "handle_command E (lit ''get '' @ unlucky_key) (request_remote PrivPasswordedRemote timestamp) w
     = Ok (Some \<lparr>cr_text = lit ''Unknown config: '' @ unlucky_key, cr_post_reply = None\<rparr>, w)"
proof -
  have "trim unlucky_key = unlucky_key"
    by (rule trim_id) (simp add: unlucky_key_def is_whitespace_def)
  moreover have "strip_prefix (lit ''get '' @ unlucky_key) (lit ''time '') = None"
    "strip_prefix (lit ''get '' @ unlucky_key) (lit ''get '') = Some unlucky_key"
    "strip_prefix unlucky_key (lit ''wifi.'') = None"
    by (simp_all add: strip_prefix_def lit_def unlucky_key_def)
  moreover have "unlucky_key \<noteq> lit (c # s)" if "c \<noteq> CHR ''z''" for c s
  proof -
    have "of_char (CHR ''z'') = (122 :: nat)" by simp
    then have "of_char c \<noteq> (122 :: nat)" using that by (metis of_char_eq_iff)
    then show ?thesis by (simp add: lit_def unlucky_key_def)
  qed
  ultimately show ?thesis
    by (simp add: handle_command_def allows_command_def request_remote_def handle_get_command_def
        get_setting_def respond_def)
qed

section \<open>Properties\<close>

text \<open>C16: A client without the password only reads, whatever it sends. A command in an encrypted request and a
  text message, with or without a correlation prefix, are handled without a panic; afterwards the
  configuration, the sessions, the queues, the counters and the stored file are as before, and the board has only had
  its clocks read: no clock is set and no firmware update started or stopped.\<close>

theorem guests_only_read:
  assumes "p \<noteq> Some Admin" and "au_privilege decrypted \<noteq> Admin"
  shows "(\<exists>answer w'. run_remote_command E (cli_privilege_for_remote p) timestamp None command secret requester
            responder path w = Ok (answer, w') \<and> untouched E w w')
    \<and> (\<exists>answer w'. run_text_message E decrypted message w = Ok (answer, w') \<and> untouched E w w')"
proof -
  have guest: "cli_privilege_for_remote q = PrivAnonymousRemote" if "q \<noteq> Some Admin" for q
    using that by (cases q rule: cli_privilege_for_remote.cases) simp_all
  have "\<exists>answer w'. run_text_message E decrypted message w = Ok (answer, w') \<and> untouched E w w'"
  proof (cases "from_utf8 (tm_message message)")
    case (Some body)
    obtain prefix cmd where split: "split_cli_correlation_prefix (trim body) = (prefix, cmd)" by fastforce
    have "prefix = None \<or> (\<exists>p. prefix = Some p \<and> ascii p)"
      using correlation_prefix_ascii split by (cases prefix) auto
    note reads = guest_command [OF this]
    show ?thesis
      using assms(2) by (simp add: run_text_message_def Some split guest no_answer_def) (intro impI reads)
  qed (simp add: run_text_message_def no_answer_def)
  then show ?thesis using guest_command [of None] guest [OF assms(1)] by simp
qed

theorem guests_only_read_witness:
  "\<forall>E w. \<exists>answer w'. run_text_message E \<lparr>au_sender_pubkey = replicate 32 1, au_shared_secret = replicate 32 2,
       au_privilege = Guest, au_reply_path = path_empty, au_plaintext = []\<rparr>
     \<lparr>tm_timestamp = 7, tm_text_type = CliData, tm_attempt = 0,
      tm_message = str_bytes (lit ''a1|ota start'')\<rparr> w = Ok (answer, w') \<and> untouched E w w'"
  by (intro allI guests_only_read [THEN conjunct2, of None]) simp_all

text \<open>C17: An administrator's message can stop the node: \<open>get\<close> with an unknown key of 145 bytes is answered
  with the key, and the cut of that answer at 160 bytes falls inside a character. The request is itself a
  text message that fits a packet.\<close>

theorem long_answer_panics:
  assumes "au_privilege decrypted = Admin" and "tm_message message = str_bytes (lit ''get '' @ unlucky_key)"
  shows "length (tm_message message) \<le> 160 \<and> run_text_message E decrypted message w = Panicked"
proof -
  let ?s = "lit ''get '' @ unlucky_key"
  have len: "str_len (replicate n 8364) = 3 * n" for n by (induction n) (simp_all add: len_utf8_def)
  have "length (str_bytes ?s) \<le> 160"
    using len [of 48] by (simp add: str_len_def [symmetric] unlucky_key_def lit_def str_len_append len_utf8_def)
  moreover have "valid_str ?s" by (simp add: unlucky_key_def valid_str_def is_scalar_def lit_def list_all_iff)
  then have "from_utf8 (str_bytes ?s) = Some ?s" by (rule from_utf8_str_bytes)
  moreover have "trim ?s = ?s"
    by (rule trim_id) (simp add: unlucky_key_def is_whitespace_def lit_def)
  moreover have "split_cli_correlation_prefix ?s = (None, ?s)"
    by (simp add: lit_def to_digit16_def)
  ultimately show ?thesis
    using assms by (simp add: run_text_message_def run_remote_command_def unlucky_get encode_remote_cli_reply_def
        unlucky_answer del: str_bytes_simps)
qed

theorem long_answer_panics_witness:
  "\<forall>E w. run_text_message E \<lparr>au_sender_pubkey = replicate 32 1, au_shared_secret = replicate 32 2,
       au_privilege = Admin, au_reply_path = path_empty, au_plaintext = []\<rparr>
     \<lparr>tm_timestamp = 7, tm_text_type = CliData, tm_attempt = 0,
      tm_message = str_bytes (lit ''get '' @ unlucky_key)\<rparr> w = Panicked"
  by (intro allI long_answer_panics [THEN conjunct2]) (simp_all only: authenticated_plaintext.simps
      text_message_plaintext.simps)

end
