(* ===== verification/Node_Laws.thy ===== *)
theory Node_Laws
  imports Node Remote_Answers
begin

text \<open>
  The node as a whole. \<open>remote_context\<close> extends the contract of the command line by what remote requests
  do to the state, and shows that every request returns in a good state; only an administrator's answer
  may end in a panic instead. Both contracts are then discharged for the node's real invariant: the
  configuration, the sessions, the neighbour table and the bookkeeping of forwarded packets are well
  formed, on a board whose clock does not run backwards.
\<close>

section \<open>Requests\<close>

lemma write_fields_eq:
  assumes "offset + length (concat fs) \<le> length out"
  shows "write_fields (out, offset) fs
    = Ok (take offset out @ concat fs @ drop (offset + length (concat fs)) out, offset + length (concat fs))"
  using assms
proof (induction fs arbitrary: out offset)
  case (Cons f fs)
  let ?out = "take offset out @ f @ drop (offset + length f) out"
  have "length ?out = length out" using Cons.prems by simp
  moreover have "write_field (out, offset) f = Ok (?out, offset + length f)"
    using Cons.prems by (simp add: write_field_def)
  ultimately show ?case
    using Cons.IH [of "offset + length f" ?out] Cons.prems by (simp add: ac_simps)
qed simp

lemma status_fields_length: "length (concat (status_fields st)) = REPEATER_STATS_LEN"
  by (simp add: status_fields_def REPEATER_STATS_LEN_def)

lemma status_response_eq: "encode_status_binary_response st out = Ok (out @ concat (status_fields st))"
  using write_fields_eq [of 0 "status_fields st" "replicate REPEATER_STATS_LEN 0"] status_fields_length [of st]
  by (simp add: encode_status_binary_response_def)

locale remote_context = command_context E I for E :: "('s, 'p) env" and I +
  assumes logins: "I w \<Longrightarrow> logins_inv (cx_remote_logins (wd_context w))"
    and sessions: "I w \<Longrightarrow> logins_inv t \<Longrightarrow> I (w\<lparr>wd_context := (wd_context w)\<lparr>cx_remote_logins := t\<rparr>\<rparr>)"
    and reboot_flag: "I w \<Longrightarrow>
          I (w\<lparr>wd_context := (wd_context w)\<lparr>cx_reboot_after_next_remote_reply := b\<rparr>\<rparr>)"
begin

lemma remote_command:
  assumes I: "I w" and guest: "sure \<Longrightarrow> privilege = PrivAnonymousRemote \<and> (\<forall>p. prefix = Some p \<longrightarrow> ascii p)"
  shows "returns sure I (run_remote_command E privilege timestamp prefix cmd secret requester responder path w)"
proof (cases sure)
  case True
  then have g: "privilege = PrivAnonymousRemote" "prefix = None \<or> (\<exists>p. prefix = Some p \<and> ascii p)"
    using guest by (cases prefix; auto)+
  obtain r w1 where r: "handle_command E cmd (request_remote PrivAnonymousRemote timestamp) w = Ok (Some r, w1)"
    "cr_post_reply r = None" "ascii (cr_text r)"
    using anonymous_command [of E cmd timestamp w] by blast
  have I1: "I w1" using command [OF I, of cmd "request_remote PrivAnonymousRemote timestamp"] r(1) by simp
  have a: "ascii (case prefix of None \<Rightarrow> cr_text r | Some p \<Rightarrow> p @ cr_text r)"
    using g(2) r(3) by (auto split: option.split)
  obtain answer w' where "encode_remote_cli_reply E secret requester responder timestamp
       (case prefix of None \<Rightarrow> cr_text r | Some p \<Rightarrow> p @ cr_text r) path w1 = Ok (answer, w')"
    "w' = snd (now_seconds E w1)"
    by (rule encode_reply_total [OF a])
  then show ?thesis using r g(1) seconds [OF I1] by (simp add: run_remote_command_def)
next
  case False
  have reply: "returns sure I (encode_remote_cli_reply E secret requester responder timestamp t path w)"
    if "I w" for t and w
    using seconds [OF that] False
    by (auto simp: encode_remote_cli_reply_def truncate_to_remote_reply_len_def str_truncate_def returns_def
        split_beta split: option.split)
  show ?thesis
    unfolding run_remote_command_def
    by (rule returns_and_then [OF returns_handled [OF command [OF I]]])
      (auto simp: request_reboot_after_next_remote_reply_def Let_def
        intro!: returns_no_answer reply reboot_flag split: option.split)
qed

lemma anonymous_sub: "I w \<Longrightarrow> I (snd (handle_anonymous_subrequest E body timestamp w))"
  using seconds [of w]
  by (auto simp: handle_anonymous_subrequest_def Let_def split_beta split: list.split)

lemma anonymous_sub_context:
  "wd_context (snd (handle_anonymous_subrequest E body timestamp w)) = wd_context w"
  by (auto simp: handle_anonymous_subrequest_def Let_def split_beta split: list.split)

lemma login: "I w \<Longrightarrow> handled I (handle_login E decrypted privilege timestamp now_ms responder path w)"
proof -
  assume I: "I w"
  let ?w = "w\<lparr>wd_context := authenticate_remote_login (wd_context w) (an_sender_pubkey decrypted)
    (an_shared_secret decrypted) privilege timestamp now_ms path\<rparr>"
  have "I ?w"
    using sessions [OF I authenticate_inv [OF logins [OF I]]] by (simp add: authenticate_remote_login_def)
  then have "I (snd (now_millis E (snd (now_seconds E ?w))))" by (intro millis seconds)
  then show ?thesis by (simp add: handle_login_def Let_def split_beta)
qed

lemma anonymous_cli:
  assumes I: "I w" and sure: "sure \<Longrightarrow> no_admin (cx_remote_logins (wd_context w))"
  shows "returns sure I (handle_anonymous_command E decrypted body timestamp now_ms responder path w)"
proof -
  obtain p t where p: "privilege_for (cx_remote_logins (wd_context w)) (an_sender_pubkey decrypted) now_ms = (p, t)"
    by fastforce
  then have "logins_inv t" using privilege_for_inv [OF logins [OF I], of "an_sender_pubkey decrypted" now_ms] by simp
  then have I1: "I (w\<lparr>wd_context := (wd_context w)\<lparr>cx_remote_logins := t\<rparr>\<rparr>)" using sessions [OF I] by blast
  have "cli_privilege_for_remote p = PrivAnonymousRemote" if sure
    using no_admin_privilege [OF sure [OF that], of "an_sender_pubkey decrypted" now_ms] p
    by (cases p rule: cli_privilege_for_remote.cases) simp_all
  then show ?thesis
    using I p remote_command [OF I1, of sure "cli_privilege_for_remote p" None]
    by (auto simp: handle_anonymous_command_def remote_privilege_for_def intro!: returns_no_answer split: option.split)
qed

lemma anonymous_text:
  assumes I: "I w" and sure: "sure \<Longrightarrow> no_admin (cx_remote_logins (wd_context w))"
  shows "returns sure I (handle_anonymous_text E decrypted body timestamp responder path w)"
proof -
  obtain now w1 where n: "now_millis E w = (now, w1)" by fastforce
  then have I1: "I w1" and c: "wd_context w1 = wd_context w" using millis [OF I] clock_eqD(1) by auto
  show ?thesis
    using I n c anonymous_cli [OF I1] sure login [OF I1]
    by (auto simp: handle_anonymous_text_def Let_def intro: returns_no_answer returns_handled split: option.split)
qed

lemma anonymous_request:
  assumes I: "I w" and sure: "sure \<Longrightarrow> no_admin (cx_remote_logins (wd_context w))"
  shows "returns sure I (handle_anonymous_request E payload path w)"
proof -
  have sub: "returns sure I (case handle_anonymous_subrequest E body timestamp w of
        (Some response, w) \<Rightarrow> Ok (f response, w)
      | (None, w) \<Rightarrow> handle_anonymous_text E decrypted body timestamp responder path w)"
    for body timestamp f decrypted responder
    using anonymous_sub [OF I, of body timestamp] anonymous_sub_context [of body timestamp w] anonymous_text sure
    by (auto split: prod.split option.split)
  show ?thesis
    unfolding handle_anonymous_request_def Let_def
    using I sub by (auto intro!: returns_no_answer split: option.split)
qed

section \<open>Sessions\<close>

lemma decrypted_payload:
  assumes I: "I w"
  obtains r w' where "decrypt_authenticated_payload E payload now_ms w = Ok (r, w')" and "I w'"
    and "wd_context w' = (wd_context w)\<lparr>cx_remote_logins := logins_prune (cx_remote_logins (wd_context w)) now_ms\<rparr>"
    and "\<And>d. r = Some d \<Longrightarrow> no_admin (cx_remote_logins (wd_context w)) \<Longrightarrow> au_privilege d = Guest"
proof -
  let ?t = "cx_remote_logins (wd_context w)"
  obtain ss where s: "sessions_matching ?t (de_source_hash payload) now_ms = (Ok ss, logins_prune ?t now_ms)"
    using sessions_matching_eq [OF logins [OF I]] by blast
  let ?w = "w\<lparr>wd_context := (wd_context w)\<lparr>cx_remote_logins := logins_prune ?t now_ms\<rparr>\<rparr>"
  have I1: "I ?w" using sessions [OF I logins_prune_inv [OF logins [OF I]]] .
  let ?r = "case decrypt_authenticated_direct_payload (en_crypto E) payload (ac_identity (wd_config w)) ss of
      None \<Rightarrow> None
    | Some decrypted \<Rightarrow> if acl_role (cf_acl (wd_config w)) (au_sender_pubkey decrypted) = Some RoleDeny
        then None else Some decrypted"
  have "decrypt_authenticated_payload E payload now_ms w = Ok (?r, ?w)"
    by (simp add: decrypt_authenticated_payload_def remote_sessions_matching_source_hash_def s Let_def
        split: option.split)
  moreover have "au_privilege d = Guest" if d: "?r = Some d" and n: "no_admin ?t" for d
  proof -
    have "decrypt_with_sessions (en_crypto E) payload ss = Some d"
      using d by (auto simp: decrypt_authenticated_direct_payload_def split: option.splits if_splits)
    then show ?thesis
      using no_admin_session [OF logins [OF I] n s] decrypt_with_sessions_SomeD by metis
  qed
  ultimately show thesis using that I1 by auto
qed

lemma accepted: "I w \<Longrightarrow> I (snd (accept_request decrypted timestamp now_ms w))"
  using sessions [OF _ accept_newer_timestamp_inv [OF logins], of w w]
  by (simp add: accept_request_def accept_newer_remote_timestamp_def split_beta)

lemma text_message:
  assumes I: "I w" and sure: "sure \<Longrightarrow> au_privilege decrypted = Guest"
  shows "returns sure I (run_text_message E decrypted plaintext w)"
proof (cases "from_utf8 (tm_message plaintext)")
  case (Some content)
  obtain prefix cmd where s: "split_cli_correlation_prefix (trim content) = (prefix, cmd)" by fastforce
  have "ascii p" if "prefix = Some p" for p using s that correlation_prefix_ascii by blast
  then show ?thesis
    using I Some s sure
    by (auto simp: run_text_message_def intro!: returns_no_answer remote_command)
qed (use I in \<open>simp add: run_text_message_def returns_no_answer\<close>)

lemma authenticated_text:
  assumes I: "I w" and sure: "sure \<Longrightarrow> no_admin (cx_remote_logins (wd_context w))"
  shows "returns sure I (handle_authenticated_text_message E payload w)"
proof -
  obtain now w1 where n: "now_millis E w = (now, w1)" by fastforce
  then have I1: "I w1" and c: "wd_context w1 = wd_context w" using millis [OF I] clock_eqD(1) by auto
  obtain r w2 where r: "decrypt_authenticated_payload E payload now w1 = Ok (r, w2)" and I2: "I w2"
    and guest: "\<And>d. r = Some d \<Longrightarrow> no_admin (cx_remote_logins (wd_context w)) \<Longrightarrow> au_privilege d = Guest"
    using decrypted_payload [OF I1] c by metis
  have "returns sure I (let (fresh, w) = accept_request d (tm_timestamp p) now w2 in
      if \<not> fresh then no_answer w else run_text_message E d p w)" if "r = Some d" for d p
    using accepted [OF I2, of d "tm_timestamp p" now] text_message guest [OF that] sure
    by (auto simp: split_beta intro!: returns_no_answer)
  then show ?thesis
    using n r I2 by (auto simp: handle_authenticated_text_message_def intro!: returns_no_answer split: option.split)
qed

lemma binary_request: "I w \<Longrightarrow> handled I (handle_binary_request E request now_ms w)"
  using millis [of w]
  by (auto simp: handle_binary_request_def Let_def split_beta no_answer_def status_response_eq split: list.split)

lemma answered: "I w \<Longrightarrow> handled I (answer_request E packet region now_ms decrypted w)"
  using accepted [of w decrypted _ now_ms]
  by (auto simp: answer_request_def no_answer_def Let_def split_beta intro!: handled_map_res binary_request
      split: option.split)

lemma authenticated_request: "I w \<Longrightarrow> handled I (handle_authenticated_request E packet payload w)"
proof -
  assume I: "I w"
  obtain now w1 where n: "now_millis E w = (now, w1)" by fastforce
  then have I1: "I w1" using millis [OF I] by auto
  obtain r w2 where r: "decrypt_authenticated_payload E payload now w1 = Ok (r, w2)" and I2: "I w2"
    using decrypted_payload [OF I1] by metis
  show ?thesis
    using I n r I2 answered [OF I2]
    by (auto simp: handle_authenticated_request_def Let_def no_answer_def split: option.split)
qed

text \<open>The one theorem a user of the contract needs.\<close>

lemma remote_packet:
  assumes I: "I w"
  shows "returns (no_admin (cx_remote_logins (wd_context w))) I (handle_remote_packet E packet w)"
  unfolding handle_remote_packet_def
  using I by (auto intro!: returns_no_answer anonymous_request authenticated_text
      returns_handled [OF authenticated_request] split: payload.split option.split)

end

section \<open>The node's invariant\<close>

text \<open>\<open>cur\<close> is the time on the board's clock: readings lie between its values before and after, and nothing
  turns it back.\<close>

definition clock_laws :: "'p platform_api \<Rightarrow> ('p \<Rightarrow> u64) \<Rightarrow> bool" where
  "clock_laws api cur \<longleftrightarrow>
     (\<forall>p. cur p \<le> fst (pl_now_millis api p) \<and> fst (pl_now_millis api p) \<le> cur (snd (pl_now_millis api p)))
     \<and> (\<forall>p. cur p \<le> cur (snd (pl_now_seconds api p)))
     \<and> (\<forall>p t. cur p \<le> cur (snd (pl_set_wall_clock_if_forward api p t)))
     \<and> (\<forall>p. cur p \<le> cur (pl_start_ota api p)) \<and> (\<forall>p. cur p \<le> cur (pl_stop_ota api p))
     \<and> (\<forall>p. cur p \<le> cur (snd (pl_ota_status api p)))"

definition env_laws :: "('s, 'p) env \<Rightarrow> ('p \<Rightarrow> u64) \<Rightarrow> bool" where
  "env_laws E cur \<longleftrightarrow> crypto_laws (en_crypto E) \<and> profile_ok (en_crypto E) (en_profile E)
     \<and> storage_laws (en_storage E) \<and> clock_laws (en_platform E) cur"

definition node_inv :: "('p \<Rightarrow> u64) \<Rightarrow> queued_transmit option \<Rightarrow> ('s, 'p) world \<Rightarrow> bool" where
  "node_inv cur flight w \<longleftrightarrow> config_inv (wd_config w)
     \<and> logins_inv (cx_remote_logins (wd_context w))
     \<and> neighbours_inv (context_node_hash (wd_context w)) (cx_neighbours (wd_context w))
     \<and> forward_inv (wd_context w) flight (cur (wd_platform w))"

lemma node_inv_later:
  "node_inv cur flight w \<Longrightarrow> cur (wd_platform w) \<le> cur p \<Longrightarrow> node_inv cur flight (w\<lparr>wd_platform := p\<rparr>)"
  by (auto simp: node_inv_def intro: forward_inv_later)

text \<open>The parts of the context the invariant does not look at.\<close>

lemma node_inv_context:
  assumes "node_inv cur flight w" and "cx_outbound ctx = cx_outbound (wd_context w)"
    and "cx_pending_forwards ctx = cx_pending_forwards (wd_context w)"
    and "cx_seen_packets ctx = cx_seen_packets (wd_context w)" and "config_inv (cx_config ctx)"
    and "ac_identity (cx_config ctx) = ac_identity (wd_config w)"
    and "logins_inv (cx_remote_logins ctx)" and "neighbours_inv (context_node_hash ctx) (cx_neighbours ctx)"
  shows "node_inv cur flight (w\<lparr>wd_context := ctx\<rparr>)"
  using assms forward_inv_cong [of ctx "wd_context w"] by (simp add: node_inv_def)

lemma clock_readings:
  assumes "clock_laws (en_platform E) cur" and "node_inv cur flight w"
  shows "node_inv cur flight (snd (now_millis E w))" and "node_inv cur flight (snd (now_seconds E w))"
    and "node_inv cur flight (snd (set_wall_clock_if_forward E t w))"
    and "node_inv cur flight (snd (ota_status_of E w))"
    and "cur (wd_platform w) \<le> fst (now_millis E w)"
    and "fst (now_millis E w) \<le> cur (wd_platform (snd (now_millis E w)))"
  using assms node_inv_later [OF assms(2)] order_trans [of "cur (wd_platform w)"
      "fst (pl_now_millis (en_platform E) (wd_platform w))"]
  by (auto simp: clock_laws_def now_millis_def now_seconds_def set_wall_clock_if_forward_def ota_status_of_def
      split_beta)

interpretation node: remote_context E "\<lambda>w. env_laws E cur \<and> node_inv cur flight w"
proof
  fix w :: "('a, 'b) world"
  assume I: "env_laws E cur \<and> node_inv cur flight w"
  then have laws: "clock_laws (en_platform E) cur" and inv: "node_inv cur flight w"
    by (simp_all add: env_laws_def)
  note parts = inv [unfolded node_inv_def]
  note clock = clock_readings [OF laws inv] and later = node_inv_later [OF inv]
  show "config_inv (wd_config w)" "profile_ok (en_crypto E) (en_profile E)" "storage_laws (en_storage E)"
    "logins_inv (cx_remote_logins (wd_context w))"
    using I parts by (simp_all add: env_laws_def)
  show "env_laws E cur \<and> node_inv cur flight (snd (now_millis E w))"
    "env_laws E cur \<and> node_inv cur flight (snd (now_seconds E w))"
    "env_laws E cur \<and> node_inv cur flight (snd (ota_status_of E w))"
    using I clock by blast+
  show "env_laws E cur \<and> node_inv cur flight (snd (set_wall_clock_if_forward E t w))" for t
    using I clock by blast
  show "env_laws E cur \<and> node_inv cur flight (w\<lparr>wd_platform := pl_start_ota (en_platform E) (wd_platform w)\<rparr>)"
    "env_laws E cur \<and> node_inv cur flight (w\<lparr>wd_platform := pl_stop_ota (en_platform E) (wd_platform w)\<rparr>)"
    using I laws later by (simp_all add: clock_laws_def)
  show "env_laws E cur \<and> node_inv cur flight (w\<lparr>wd_storage := s\<rparr>)" for s
    using I by (simp add: node_inv_def)
  show "env_laws E cur \<and> node_inv cur flight (w\<lparr>wd_context := (wd_context w)\<lparr>cx_config := c\<rparr>\<rparr>)"
    if "config_inv c" "ac_identity c = ac_identity (wd_config w)" for c
    using I parts that by (auto simp: context_node_hash_def intro!: node_inv_context)
  show "env_laws E cur \<and> node_inv cur flight (w\<lparr>wd_context := (wd_context w)\<lparr>cx_remote_logins :=
      logins_remove (cx_remote_logins (wd_context w)) key\<rparr>\<rparr>)" for key
    using I parts logins_remove_inv(1) by (auto simp: context_node_hash_def intro!: node_inv_context)
  show "env_laws E cur \<and> node_inv cur flight (w\<lparr>wd_context := (wd_context w)\<lparr>cx_remote_logins := t\<rparr>\<rparr>)"
    if "logins_inv t" for t
    using I parts that by (auto simp: context_node_hash_def intro!: node_inv_context)
  show "env_laws E cur \<and> node_inv cur flight (w\<lparr>wd_context :=
      (wd_context w)\<lparr>cx_reboot_after_next_remote_reply := b\<rparr>\<rparr>)" for b
    using I parts by (auto simp: context_node_hash_def intro!: node_inv_context)
  show "env_laws E cur \<and> node_inv cur flight (w\<lparr>wd_context := start_discover_neighbours (wd_context w) tag now\<rparr>)"
    for tag now
    using I parts by (auto simp: context_node_hash_def start_discover_neighbours_def intro!: node_inv_context)
  show "env_laws E cur \<and> node_inv cur flight (w\<lparr>wd_context := ctx\<rparr>)"
    if e: "enqueue_outbound_item (wd_context w) now packet 0 reboot None = Ok ctx" for now packet reboot ctx
  proof -
    have "forward_inv ctx flight (cur (wd_platform w))" using enqueue_own_inv [OF _ e] parts by blast
    moreover obtain ch where "ctx = (wd_context w)\<lparr>cx_outbound := ch\<rparr>" using enqueue_item_Ok [OF e] by blast
    ultimately show ?thesis using I parts by (simp add: node_inv_def context_node_hash_def)
  qed
qed

section \<open>Received packets\<close>

lemma discover_response_inv:
  assumes "node_inv cur flight w"
  shows "node_inv cur flight (w\<lparr>wd_context :=
    handle_discover_response rssi snr now_ms node_type tag pubkey (wd_context w)\<rparr>)"
proof -
  let ?ctx = "handle_discover_response rssi snr now_ms node_type tag pubkey (wd_context w)"
  have "cx_config ?ctx = wd_config w" "cx_outbound ?ctx = cx_outbound (wd_context w)"
    "cx_pending_forwards ?ctx = cx_pending_forwards (wd_context w)"
    "cx_seen_packets ?ctx = cx_seen_packets (wd_context w)"
    "cx_remote_logins ?ctx = cx_remote_logins (wd_context w)"
    by (auto simp: handle_discover_response_def accept_discover_response_def observe_neighbour_public_key_def
        Let_def split: option.split)
  moreover have "neighbours_inv (context_node_hash (wd_context w)) (cx_neighbours ?ctx)"
    using assms observe_public_key_inv [of "context_node_hash (wd_context w)" "cx_neighbours (wd_context w)" pubkey]
    by (auto simp: node_inv_def handle_discover_response_def accept_discover_response_def
        observe_neighbour_public_key_def context_node_hash_def PUB_KEY_SIZE_def Let_def split: option.split)
  ultimately show ?thesis
    using assms by (intro node_inv_context) (simp_all add: node_inv_def context_node_hash_def)
qed

lemma control_packet:
  assumes I: "env_laws E cur \<and> node_inv cur flight w"
  shows "env_laws E cur \<and> node_inv cur flight (snd (handle_control_packet E packet rssi snr now_ms w))"
proof -
  have "env_laws E cur \<and> node_inv cur flight
      (snd (handle_discover_request E snr prefix_only type_filter tag since w))" for prefix_only type_filter tag since
    using I node.seconds [OF I]
    by (auto simp: handle_discover_request_def Let_def split_beta split: option.split)
  then show ?thesis
    using I discover_response_inv
    by (auto simp: handle_control_packet_def split: payload.split option.split control_message.split)
qed

lemma remote_response:
  assumes I: "env_laws E cur \<and> node_inv cur flight w"
  shows "env_laws E cur \<and> node_inv cur flight (queue_remote_response E response w)"
  using node.queue_own [OF node.reboot_flag [OF I, of False]]
  using I by (simp add: queue_remote_response_def take_reboot_after_next_remote_reply_def)

lemma observed:
  assumes I: "node_inv cur flight w" and wf: "packet_wf packet"
  shows "node_inv cur flight (w\<lparr>wd_context := observe_neighbour_packet C (count_received route (wd_context w))
     packet rssi snr now_ms\<rparr>)"
  using I observe_packet_inv [OF _ wf, of "context_node_hash (wd_context w)" "cx_neighbours (wd_context w)"]
  by (intro node_inv_context)
    (simp_all add: node_inv_def observe_neighbour_packet_def count_received_def context_node_hash_def)

lemma enqueue_forward_fields:
  assumes "enqueue_forward ctx now_seen now_queue p d s = (r, ctx')"
  shows "cx_config ctx' = cx_config ctx" "cx_remote_logins ctx' = cx_remote_logins ctx"
    "cx_neighbours ctx' = cx_neighbours ctx"
proof -
  define same where "same = (\<lambda>c :: app_context. cx_config c = cx_config ctx
    \<and> cx_remote_logins c = cx_remote_logins ctx \<and> cx_neighbours c = cx_neighbours ctx)"
  have release: "same (release_forward c s False now_queue) \<longleftrightarrow> same c" for c
    by (auto simp: same_def release_forward_def Let_def split: option.split)
  obtain known ctx1 where k: "is_seen_or_pending ctx s now_seen = (known, ctx1)" by fastforce
  have "same ctx1" using k by (auto simp: same_def is_seen_or_pending_def Let_def split: if_splits prod.splits)
  then have "same ctx2" if "reserve_forward ctx s now_seen = (q, ctx2)" for q ctx2
    using that k by (auto simp: same_def reserve_forward_def split: if_splits)
  moreover have "same ctx3" if "enqueue_outbound_item c now_queue p d False (Some s) = Ok ctx3" "same c" for c ctx3
    using enqueue_item_Ok [OF that(1)] that(2) by (auto simp: same_def)
  ultimately have "same ctx'"
    using assms release by (auto simp: enqueue_forward_def split: prod.splits sum.splits bool.splits)
  then show "cx_config ctx' = cx_config ctx" "cx_remote_logins ctx' = cx_remote_logins ctx"
    "cx_neighbours ctx' = cx_neighbours ctx" by (simp_all add: same_def)
qed

lemma apply_rules_fields:
  assumes "apply_repeater_rules C ctx now_seen now_queue p snr nh = Ok ctx'"
  shows "cx_config ctx' = cx_config ctx \<and> cx_remote_logins ctx' = cx_remote_logins ctx
    \<and> cx_neighbours ctx' = cx_neighbours ctx"
  using apply_rules_cases [OF assms]
proof
  assume "\<exists>bs delay sg r ctx1. enqueue_forward ctx now_seen now_queue bs delay sg = (r, ctx1)
      \<and> (ctx' = ctx1 \<or> (\<exists>route. ctx' = count_duplicate route ctx1))"
  then obtain bs delay sg r ctx1 where e: "enqueue_forward ctx now_seen now_queue bs delay sg = (r, ctx1)"
    and c: "ctx' = ctx1 \<or> (\<exists>route. ctx' = count_duplicate route ctx1)" by blast
  show ?thesis using c enqueue_forward_fields [OF e] by (auto simp: count_duplicate_def)
qed simp

lemma repeated:
  assumes I: "env_laws E cur \<and> node_inv cur flight w"
  shows "\<exists>w'. repeat_packet E packet snr nh w = Ok w' \<and> node_inv cur flight w'"
proof -
  obtain t w1 where t: "now_millis E w = (t, w1)" by fastforce
  obtain t' w2 where t': "now_millis E w1 = (t', w2)" by fastforce
  have laws: "clock_laws (en_platform E) cur" "crypto_laws (en_crypto E)" using I by (simp_all add: env_laws_def)
  have inv: "node_inv cur flight w" using I by simp
  have I1: "node_inv cur flight w1" and c1: "wd_context w1 = wd_context w" "cur (wd_platform w) \<le> t"
    "t \<le> cur (wd_platform w1)"
    using clock_readings [OF laws(1) inv] t clock_eqD(1) [OF t] by auto
  have c2: "wd_context w2 = wd_context w" "cur (wd_platform w1) \<le> t'" "t' \<le> cur (wd_platform w2)"
    using clock_readings [OF laws(1) I1] t' clock_eqD(1) [OF t'] c1(1) by auto
  have fw: "forward_inv (wd_context w) flight (cur (wd_platform w))" using inv by (simp add: node_inv_def)
  have le: "t \<le> t'" using c1(3) c2(2) by (rule order_trans)
  have "\<exists>ctx. apply_repeater_rules (en_crypto E) (wd_context w) t t' packet snr nh = Ok ctx"
    using prepare_forward_total [OF laws(2), of "wd_config w" packet snr nh] queue_rules_total [OF fw c1(2)]
    by (auto simp: apply_repeater_rules_def split: forward_decision.split)
  then obtain ctx where ctx: "apply_repeater_rules (en_crypto E) (wd_context w) t t' packet snr nh = Ok ctx" ..
  have "forward_inv ctx flight (cur (wd_platform w2))"
    using apply_rules_inv [OF fw c1(2) le ctx] forward_inv_later c2(3) by blast
  moreover have "cx_config ctx = wd_config w" "cx_remote_logins ctx = cx_remote_logins (wd_context w)"
    "cx_neighbours ctx = cx_neighbours (wd_context w)"
    using apply_rules_fields [OF ctx] by auto
  ultimately have "node_inv cur flight (w2\<lparr>wd_context := ctx\<rparr>)"
    using inv by (simp add: node_inv_def context_node_hash_def)
  then show ?thesis using t t' c2(1) ctx by (simp add: repeat_packet_def)
qed

lemma packet_handled:
  assumes I: "env_laws E cur \<and> node_inv cur flight w" and wf: "packet_wf packet"
  shows "(\<forall>w'. handle_packet E event packet w = Ok w' \<longrightarrow> node_inv cur flight w')
    \<and> (no_admin (cx_remote_logins (wd_context w)) \<longrightarrow> (\<exists>w'. handle_packet E event packet w = Ok w'))"
proof -
  let ?ctx = "observe_neighbour_packet (en_crypto E) (count_received (route_type packet) (wd_context w)) packet
    (rx_rssi event) (rx_snr_quarters event) (rx_received_at_ms event)"
  let ?w = "w\<lparr>wd_context := ?ctx\<rparr>"
  have I1: "env_laws E cur \<and> node_inv cur flight ?w" using I observed [OF _ wf] by blast
  have l: "cx_remote_logins ?ctx = cx_remote_logins (wd_context w)"
    by (simp add: observe_neighbour_packet_def count_received_def)
  have rest: "\<exists>w''. (let w = (case response of None \<Rightarrow> w' | Some bs \<Rightarrow> queue_remote_response E bs w');
               (response, w) = handle_control_packet E packet (rx_rssi event) (rx_snr_quarters event)
                                 (rx_received_at_ms event) w;
               w = (case response of None \<Rightarrow> w | Some bs \<Rightarrow> snd (queue_packet E enqueue_outbound bs w))
           in repeat_packet E packet (rx_snr_quarters event) nh w) = Ok w'' \<and> node_inv cur flight w''"
    if I': "env_laws E cur \<and> node_inv cur flight w'" for response w' nh
  proof -
    define w1 where "w1 = (case response of None \<Rightarrow> w' | Some bs \<Rightarrow> queue_remote_response E bs w')"
    have "env_laws E cur \<and> node_inv cur flight w1"
      using I' remote_response [OF I'] by (simp add: w1_def split: option.split)
    then have I2: "env_laws E cur \<and> node_inv cur flight (snd (handle_control_packet E packet (rx_rssi event)
        (rx_snr_quarters event) (rx_received_at_ms event) w1))" by (rule control_packet)
    obtain response' w2 where h: "handle_control_packet E packet (rx_rssi event) (rx_snr_quarters event)
        (rx_received_at_ms event) w1 = (response', w2)" by fastforce
    define w3 where "w3 = (case response' of None \<Rightarrow> w2 | Some bs \<Rightarrow> snd (queue_packet E enqueue_outbound bs w2))"
    have "env_laws E cur \<and> node_inv cur flight w3"
      using I2 h node.queue_own [of E cur flight w2 enqueue_outbound] by (simp add: w3_def split: option.split)
    from repeated [OF this] show ?thesis using h by (simp add: w1_def [symmetric] w3_def [symmetric] Let_def)
  qed
  have "returns (no_admin (cx_remote_logins (wd_context w))) (\<lambda>w. env_laws E cur \<and> node_inv cur flight w)
      (handle_remote_packet E packet ?w)"
    using node.remote_packet [OF I1, of packet] l by simp
  then consider (ok) response w' where "handle_remote_packet E packet ?w = Ok (response, w')"
      "env_laws E cur \<and> node_inv cur flight w'"
    | (panic) "handle_remote_packet E packet ?w = Panicked" "\<not> no_admin (cx_remote_logins (wd_context w))"
    by (auto simp: returns_def handled_def)
  then show ?thesis
  proof cases
    case ok
    from rest [OF ok(2), of response "context_node_hash (count_received (route_type packet) (wd_context w))"] ok(1)
    show ?thesis by (auto simp: handle_packet_def Let_def)
  next
    case panic
    then show ?thesis by (simp add: handle_packet_def Let_def)
  qed
qed

lemma event_handled:
  assumes I: "env_laws E cur \<and> node_inv cur flight w"
  shows "(\<forall>w'. handle_rx_event E event w = Ok w' \<longrightarrow> node_inv cur flight w')
    \<and> (no_admin (cx_remote_logins (wd_context w)) \<longrightarrow> (\<exists>w'. handle_rx_event E event w = Ok w'))"
proof (cases "packet_decode (rx_payload event)")
  case (Inl e)
  moreover have "e \<noteq> Panic" using no_panic_packet_decode [of "rx_payload event"] Inl by (auto simp: no_panic_def)
  moreover have "node_inv cur flight (w\<lparr>wd_context := record_packet_error (wd_context w)\<rparr>)"
    using I by (intro node_inv_context) (simp_all add: node_inv_def record_packet_error_def context_node_hash_def)
  ultimately show ?thesis by (cases e) (simp_all add: handle_rx_event_def)
next
  case (Inr packet)
  have "packet_wf packet" using packet_encode_decode(2) [OF Inr] .
  from packet_handled [OF I this, of event] show ?thesis by (simp add: handle_rx_event_def Inr)
qed

section \<open>Adverts and the start\<close>

lemma polled:
  assumes I: "env_laws E cur \<and> node_inv cur flight w"
  shows "env_laws E cur \<and> node_inv cur flight (snd (poll_advert E interval build s w))"
proof -
  obtain t w1 where t: "now_millis E w = (t, w1)" by fastforce
  then have I1: "env_laws E cur \<and> node_inv cur flight w1" using node.millis [OF I] by simp
  obtain u w2 where u: "now_seconds E w1 = (u, w2)" by fastforce
  then have I2: "env_laws E cur \<and> node_inv cur flight w2" using node.seconds [OF I1] by simp
  then have "env_laws E cur \<and> node_inv cur flight (send_advert E packet w2)" for packet
    using node.queue_own [OF I2, of enqueue_outbound] by (simp add: send_advert_def split: option.split)
  then show ?thesis using t u I1 by (simp add: poll_advert_def Let_def split_beta)
qed

lemma periodic_kept:
  "env_laws E cur \<and> node_inv cur flight w \<Longrightarrow>
     env_laws E cur \<and> node_inv cur flight (snd (periodic_turn E (schedules, w)))"
  using polled [OF polled [of E cur flight w flood_interval_ms "flood_advert (en_crypto E)" "snd schedules"]]
  by (simp add: periodic_turn_def Let_def split_beta)

lemma loaded_inv:
  assumes "config_inv defaults" and "load_or_create C profile api s defaults = (Ok c, s')"
  shows "config_inv c"
proof -
  have d: "config_inv (from_app_config defaults)" using from_app_config_inv [OF assms(1)] .
  have stored: "config_inv (from_stored C stored label)" if "config_inv stored" for stored label
    using that by (simp add: config_inv_def from_stored_def stored_config.defs app_config.defs)
  have read_back: "config_inv stored"
    if "load_config_file C profile api s (from_app_config defaults) = Ok (Some (stored, b))" for stored b
    using that decode_config_layer_inv [OF d]
    by (auto simp: load_config_file_def decode_config_text_def and_then_Ok_iff
        split: sum.splits fault.splits if_splits option.splits)
  show ?thesis
    using assms(2) stored [OF d] stored read_back
    by (auto simp: load_or_create_def Let_def split: sum.splits option.splits prod.splits)
qed

lemma started_inv:
  assumes "config_inv config" and "cur p = now"
  shows "node_inv cur None \<lparr>wd_context = context_new memory config now, wd_storage = s, wd_platform = p\<rparr>"
  using assms forward_inv_new [of memory config now]
  by (simp add: node_inv_def context_new_def logins_inv_new neighbours_inv_new)

text \<open>A board and a store for evaluation: a clock that stands, a file that cannot be written.\<close>

definition no_storage :: "unit storage_api" where
  "no_storage = \<lparr>st_read = (\<lambda>s key n. Err StNotFound), st_write_atomic = (\<lambda>s key data. (Err StIo, s))\<rparr>"

definition image_env :: "(unit, unit) env" where
  "image_env = \<lparr>en_crypto = toy_crypto, en_profile = [], en_firmware_version = lit ''1.0'',
     en_storage = no_storage, en_platform = still_platform 1000 1000\<rparr>"

definition image_world :: "(unit, unit) world" where
  "image_world = \<lparr>wd_context = context_new \<lparr>mp_heap_size = 0, mp_inbound_queue_len = 8,
     mp_outbound_queue_len = 16, mp_max_neighbours = 16, mp_seen_packet_cache_len = 64\<rparr> image_node 1000,
     wd_storage = (), wd_platform = ()\<rparr>"

lemma profile_ok_empty: "profile_ok C []"
  by (simp add: profile_ok_def image_defaults)

lemma image_node_inv: "config_inv image_node"
proof -
  have "config_inv (image_config toy_crypto (Seed (replicate 32 1)))"
    using decode_config_layer_inv [OF empty_config_inv decode_config_layer_defaults]
    by (simp add: private_key_wf_def)
  then show ?thesis by (simp add: image_node_def config_inv_def from_stored_def stored_config.defs app_config.defs)
qed

lemma image_world_inv: "env_laws image_env (\<lambda>_. 1000) \<and> node_inv (\<lambda>_. 1000) None image_world"
  using started_inv [OF image_node_inv, of "\<lambda>_. 1000" "()" 1000]
  by (simp add: env_laws_def image_env_def image_world_def toy_crypto_laws profile_ok_empty storage_laws_def
      no_storage_def clock_laws_def still_platform_def)

section \<open>Properties\<close>

text \<open>C7: Commands are type safe: on a board that keeps its contract, with a valid profile, every command line,
  whoever sends it, is answered without a panic, and the node stays well formed: every setting in its
  range, the access list, sessions and neighbours consistent, and each queued forward reserved once.\<close>

theorem commands_keep_node:
  assumes "env_laws E cur" and "node_inv cur flight w"
  shows "\<exists>r w'. handle_command E command request w = Ok (r, w') \<and> node_inv cur flight w'"
  using node.command [of E cur flight w command request] assms by (auto simp: handled_def)

theorem commands_keep_node_witness:
  "\<exists>r w'. handle_command image_env (lit ''set tx 100'') request_serial image_world = Ok (r, w')
     \<and> node_inv (\<lambda>_. 1000) None w'"
  by (rule commands_keep_node [OF conjunct1 [OF image_world_inv] conjunct2 [OF image_world_inv]])

text \<open>C8: No packet breaks the node: whatever arrives from the radio, handling it leaves the node well formed,
  and as long as no administrator is logged in it cannot panic.\<close>

theorem packets_keep_node:
  assumes "env_laws E cur" and "node_inv cur flight w"
  shows "(\<forall>w'. handle_rx_event E event w = Ok w' \<longrightarrow> node_inv cur flight w')
    \<and> (no_admin (cx_remote_logins (wd_context w)) \<longrightarrow> (\<exists>w'. handle_rx_event E event w = Ok w'))"
  using event_handled [of E cur flight w event] assms by blast

theorem packets_keep_node_witness:
  "\<exists>w'. handle_rx_event image_env \<lparr>rx_payload = [0x15, 0, 1, 2, 3, 4], rx_rssi = 0, rx_snr_quarters = 0,
       rx_received_at_ms = 1000\<rparr> image_world = Ok w' \<and> node_inv (\<lambda>_. 1000) None w'"
proof -
  have "no_admin (cx_remote_logins (wd_context image_world))"
    by (simp add: no_admin_iff image_world_def context_new_def logins_new_def)
  then show ?thesis
    using packets_keep_node [OF conjunct1 [OF image_world_inv] conjunct2 [OF image_world_inv]] by blast
qed

text \<open>A configuration that starts well formed stays so over a restart: whatever the store holds, loading it
  over well-formed defaults gives a well-formed configuration.\<close>

lemma boot_keeps_config:
  "config_inv defaults \<Longrightarrow> load_or_create C profile api s defaults = (Ok c, s') \<Longrightarrow> cur p = now \<Longrightarrow>
     node_inv cur None \<lparr>wd_context = context_new memory c now, wd_storage = s', wd_platform = p\<rparr>"
  by (rule started_inv [OF loaded_inv])

end
