(* ===== verification/Spec2Isabelle.thy ===== *)
theory Spec2Isabelle
  imports Config_File Mqtt_Endpoint Node_Laws
begin

text \<open>
  \<^bold>\<open>A verification library of the MCRS firmware: a MeshCore repeater.\<close>

  The program is an embedded node of a LoRa mesh. The crate \<open>protocol/\<close> holds the wire format: packets, paths,
  payloads and the plaintexts inside encrypted payloads. The crate \<open>repeater/\<close> is the node: it receives packets,
  decides which to pass on, delays and sends them within a duty-cycle budget, learns its neighbours, answers
  remote clients and a local console, advertises itself and keeps its configuration. The boards under
  \<open>platform/\<close> implement the interface the node is written against. The model covers both crates as built without the
  \<open>mqtt\<close> feature, and of that feature the transport to a broker; the boards are parameters.

  \<^bold>\<open>How the model reads the code.\<close>
  A struct is a record, an enum a datatype, a byte a word of width 8 and the other fixed-width integers words of
  their width, or \<open>nat\<close> and \<open>int\<close> where the code's range check comes first and is stated. \<open>Result\<close> is \<open>res\<close>
  (\<open>Prelude\<close>): a sum whose left side is either an error of the code's own type (\<open>Err\<close>) or a panic (\<open>Panicked\<close>), so
  indexing out of range, a failed conversion with \<open>expect\<close> and a cut inside a character are values and their absence is
  provable. A string is the list of its Unicode scalar values with its UTF-8 bytes written out (\<open>Rust_Str\<close>, \<open>Rust_Text\<close>, \<open>Hex\<close>);
  saturating, clamping and rounding arithmetic is in \<open>Rust_Num\<close>, vectors updated by index in \<open>Rust_List\<close>. State is passed
  explicitly. An \<open>async\<close> operation that holds its lock for its whole length is one function on the state it locks;
  interleavings of such operations are the steps of a relation (\<open>Radio_Loop\<close>). Loops are structural recursion over
  the data they consume, or \<open>function\<close>s with a measure; there is no fuel.

  \<^bold>\<open>What is a parameter.\<close>
  The cryptographic crates are the record \<open>crypto\<close> (\<open>Crypto_Api\<close>) with the documented output lengths (\<open>crypto_laws\<close>), the
  round trip of the block cipher where needed and the correctness of signatures (\<open>signature_laws\<close>). The board is the record
  \<open>platform_api\<close> over an abstract state (\<open>Platform_Api\<close>), whose clocks do not run backwards (\<open>clock_laws\<close>). Storage is the record
  \<open>storage_api\<close> (\<open>App_Config\<close>), which reports errors and does not panic (\<open>storage_laws\<close>). The text of the network profile built into an image is an argument, checked by the
  build script and hence decodable (\<open>profile_ok\<close>). Random numbers and the answers of the radio are arguments.

  \<^bold>\<open>The wire format\<close> (\<open>protocol/src\<close>).
  \<^item> \<open>Wire\<close>: the checked reads of \<open>wire.rs\<close>, and the interfaces \<open>wire_decoder\<close> (no input panics) and \<open>wire_codec\<close>
    (what encodes decodes back, and only well-formed values encode), which every codec below interprets.
  \<^item> \<open>Codes\<close>: the enumerations packed into bits, interpretations of \<open>bit_code\<close>. \<open>Paths\<close>: hop lists of a fixed hash
    width, with the reversal a reply uses.
  \<^item> \<open>Payloads\<close>, \<open>Plaintexts\<close>: one group per source file. \<open>Packets\<close>: \<open>packet.rs\<close>, with the routing operations, the
    signature that recognises duplicates and the transport codes. Exactness, totality and the 255 byte bound of the codec are proved there.

  \<open>Seen_Cache\<close>, the bounded memory of packet signatures in \<open>protocol/src/seen_packet_cache.rs\<close>, refines a history of recordings that
  is a function of the operations alone.

  \<^bold>\<open>The node's components\<close> (\<open>repeater/src/app\<close>).
  \<^item> \<open>Neighbours\<close>, \<open>Regions\<close>, \<open>Acl\<close>, \<open>Identity\<close>, \<open>Remote_Logins\<close>: the bounded tables of \<open>neighbours.rs\<close>,
    \<open>regions.rs\<close>, \<open>acl.rs\<close>, \<open>identity.rs\<close> and \<open>remote.rs\<close>. Each has an invariant that all its operations keep, and lemmas that say
    what a lookup finds afterwards and which entry is evicted. An operation that can fail after a change returns the
    changed table beside its result.
  \<^item> \<open>Radio\<close>, \<open>Airtime\<close>: radio settings, the airtime of a packet (bounds for every setting, no overflow), and the token
    bucket of the duty cycle. \<open>Outbound\<close>: the transmit queue, interpreted as a \<open>transmit_queue\<close>, a priority queue with
    an abstract specification.
  \<^item> \<open>Config_Values\<close>, \<open>Config_Text\<close>, \<open>App_Config\<close>, \<open>Image_Config\<close>: single settings, the file format with its layers, the
    configuration in use with setters, loading and saving, and what the embedded defaults decode to.
    \<open>Config_Laws\<close>: every way the configuration changes keeps it well formed. \<open>Config_File\<close>: a saved file gives the configuration back.
  \<^item> \<open>App_Context\<close>: the state the tasks share (\<open>AppContext\<close>) and every operation on it. \<open>App_Crypto\<close>: encrypted payloads.

  \<^bold>\<open>The node's behaviour.\<close>
  \<^item> \<open>Forwarding\<close>: the decision on a received packet, the delays, the two halves of a transmission. \<open>Forward_Spec\<close> states the decision as
    a relation \<open>forwards\<close> without the code's order of checks; the code refines it, forwarding is bounded
    per flood, and a forwarded packet changes only in its path.
  \<^item> \<open>Radio_Loop\<close>: the tasks around the radio as a step relation over reachable states. Its invariant says that each queued forward is
    reserved exactly once; from it: no forward is accepted again
    within 15 seconds, and the operations of the radio loop and the repeater's rules never panic.
  \<^item> \<open>Discovery\<close>, \<open>Periodic\<close>: adverts, discovery answers and the advert timers.
  \<^item> \<open>Cli_Text\<close>, \<open>Cli_Config\<close>, \<open>Cli\<close>: the command line of \<open>cli.rs\<close>, every command with its answer and its effect, and the
    console's line editor. \<open>Remote_Requests\<close>: the requests that arrive over the radio. \<open>Node\<close>: what a received packet causes as a whole.
  \<^item> \<open>Command_Laws\<close>: the locale \<open>command_context\<close>, what a command needs of the node (updates, sessions, storage, queueing,
    discovery keep an invariant), and in it, once, that every command keeps the invariant and answers without a panic.
    \<open>Remote_Answers\<close>: the answers of remote clients, cut at 160 bytes.
    \<open>Node_Laws\<close>: the locale \<open>remote_context\<close> extends the contract to requests; the interpretation \<open>node\<close>
    discharges it for the model with \<open>node_inv\<close>, the conjunction of the components' invariants. The properties
    \<open>commands_keep_node\<close> and \<open>packets_keep_node\<close> are read off it.

  \<^bold>\<open>The transport to a broker\<close> (\<open>app/mqtt/transport.rs\<close>).
  \<open>Mqtt_Stream\<close> reads and writes WebSocket frames over a connection given by the fragments its reads return;
  \<open>Mqtt_Endpoint\<close> parses broker addresses and makes the upgrade, with the base64 encoder and the SHA-1 digest as arguments. A reader
  that fails is not modelled further, since the client drops it with its connection. From both: the data of a
  broker's frames arrives exactly, however it is split; and an address cannot add a line to the request.

  \<^bold>\<open>Bounds.\<close>
  Milliseconds are 64 bit and wrap or saturate as the code says; statements about order of times assume what a clock
  that does not run backwards gives. \<open>usize\<close> is 32 bit, as on the boards (\<open>usize_max\<close>); buffers are far below it. The configuration file holds at most 4096
  bytes, a packet 255, a path 64; these limits are checked by the model where the code checks them.

  \<^bold>\<open>What the development found.\<close>
  \<open>long_answer_panics\<close>: a long answer with a non-ASCII character across byte 160 stops the firmware; only administrators
  can cause it (\<open>guests_only_read\<close>), and the panic is the one exception in \<open>packets_keep_node\<close>.
  \<open>rejected_power_loses_settings\<close>: a refused transmit power stays in the running configuration, and once saved makes the device forget all its settings and its key.
  \<open>private_region_hides_later\<close>, \<open>default_by_prefix_fails\<close> and \<open>oversized_packet_never_ready\<close> are the others.

  \<^bold>\<open>Not modelled.\<close>
  \<^item> The MQTT bridge (\<open>app/mqtt.rs\<close>, \<open>app/mqtt/client.rs\<close>): sessions, TLS and JSON over network crates, behind an optional
    feature. The settings \<open>mqtt.*\<close> are ignored by the build the model follows.
  \<^item> The display, the status page, the telnet sockets and logging (\<open>ui.rs\<close>, \<open>telnet.rs\<close>, \<open>protocol_log.rs\<close>, \<open>logging.rs\<close>): they read the state and write
    to devices. The line editor and the command line behind the telnet server are in \<open>Cli\<close>.
  \<^item> The boards and drivers under \<open>platform/\<close>: register access and vendor crates.
  \<^item> The executor: wake-up signals, task spawning and fairness. What holds between tasks is stated for every order of
    the steps they take.
  \<^item> \<open>saved_config_is_loaded\<close> is for an image without a network profile, a region table without changes and texts without
    whitespace at their ends; the lines of the region table are modelled, their round trip is not proved (and fails
    for a region named \<open>capture\<close>).
\<close>

end
